theory Spec2Isabelle
  imports Main "HOL-Library.Sublist"
begin

section \<open>University of Memphis term calendar importer: the core of uofm\_calendar\_import.py\<close>

text \<open>
  The development follows the Python file top down. Exceptions are values of the sum
  type \<open>error + 'a\<close> (\<open>Inl\<close> is the raised exception), \<open>None\<close> is \<open>None\<close> of
  \<open>option\<close>, loops are recursive functions.
\<close>

datatype error =
    ValueError        \<comment> \<open>raised by the importer itself, and by the date constructor\<close>
  | RuntimeError      \<comment> \<open>raised by the importer itself\<close>
  | OverflowError     \<comment> \<open>date arithmetic leaving year 1..9999\<close>
  | ParserError       \<comment> \<open>raised by the date parsing library\<close>
  | FetchError        \<comment> \<open>any failure of the HTTP request\<close>

subsection \<open>Text\<close>

text \<open>
  A Python \<open>str\<close> is a sequence of Unicode code points, so a text is a list of
  code points (the importer replaces an en dash, code point 8211, which is no 8-bit
  character). \<open>ascii\<close> writes a literal.
\<close>

type_synonym str = "nat list"

definition ascii :: "string \<Rightarrow> str" where
  "ascii s = map of_char s"

text \<open>Decimal formatting of an integer, as \<open>str(n)\<close> and \<open>f"{n}"\<close> do.\<close>

function str_of_nat :: "nat \<Rightarrow> str" where
  "str_of_nat n = (if n < 10 then [48 + n] else str_of_nat (n div 10) @ [48 + n mod 10])"
  by pat_completeness auto
termination
  by (relation "measure (\<lambda>n. n)") auto

declare str_of_nat.simps [simp del]

definition str_of_int :: "int \<Rightarrow> str" where
  "str_of_int i = (if i < 0 then 45 # str_of_nat (nat (- i)) else str_of_nat (nat i))"

subsection \<open>Dates\<close>

text \<open>
  A \<open>datetime.date\<close> is represented by its proleptic Gregorian ordinal
  (\<open>date.toordinal()\<close>: 1 is 0001-01-01, a Monday; 3652059 is 9999-12-31, the last
  date). The library defines comparison, \<open>weekday()\<close> and the addition of days on the
  ordinal; an addition that leaves the range raises \<open>OverflowError\<close>.
\<close>

type_synonym date = int

definition MINORDINAL :: int where "MINORDINAL = 1"
definition MAXORDINAL :: int where "MAXORDINAL = 3652059"

definition valid_date :: "date \<Rightarrow> bool" where
  "valid_date d = (MINORDINAL \<le> d \<and> d \<le> MAXORDINAL)"

text \<open>\<open>d + timedelta(days=k)\<close>\<close>

definition date_add :: "date \<Rightarrow> int \<Rightarrow> error + date" where
  "date_add d k = (if MINORDINAL \<le> d + k \<and> d + k \<le> MAXORDINAL then Inr (d + k)
                   else Inl OverflowError)"

text \<open>\<open>d.weekday()\<close>: Monday is 0, Sunday is 6.\<close>

definition weekday :: "date \<Rightarrow> int" where
  "weekday d = (d + 6) mod 7"

text \<open>The constructor \<open>date(year, month, day)\<close>, which raises \<open>ValueError\<close> on a
  triple that is no date.\<close>

definition is_leap :: "int \<Rightarrow> bool" where
  "is_leap y = (y mod 4 = 0 \<and> (y mod 100 \<noteq> 0 \<or> y mod 400 = 0))"

definition days_in_month :: "int \<Rightarrow> int \<Rightarrow> int" where
  "days_in_month y m =
     (if m = 2 then (if is_leap y then 29 else 28)
      else if m = 4 \<or> m = 6 \<or> m = 9 \<or> m = 11 then 30 else 31)"

definition days_before_year :: "int \<Rightarrow> int" where
  "days_before_year y = (y - 1) * 365 + (y - 1) div 4 - (y - 1) div 100 + (y - 1) div 400"

definition days_before_month :: "int \<Rightarrow> int \<Rightarrow> int" where
  "days_before_month y m =
     [0, 0, 31, 59, 90, 120, 151, 181, 212, 243, 273, 304, 334] ! nat m
       + (if m > 2 \<and> is_leap y then 1 else 0)"

definition valid_ymd :: "int \<Rightarrow> int \<Rightarrow> int \<Rightarrow> bool" where
  "valid_ymd y m d = (1 \<le> y \<and> y \<le> 9999 \<and> 1 \<le> m \<and> m \<le> 12 \<and> 1 \<le> d \<and> d \<le> days_in_month y m)"

definition ymd2ord :: "int \<Rightarrow> int \<Rightarrow> int \<Rightarrow> date" where
  "ymd2ord y m d = days_before_year y + days_before_month y m + d"

definition mk_date :: "int \<Rightarrow> int \<Rightarrow> int \<Rightarrow> error + date" where
  "mk_date y m d = (if valid_ymd y m d then Inr (ymd2ord y m d) else Inl ValueError)"

subsection \<open>The collaborators outside the importer\<close>

text \<open>
  The importer calls three libraries and reads the Unicode character database through
  Python's string methods. They are no code of the repository, so they are parameters of
  the model: every theorem holds for each value of them.
  \<^item> \<open>dateutil_parse fuzzy text\<close> is \<open>dateutil.parser.parse(text, fuzzy=fuzzy).date()\<close>;
  \<^item> \<open>soup_get_text html\<close> is \<open>BeautifulSoup(html, "html.parser").get_text("\n")\<close>;
  \<^item> \<open>http_get url\<close> is \<open>requests.get(url, timeout=30)\<close> with \<open>raise_for_status\<close>:
    the text of the page, or an exception;
  \<^item> the four Unicode tables are consulted for code points from 128 on only; on ASCII
    the classes are written out.
\<close>

record env =
  uc_decimal :: "nat \<Rightarrow> nat option"  \<comment> \<open>the value of a decimal digit (category Nd)\<close>
  uc_alnum :: "nat \<Rightarrow> bool"          \<comment> \<open>alphanumeric, as \<open>\w\<close> reads it\<close>
  uc_tolower :: "nat \<Rightarrow> nat"         \<comment> \<open>simple lower case, as \<open>re.IGNORECASE\<close> reads it\<close>
  uc_str_lower :: "str \<Rightarrow> str"       \<comment> \<open>\<open>str.lower()\<close> of a text that is not all ASCII\<close>
  dateutil_parse :: "bool \<Rightarrow> str \<Rightarrow> error + date"
  soup_get_text :: "str \<Rightarrow> str"
  http_get :: "str \<Rightarrow> error + str"

subsection \<open>Character classes and string methods\<close>

text \<open>\<open>\s\<close> and \<open>str.strip()\<close>: the Unicode white space.\<close>

definition is_space :: "nat \<Rightarrow> bool" where
  "is_space c =
     ((9 \<le> c \<and> c \<le> 13) \<or> (28 \<le> c \<and> c \<le> 32) \<or> c = 133 \<or> c = 160 \<or> c = 5760
      \<or> (8192 \<le> c \<and> c \<le> 8202) \<or> c = 8232 \<or> c = 8233 \<or> c = 8239 \<or> c = 8287 \<or> c = 12288)"

text \<open>\<open>[A-Za-z]\<close>\<close>

definition is_az :: "nat \<Rightarrow> bool" where
  "is_az c = ((65 \<le> c \<and> c \<le> 90) \<or> (97 \<le> c \<and> c \<le> 122))"

text \<open>\<open>\d\<close>, and the value \<open>int()\<close> gives a digit.\<close>

definition is_digit :: "env \<Rightarrow> nat \<Rightarrow> bool" where
  "is_digit E c = (if c < 128 then 48 \<le> c \<and> c \<le> 57 else uc_decimal E c \<noteq> None)"

definition digit_value :: "env \<Rightarrow> nat \<Rightarrow> nat" where
  "digit_value E c =
     (if c < 128 then c - 48 else (case uc_decimal E c of None \<Rightarrow> 0 | Some v \<Rightarrow> v))"

text \<open>\<open>\w\<close>, which decides \<open>\b\<close>.\<close>

definition is_word :: "env \<Rightarrow> nat \<Rightarrow> bool" where
  "is_word E c =
     (if c < 128 then (48 \<le> c \<and> c \<le> 57) \<or> is_az c \<or> c = 95 else uc_alnum E c)"

text \<open>\<open>.\<close> (without \<open>re.DOTALL\<close>)\<close>

definition not_newline :: "nat \<Rightarrow> bool" where
  "not_newline c = (c \<noteq> 10)"

definition ascii_lower :: "nat \<Rightarrow> nat" where
  "ascii_lower c = (if 65 \<le> c \<and> c \<le> 90 then c + 32 else c)"

definition to_lower :: "env \<Rightarrow> nat \<Rightarrow> nat" where
  "to_lower E c = (if c < 128 then ascii_lower c else uc_tolower E c)"

text \<open>\<open>str.lower()\<close>\<close>

definition lower :: "env \<Rightarrow> str \<Rightarrow> str" where
  "lower E s = (if list_all (\<lambda>c. c < 128) s then map (to_lower E) s else uc_str_lower E s)"

text \<open>\<open>str.strip()\<close>\<close>

definition strip :: "str \<Rightarrow> str" where
  "strip s = rev (dropWhile is_space (rev (dropWhile is_space s)))"

text \<open>\<open>text.replace(en_dash, "-")\<close>: the en dash is code point 8211, the hyphen 45.\<close>

definition replace_endash :: "str \<Rightarrow> str" where
  "replace_endash s = map (\<lambda>c. if c = 8211 then 45 else c) s"

text \<open>\<open>str.splitlines()\<close>: the line boundaries are \<open>\n\<close>, \<open>\r\<close>, \<open>\r\n\<close>, \<open>\v\<close>,
  \<open>\f\<close>, the separators 28 to 30, 133, 8232 and 8233. \<open>cur\<close> is the line read so far.\<close>

definition is_linebreak :: "nat \<Rightarrow> bool" where
  "is_linebreak c = ((10 \<le> c \<and> c \<le> 13) \<or> (28 \<le> c \<and> c \<le> 30) \<or> c = 133 \<or> c = 8232 \<or> c = 8233)"

fun split_lines :: "str \<Rightarrow> str \<Rightarrow> str list" where
  "split_lines cur [] = (if cur = [] then [] else [cur])"
| "split_lines cur (c # cs) =
     (if c = 13 \<and> cs \<noteq> [] \<and> hd cs = 10 then cur # split_lines [] (tl cs)
      else if is_linebreak c then cur # split_lines [] cs
      else split_lines (cur @ [c]) cs)"

definition splitlines :: "str \<Rightarrow> str list" where
  "splitlines s = split_lines [] s"

text \<open>\<open>sep.join(lines)\<close>\<close>

fun join :: "str \<Rightarrow> str list \<Rightarrow> str" where
  "join sep [] = []"
| "join sep [l] = l"
| "join sep (l # ls) = l @ sep @ join sep ls"

text \<open>\<open>key in l\<close>\<close>

fun str_contains :: "str \<Rightarrow> str \<Rightarrow> bool" where
  "str_contains [] key = (key = [])"
| "str_contains (c # cs) key = (prefix key (c # cs) \<or> str_contains cs key)"

text \<open>\<open>int(s)\<close> on a text of decimal digits\<close>

definition py_int :: "env \<Rightarrow> str \<Rightarrow> int" where
  "py_int E s = int (foldl (\<lambda>a c. 10 * a + digit_value E c) 0 s)"

text \<open>\<open>f"{n:02d}"\<close>\<close>

definition pad2 :: "int \<Rightarrow> str" where
  "pad2 n = (if 0 \<le> n \<and> n < 10 then 48 # str_of_int n else str_of_int n)"


subsection \<open>Regular expressions\<close>

text \<open>
  The patterns of the importer use literals, character classes, greedy repetition of a
  class (\<open>+\<close>, \<open>*\<close>, \<open>{m,n}\<close>), alternation, groups, \<open>^\<close>, \<open>$\<close> and \<open>\b\<close>. \<open>rx\<close> is
  that syntax. \<open>rx_go\<close> is a backtracking matcher in the order of Python's \<open>re\<close>: the
  stack holds what is still to match, a repetition tries the longest run first and then
  shorter ones, an alternation its left branch first. The arguments are the character
  before the position (\<open>None\<close> at the start of the text), the text from the position on,
  and the groups closed so far; the result is the groups and the text after the match.
\<close>

datatype rx =
    Eps                              \<comment> \<open>the empty pattern\<close>
  | One "nat \<Rightarrow> bool"                \<comment> \<open>one character of a class\<close>
  | Seq rx rx
  | Alt rx rx                        \<comment> \<open>\<open>a|b\<close>\<close>
  | Rep "nat \<Rightarrow> bool" nat "nat option" \<comment> \<open>a class, at least and at most so many times\<close>
  | Grp rx                           \<comment> \<open>\<open>(...)\<close>\<close>
  | Bol                              \<comment> \<open>\<open>^\<close>\<close>
  | Eol                              \<comment> \<open>\<open>$\<close>: the end, or before a final newline\<close>
  | Eos                              \<comment> \<open>the end of the text (for \<open>fullmatch\<close>)\<close>
  | Wordb "nat \<Rightarrow> bool"              \<comment> \<open>\<open>\b\<close>, for the given class of word characters\<close>

datatype frame = Rx rx | Close str

fun weight :: "frame \<Rightarrow> nat" where
  "weight (Rx r) = 2 * size r + 1"
| "weight (Close s) = 1"

function rx_go :: "frame list \<Rightarrow> nat option \<Rightarrow> str \<Rightarrow> str list \<Rightarrow> (str list \<times> str) option"
  and rep_go ::
    "nat \<Rightarrow> nat \<Rightarrow> frame list \<Rightarrow> nat option \<Rightarrow> str \<Rightarrow> str list \<Rightarrow> (str list \<times> str) option"
where
  "rx_go [] p s g = Some (g, s)"
| "rx_go (Close s0 # k) p s g = rx_go k p s (g @ [take (length s0 - length s) s0])"
| "rx_go (Rx Eps # k) p s g = rx_go k p s g"
| "rx_go (Rx (One P) # k) p [] g = None"
| "rx_go (Rx (One P) # k) p (c # cs) g = (if P c then rx_go k (Some c) cs g else None)"
| "rx_go (Rx (Seq a b) # k) p s g = rx_go (Rx a # Rx b # k) p s g"
| "rx_go (Rx (Alt a b) # k) p s g =
     (case rx_go (Rx a # k) p s g of Some r \<Rightarrow> Some r | None \<Rightarrow> rx_go (Rx b # k) p s g)"
| "rx_go (Rx (Rep P lo hi) # k) p s g =
     rep_go lo (case hi of None \<Rightarrow> length (takeWhile P s)
                | Some h \<Rightarrow> min h (length (takeWhile P s))) k p s g"
| "rx_go (Rx (Grp a) # k) p s g = rx_go (Rx a # Close s # k) p s g"
| "rx_go (Rx Bol # k) p s g = (if p = None then rx_go k p s g else None)"
| "rx_go (Rx Eol # k) p s g = (if s = [] \<or> s = [10] then rx_go k p s g else None)"
| "rx_go (Rx Eos # k) p s g = (if s = [] then rx_go k p s g else None)"
| "rx_go (Rx (Wordb W) # k) p s g =
     (if (case p of None \<Rightarrow> False | Some c \<Rightarrow> W c) \<noteq> (case s of [] \<Rightarrow> False | c # cs \<Rightarrow> W c)
      then rx_go k p s g else None)"
| "rep_go lo n k p s g =
     (if n < lo then None
      else (case rx_go k (if n = 0 then p else Some (s ! (n - 1))) (drop n s) g of
              Some r \<Rightarrow> Some r
            | None \<Rightarrow> (if n = 0 then None else rep_go lo (n - 1) k p s g)))"
  by pat_completeness auto
termination
  by (relation "inv_image (less_than <*lex*> less_than <*lex*> less_than)
        (\<lambda>x. case x of Inl (k, p, s, g) \<Rightarrow> (sum_list (map weight k), 0, 0)
                      | Inr (lo, n, k, p, s, g) \<Rightarrow> (sum_list (map weight k), 1, n))")
     auto

definition seqs :: "rx list \<Rightarrow> rx" where
  "seqs rs = foldr Seq rs Eps"

text \<open>A literal text, and one under \<open>re.IGNORECASE\<close>: there a cased character of the
  pattern matches the characters with its lower case, and \<open>i\<close> and \<open>s\<close> match the
  dotless i (305) and the long s (383) too.\<close>

definition lit :: "str \<Rightarrow> rx" where
  "lit w = seqs (map (\<lambda>c. One (\<lambda>x. x = c)) w)"

definition ci_char :: "env \<Rightarrow> nat \<Rightarrow> nat \<Rightarrow> bool" where
  "ci_char E c x =
     (if is_az c
      then to_lower E x = to_lower E c
           \<or> (to_lower E c = 105 \<and> to_lower E x = 305)
           \<or> (to_lower E c = 115 \<and> to_lower E x = 383)
      else x = c)"

definition lit_i :: "env \<Rightarrow> str \<Rightarrow> rx" where
  "lit_i E w = seqs (map (\<lambda>c. One (ci_char E c)) w)"

text \<open>\<open>re.match\<close>, \<open>re.fullmatch\<close> and \<open>re.search\<close>: the groups of the first match.\<close>

definition re_match :: "rx \<Rightarrow> str \<Rightarrow> str list option" where
  "re_match r s = map_option fst (rx_go [Rx r] None s [])"

definition re_fullmatch :: "rx \<Rightarrow> str \<Rightarrow> str list option" where
  "re_fullmatch r s = map_option fst (rx_go [Rx r, Rx Eos] None s [])"

fun search_from :: "rx \<Rightarrow> nat option \<Rightarrow> str \<Rightarrow> str list option" where
  "search_from r p [] = map_option fst (rx_go [Rx r] p [] [])"
| "search_from r p (c # cs) =
     (case rx_go [Rx r] p (c # cs) [] of
        Some m \<Rightarrow> Some (fst m)
      | None \<Rightarrow> search_from r (Some c) cs)"

definition re_search :: "rx \<Rightarrow> str \<Rightarrow> str list option" where
  "re_search r s = search_from r None s"

text \<open>
  \<open>re.sub(r, repl, s)\<close> and \<open>re.findall(r, s)\<close> (for a pattern without groups) walk the
  text from the left; \<open>skip\<close> counts the characters still inside the last match.
\<close>

fun sub_from :: "rx \<Rightarrow> str \<Rightarrow> nat \<Rightarrow> nat option \<Rightarrow> str \<Rightarrow> str" where
  "sub_from r repl skip p [] =
     (if skip = 0 \<and> rx_go [Rx r] p [] [] \<noteq> None then repl else [])"
| "sub_from r repl (Suc skip) p (c # cs) = sub_from r repl skip (Some c) cs"
| "sub_from r repl 0 p (c # cs) =
     (case rx_go [Rx r] p (c # cs) [] of
        None \<Rightarrow> c # sub_from r repl 0 (Some c) cs
      | Some m \<Rightarrow>
          (if length (snd m) = length (c # cs) then repl @ c # sub_from r repl 0 (Some c) cs
           else repl @ sub_from r repl (length cs - length (snd m)) (Some c) cs))"

definition re_sub :: "rx \<Rightarrow> str \<Rightarrow> str \<Rightarrow> str" where
  "re_sub r repl s = sub_from r repl 0 None s"

fun findall_from :: "rx \<Rightarrow> nat \<Rightarrow> nat option \<Rightarrow> str \<Rightarrow> str list" where
  "findall_from r skip p [] =
     (if skip = 0 \<and> rx_go [Rx r] p [] [] \<noteq> None then [[]] else [])"
| "findall_from r (Suc skip) p (c # cs) = findall_from r skip (Some c) cs"
| "findall_from r 0 p (c # cs) =
     (case rx_go [Rx r] p (c # cs) [] of
        None \<Rightarrow> findall_from r 0 (Some c) cs
      | Some m \<Rightarrow>
          (if length (snd m) = length (c # cs) then [] # findall_from r 0 (Some c) cs
           else take (length (c # cs) - length (snd m)) (c # cs)
                  # findall_from r (length cs - length (snd m)) (Some c) cs))"

definition re_findall :: "rx \<Rightarrow> str \<Rightarrow> str list" where
  "re_findall r s = findall_from r 0 None s"

subsection \<open>Utilities: dates and ranges\<close>

record DateRange =
  start :: date
  end' :: date  \<comment> \<open>inclusive\<close>

definition contains :: "DateRange \<Rightarrow> date \<Rightarrow> bool" where
  "contains r d = (start r \<le> d \<and> d \<le> end' r)"

definition intersects :: "DateRange \<Rightarrow> DateRange \<Rightarrow> bool" where
  "intersects r other = (\<not> (end' r < start other \<or> end' other < start r))"

definition clamp :: "DateRange \<Rightarrow> date \<Rightarrow> date \<Rightarrow> DateRange" where
  "clamp r lo hi = \<lparr>start = max (start r) lo, end' = min (end' r) hi\<rparr>"

text \<open>
  \<open>daterange_inclusive\<close> is a generator; the list holds what it yields. After each
  yield it adds a day to \<open>cur\<close> before it tests \<open>cur <= end\<close> again, so it raises
  \<open>OverflowError\<close> after yielding the last date there is.
\<close>

function daterange_inclusive :: "date \<Rightarrow> date \<Rightarrow> error + date list" where
  "daterange_inclusive cur end_d =
     (if cur \<le> end_d then
        (case date_add cur 1 of
           Inl e \<Rightarrow> Inl e
         | Inr nxt \<Rightarrow>
            (case daterange_inclusive nxt end_d of
               Inl e \<Rightarrow> Inl e
             | Inr ds \<Rightarrow> Inr (cur # ds)))
      else Inr [])"
  by pat_completeness auto
termination
  by (relation "measure (\<lambda>(cur, end_d). nat (end_d + 1 - cur))")
     (auto simp: date_add_def split: if_splits)

declare daterange_inclusive.simps [simp del]

subsection \<open>Scraping helpers\<close>

definition ACADEMIC_BASE :: str where
  "ACADEMIC_BASE = ascii ''https://preview.memphis.edu/registrar/calendars/academic''"

definition DATES_BASE :: str where
  "DATES_BASE = ascii ''https://preview.memphis.edu/registrar/calendars/dates''"

definition fetch_html :: "env \<Rightarrow> str \<Rightarrow> error + str" where
  "fetch_html E url = http_get E url"

text \<open>\<open>re.sub(r"\s+", " ", s).strip()\<close>\<close>

definition normalize_whitespace :: "str \<Rightarrow> str" where
  "normalize_whitespace s = strip (re_sub (Rep is_space 1 None) (ascii '' '') s)"

definition parse_month_day_year :: "env \<Rightarrow> str \<Rightarrow> error + date" where
  "parse_month_day_year E text = dateutil_parse E True text"

text \<open>\<open>f"{mon} {d}, {yyyy}"\<close>, the text \<open>parse_range\<close> and the deadline extractor hand
  to the date parser.\<close>

definition format_mdy :: "str \<Rightarrow> int \<Rightarrow> int \<Rightarrow> str" where
  "format_mdy mon d yyyy = mon @ ascii '' '' @ str_of_int d @ ascii '', '' @ str_of_int yyyy"

text \<open>
  The two patterns of \<open>parse_range\<close>:
  \<^verbatim>\<open>^([A-Za-z]+)\s+(\d{1,2})\s*-\s*(\d{1,2}),\s*(\d{4})$\<close> and the same with \<^verbatim>\<open>.*$\<close>
  for \<^verbatim>\<open>$\<close>.
\<close>

definition range_prefix :: "env \<Rightarrow> rx list" where
  "range_prefix E =
     [Bol, Grp (Rep is_az 1 None), Rep is_space 1 None, Grp (Rep (is_digit E) 1 (Some 2)),
      Rep is_space 0 None, lit (ascii ''-''), Rep is_space 0 None,
      Grp (Rep (is_digit E) 1 (Some 2)), lit (ascii '',''), Rep is_space 0 None,
      Grp (Rep (is_digit E) 4 (Some 4))]"

definition range_exact :: "env \<Rightarrow> rx" where
  "range_exact E = seqs (range_prefix E @ [Eol])"

definition range_with_suffix :: "env \<Rightarrow> rx" where
  "range_with_suffix E = seqs (range_prefix E @ [Rep not_newline 0 None, Eol])"

text \<open>The body the two branches of \<open>parse_range\<close> share: the groups are the month word,
  the two day numbers and the year.\<close>

definition range_of_groups :: "env \<Rightarrow> str list \<Rightarrow> error + DateRange" where
  "range_of_groups E gs =
     (case dateutil_parse E False (format_mdy (gs ! 0) (py_int E (gs ! 1)) (py_int E (gs ! 3))) of
        Inl e \<Rightarrow> Inl e
      | Inr start_d \<Rightarrow>
         (case dateutil_parse E False (format_mdy (gs ! 0) (py_int E (gs ! 2)) (py_int E (gs ! 3))) of
            Inl e \<Rightarrow> Inl e
          | Inr end_d \<Rightarrow> Inr \<lparr>start = start_d, end' = end_d\<rparr>))"

definition parse_range :: "env \<Rightarrow> str \<Rightarrow> error + DateRange" where
  "parse_range E text =
     (let t = normalize_whitespace (replace_endash text) in
      case re_match (range_exact E) t of
        Some gs \<Rightarrow> range_of_groups E gs
      | None \<Rightarrow>
         (case re_match (range_with_suffix E) t of
            Some gs \<Rightarrow> range_of_groups E gs
          | None \<Rightarrow>
             (case parse_month_day_year E t of
                Inl e \<Rightarrow> Inl e
              | Inr d \<Rightarrow> Inr \<lparr>start = d, end' = d\<rparr>)))"

definition academic_year_slug_for_term :: "env \<Rightarrow> int \<Rightarrow> str \<Rightarrow> error + str" where
  "academic_year_slug_for_term E year semester =
     (let semester = lower E semester in
      if semester \<noteq> ascii ''fall'' \<and> semester \<noteq> ascii ''spring'' then Inl ValueError
      else
        (let fall_year = (if semester = ascii ''fall'' then year else year - 1);
             yy = fall_year mod 100;
             yy2 = (fall_year + 1) mod 100
         in Inr (ascii ''ay'' @ pad2 yy @ pad2 yy2 @ ascii ''.php'')))"

definition candidate_dates_deadlines_urls :: "env \<Rightarrow> int \<Rightarrow> str \<Rightarrow> str list" where
  "candidate_dates_deadlines_urls E year semester =
     (let semester = lower E semester;
          yy = year mod 100;
          code = (if semester = ascii ''fall'' then ascii ''f'' else ascii ''s'')
      in [DATES_BASE @ ascii ''/'' @ semester @ pad2 yy @ ascii ''-dates.php'',
          DATES_BASE @ ascii ''/'' @ pad2 yy @ code @ ascii ''-dates.php''])"

text \<open>\<open>next((i for i, l in enumerate(lines) if P l), None)\<close>\<close>

fun first_index :: "('a \<Rightarrow> bool) \<Rightarrow> 'a list \<Rightarrow> nat option" where
  "first_index P [] = None"
| "first_index P (x # xs) = (if P x then Some 0 else map_option Suc (first_index P xs))"

text \<open>\<^verbatim>\<open>\b(Summer|Fall|Spring)\s+\d{4}\b\<close> and \<^verbatim>\<open>\bSpring\s+\d{4}\b\<close>\<close>

definition term_heading :: "env \<Rightarrow> rx" where
  "term_heading E =
     seqs [Wordb (is_word E),
           Grp (Alt (lit (ascii ''Summer'')) (Alt (lit (ascii ''Fall'')) (lit (ascii ''Spring'')))),
           Rep is_space 1 None, Rep (is_digit E) 4 (Some 4), Wordb (is_word E)]"

definition spring_heading :: "env \<Rightarrow> rx" where
  "spring_heading E =
     seqs [Wordb (is_word E), lit (ascii ''Spring''), Rep is_space 1 None,
           Rep (is_digit E) 4 (Some 4), Wordb (is_word E)]"

definition page_lines :: "env \<Rightarrow> str \<Rightarrow> str list" where
  "page_lines E html =
     filter (\<lambda>l. l \<noteq> []) (map normalize_whitespace (splitlines (soup_get_text E html)))"

definition extract_term_block_text :: "env \<Rightarrow> str \<Rightarrow> int \<Rightarrow> str \<Rightarrow> error + str" where
  "extract_term_block_text E academic_html year semester =
     (let lines = page_lines E academic_html;
          semester = lower E semester
      in if semester = ascii ''spring'' then
           (let key = ascii ''Spring '' @ str_of_int year in
            case first_index (\<lambda>l. str_contains l key) lines of
              None \<Rightarrow> Inl RuntimeError
            | Some start_idx \<Rightarrow>
               (let end_idx =
                      (case first_index
                              (\<lambda>l. re_search (term_heading E) l \<noteq> None \<and> \<not> str_contains l key)
                              (drop (start_idx + 1) lines) of
                         None \<Rightarrow> length lines
                       | Some j \<Rightarrow> start_idx + 1 + j)
                in Inr (join [10] (take (end_idx - start_idx) (drop start_idx lines)))))
         else
           (let key_next_spring = ascii ''Spring '' @ str_of_int (year + 1);
                boundary =
                  (case first_index (\<lambda>l. str_contains l key_next_spring) lines of
                     Some b \<Rightarrow> b
                   | None \<Rightarrow>
                      (case first_index (\<lambda>l. re_search (spring_heading E) l \<noteq> None) lines of
                         Some b \<Rightarrow> b
                       | None \<Rightarrow> length lines))
            in Inr (join [10] (take boundary lines))))"

text \<open>\<^verbatim>\<open>{label}\s*:\s*([A-Za-z]+\s+\d{1,2},\s+\d{4})\<close>, the label escaped\<close>

definition bullet_date_pattern :: "env \<Rightarrow> str \<Rightarrow> rx" where
  "bullet_date_pattern E label =
     seqs [lit label, Rep is_space 0 None, lit (ascii '':''), Rep is_space 0 None,
           Grp (seqs [Rep is_az 1 None, Rep is_space 1 None, Rep (is_digit E) 1 (Some 2),
                      lit (ascii '',''), Rep is_space 1 None, Rep (is_digit E) 4 (Some 4)])]"

definition find_bullet_date :: "env \<Rightarrow> str \<Rightarrow> str \<Rightarrow> error + date option" where
  "find_bullet_date E term_text label =
     (case re_search (bullet_date_pattern E label) term_text of
        None \<Rightarrow> Inr None
      | Some gs \<Rightarrow>
         (case parse_month_day_year E (gs ! 0) of
            Inl e \<Rightarrow> Inl e
          | Inr d \<Rightarrow> Inr (Some d)))"

text \<open>\<^verbatim>\<open>{label}\s*:\s*([A-Za-z]+\s+\d{1,2}\s*[-EN_DASH]\s*\d{1,2},\s*\d{4})\<close>, where the class
  is the hyphen and the en dash\<close>

definition bullet_range_pattern :: "env \<Rightarrow> str \<Rightarrow> rx" where
  "bullet_range_pattern E label =
     seqs [lit label, Rep is_space 0 None, lit (ascii '':''), Rep is_space 0 None,
           Grp (seqs [Rep is_az 1 None, Rep is_space 1 None, Rep (is_digit E) 1 (Some 2),
                      Rep is_space 0 None, One (\<lambda>c. c = 45 \<or> c = 8211), Rep is_space 0 None,
                      Rep (is_digit E) 1 (Some 2), lit (ascii '',''), Rep is_space 0 None,
                      Rep (is_digit E) 4 (Some 4)])]"

definition find_bullet_range :: "env \<Rightarrow> str \<Rightarrow> str \<Rightarrow> error + DateRange option" where
  "find_bullet_range E term_text label =
     (case re_search (bullet_range_pattern E label) term_text of
        None \<Rightarrow> Inr None
      | Some gs \<Rightarrow>
         (case parse_range E (gs ! 0) of
            Inl e \<Rightarrow> Inl e
          | Inr r \<Rightarrow> Inr (Some r)))"

fun find_any_labeled_ranges :: "env \<Rightarrow> str \<Rightarrow> str list \<Rightarrow> error + (str \<times> DateRange) list" where
  "find_any_labeled_ranges E term_text [] = Inr []"
| "find_any_labeled_ranges E term_text (lab # labels) =
     (case find_bullet_range E term_text lab of
        Inl e \<Rightarrow> Inl e
      | Inr rng \<Rightarrow>
         (case find_any_labeled_ranges E term_text labels of
            Inl e \<Rightarrow> Inl e
          | Inr found \<Rightarrow>
              Inr (case rng of None \<Rightarrow> found | Some r \<Rightarrow> (lab, r) # found)))"

subsection \<open>The deadlines page\<close>

text \<open>\<^verbatim>\<open>re.sub(r"^[\s\-\*\u2022\u00B7]+", "", s).strip()\<close>\<close>

definition strip_bullets :: "str \<Rightarrow> str" where
  "strip_bullets s =
     strip (re_sub (seqs [Bol, Rep (\<lambda>c. is_space c \<or> c = 45 \<or> c = 42 \<or> c = 8226 \<or> c = 183) 1 None])
              [] s)"

text \<open>\<^verbatim>\<open>^FULL\b\<close>\<close>

definition full_token :: "env \<Rightarrow> rx" where
  "full_token E = seqs [Bol, lit (ascii ''FULL''), Wordb (is_word E)]"

text \<open>The truth value of an \<open>Optional[str]\<close>: \<open>None\<close> and the empty text are false.\<close>

definition truthy :: "str option \<Rightarrow> bool" where
  "truthy x = (case x of None \<Rightarrow> False | Some s \<Rightarrow> s \<noteq> [])"

text \<open>
  The \<open>for l in lines\<close> loop of \<open>parse_deadlines_drop_withdraw\<close>, with its four
  variables as arguments; the \<open>break\<close> returns them.
\<close>

fun scan_lines ::
  "env \<Rightarrow> str list \<Rightarrow> bool \<Rightarrow> bool \<Rightarrow> str option \<Rightarrow> str option \<Rightarrow> str option \<times> str option"
where
  "scan_lines E [] in_drop in_withdraw full_drop_line full_withdraw_line =
     (full_drop_line, full_withdraw_line)"
| "scan_lines E (l # ls) in_drop in_withdraw full_drop_line full_withdraw_line =
     (if re_search (lit_i E (ascii ''Drop Period'')) l \<noteq> None then
        scan_lines E ls True False full_drop_line full_withdraw_line
      else if re_search (lit_i E (ascii ''Withdrawal Period'')) l \<noteq> None then
        scan_lines E ls False True full_drop_line full_withdraw_line
      else if in_drop \<and> full_drop_line = None \<and> re_match (full_token E) l \<noteq> None then
        scan_lines E ls in_drop in_withdraw (Some l) full_withdraw_line
      else if in_withdraw \<and> full_withdraw_line = None \<and> re_match (full_token E) l \<noteq> None then
        scan_lines E ls in_drop in_withdraw full_drop_line (Some l)
      else if truthy full_drop_line \<and> truthy full_withdraw_line then
        (full_drop_line, full_withdraw_line)
      else scan_lines E ls in_drop in_withdraw full_drop_line full_withdraw_line)"

text \<open>
  The patterns of \<open>extract_end_date_from_full_line\<close>:
  \<^verbatim>\<open>[A-Za-z]+\s+\d{1,2},\s*\d{4}\<close> (case A and the fallback),
  \<^verbatim>\<open>([A-Za-z]+)\s+(\d{1,2})\s*-\s*([A-Za-z]+)\s+(\d{1,2}),\s*(\d{4})\<close> (case B) and
  \<^verbatim>\<open>([A-Za-z]+)\s+(\d{1,2})\s*-\s*(\d{1,2}),\s*(\d{4})\<close> (case C).
\<close>

definition single_date_pattern :: "env \<Rightarrow> rx" where
  "single_date_pattern E =
     seqs [Rep is_az 1 None, Rep is_space 1 None, Rep (is_digit E) 1 (Some 2), lit (ascii '',''),
           Rep is_space 0 None, Rep (is_digit E) 4 (Some 4)]"

definition two_month_pattern :: "env \<Rightarrow> rx" where
  "two_month_pattern E =
     seqs [Grp (Rep is_az 1 None), Rep is_space 1 None, Grp (Rep (is_digit E) 1 (Some 2)),
           Rep is_space 0 None, lit (ascii ''-''), Rep is_space 0 None,
           Grp (Rep is_az 1 None), Rep is_space 1 None, Grp (Rep (is_digit E) 1 (Some 2)),
           lit (ascii '',''), Rep is_space 0 None, Grp (Rep (is_digit E) 4 (Some 4))]"

definition one_month_pattern :: "env \<Rightarrow> rx" where
  "one_month_pattern E =
     seqs [Grp (Rep is_az 1 None), Rep is_space 1 None, Grp (Rep (is_digit E) 1 (Some 2)),
           Rep is_space 0 None, lit (ascii ''-''), Rep is_space 0 None,
           Grp (Rep (is_digit E) 1 (Some 2)), lit (ascii '',''), Rep is_space 0 None,
           Grp (Rep (is_digit E) 4 (Some 4))]"

text \<open>The text left of a captured line: \<open>FULL\<close> and the separators \<^verbatim>\<open>^[\s\-EN_DASH:]+\<close>
  removed, the en dash replaced, white space normalized.\<close>

definition full_line_rest :: "env \<Rightarrow> str \<Rightarrow> str" where
  "full_line_rest E line =
     normalize_whitespace (replace_endash
       (strip (re_sub (seqs [Bol, Rep (\<lambda>c. is_space c \<or> c = 45 \<or> c = 8211 \<or> c = 58) 1 None]) []
          (strip (re_sub (full_token E) [] line)))))"

definition extract_end_date_from_full_line :: "env \<Rightarrow> str option \<Rightarrow> error + date option" where
  "extract_end_date_from_full_line E line =
     (case line of
        None \<Rightarrow> Inr None
      | Some l \<Rightarrow>
         (if l = [] then Inr None
          else
            (let rest = full_line_rest E l in
             if re_fullmatch (single_date_pattern E) rest \<noteq> None then
               (case parse_month_day_year E rest of Inl e \<Rightarrow> Inl e | Inr d \<Rightarrow> Inr (Some d))
             else
               (case re_fullmatch (two_month_pattern E) rest of
                  Some gs \<Rightarrow>
                    (case dateutil_parse E False
                            (format_mdy (gs ! 2) (py_int E (gs ! 3)) (py_int E (gs ! 4))) of
                       Inl e \<Rightarrow> Inl e
                     | Inr d \<Rightarrow> Inr (Some d))
                | None \<Rightarrow>
                   (case re_fullmatch (one_month_pattern E) rest of
                      Some gs \<Rightarrow>
                        (case dateutil_parse E False
                                (format_mdy (gs ! 0) (py_int E (gs ! 2)) (py_int E (gs ! 3))) of
                           Inl e \<Rightarrow> Inl e
                         | Inr d \<Rightarrow> Inr (Some d))
                    | None \<Rightarrow>
                       (let candidates = re_findall (single_date_pattern E) rest in
                        if candidates \<noteq> [] then
                          (case parse_month_day_year E (last candidates) of
                             Inl e \<Rightarrow> Inl e
                           | Inr d \<Rightarrow> Inr (Some d))
                        else Inr None))))))"

definition deadline_lines :: "env \<Rightarrow> str \<Rightarrow> str list" where
  "deadline_lines E dates_html = map strip_bullets (page_lines E dates_html)"

definition parse_deadlines_drop_withdraw ::
  "env \<Rightarrow> str \<Rightarrow> error + (date option \<times> date option)" where
  "parse_deadlines_drop_withdraw E dates_html =
     (case scan_lines E (deadline_lines E dates_html) False False None None of
        (full_drop_line, full_withdraw_line) \<Rightarrow>
          (case extract_end_date_from_full_line E full_drop_line of
             Inl e \<Rightarrow> Inl e
           | Inr last_drop \<Rightarrow>
              (case extract_end_date_from_full_line E full_withdraw_line of
                 Inl e \<Rightarrow> Inl e
               | Inr last_withdraw \<Rightarrow> Inr (last_drop, last_withdraw))))"

subsection \<open>Week labeling logic\<close>

definition monday_of_week :: "date \<Rightarrow> error + date" where
  "monday_of_week d = date_add d (- weekday d)"

definition is_blackout :: "DateRange list \<Rightarrow> date \<Rightarrow> bool" where
  "is_blackout blackout_ranges day = list_ex (\<lambda>r. contains r day) blackout_ranges"

text \<open>The inner loop: the instructional weekdays of a window.\<close>

definition instructional_days :: "DateRange list \<Rightarrow> DateRange \<Rightarrow> error + date list" where
  "instructional_days blackout_ranges week_range =
     (case daterange_inclusive (start week_range) (end' week_range) of
        Inl e \<Rightarrow> Inl e
      | Inr ds \<Rightarrow> Inr (filter (\<lambda>d. \<not> weekday d \<ge> 5 \<and> \<not> is_blackout blackout_ranges d) ds))"

type_synonym week_event = "str \<times> date \<times> date"

definition week_title :: "int \<Rightarrow> bool \<Rightarrow> str" where
  "week_title week_num short =
     ascii ''Week '' @ str_of_int week_num @ (if short then ascii '' (short)'' else [])"

text \<open>The \<open>while cur <= wk_end_boundary\<close> loop, with its variables as arguments.\<close>

function week_loop ::
  "DateRange \<Rightarrow> DateRange list \<Rightarrow> date \<Rightarrow> date \<Rightarrow> int \<Rightarrow> week_event list \<Rightarrow> error + week_event list"
where
  "week_loop term_range blackout_ranges wk_end_boundary cur week_num events =
     (if cur \<le> wk_end_boundary then
        (case date_add cur 4 of
           Inl e \<Rightarrow> Inl e
         | Inr fri \<Rightarrow>
            (case instructional_days blackout_ranges
                    (clamp \<lparr>start = cur, end' = fri\<rparr> (start term_range) (end' term_range)) of
               Inl e \<Rightarrow> Inl e
             | Inr days \<Rightarrow>
                (if length days = 0 then
                   (case date_add cur 7 of
                      Inl e \<Rightarrow> Inl e
                    | Inr nxt \<Rightarrow>
                        week_loop term_range blackout_ranges wk_end_boundary nxt week_num events)
                 else
                   (case date_add cur 7 of
                      Inl e \<Rightarrow> Inl e
                    | Inr nxt \<Rightarrow>
                        week_loop term_range blackout_ranges wk_end_boundary nxt (week_num + 1)
                          (events @ [(week_title week_num (length days < 5), hd days, last days)])))))
      else Inr events)"
  by pat_completeness auto
termination
  by (relation "measure (\<lambda>(t, b, wk_end_boundary, cur, n, evs). nat (wk_end_boundary + 1 - cur))")
     (auto simp: date_add_def split: if_splits)

declare week_loop.simps [simp del]

definition instructional_week_events ::
  "date \<Rightarrow> date \<Rightarrow> DateRange list \<Rightarrow> error + week_event list" where
  "instructional_week_events first_class last_class blackout_ranges =
     (case monday_of_week first_class of
        Inl e \<Rightarrow> Inl e
      | Inr wk_start \<Rightarrow>
         (case monday_of_week last_class of
            Inl e \<Rightarrow> Inl e
          | Inr wk_end_boundary \<Rightarrow>
              week_loop \<lparr>start = first_class, end' = last_class\<rparr> blackout_ranges
                wk_end_boundary wk_start 1 []))"

subsection \<open>Subsections of a term block\<close>

definition subsection_headers :: "str list" where
  "subsection_headers =
     [ascii ''All Parts of Term'', ascii ''Winter Intersession'', ascii ''Full Part of Term'',
      ascii ''1st Half Part of Term'', ascii ''2nd Half Part of Term'',
      ascii ''Pre Summer Part of Term'', ascii ''Extended Summer Part of Term'']"

definition extract_subsection :: "str \<Rightarrow> str \<Rightarrow> str" where
  "extract_subsection block_text header =
     (let lines = filter (\<lambda>l. l \<noteq> []) (map strip (splitlines block_text)) in
      case first_index (\<lambda>l. l = header) lines of
        None \<Rightarrow> block_text
      | Some start_idx \<Rightarrow>
         (let end_idx =
                (case first_index (\<lambda>l. l \<in> set subsection_headers) (drop (start_idx + 1) lines) of
                   None \<Rightarrow> length lines
                 | Some j \<Rightarrow> start_idx + 1 + j)
          in join [10] (take (end_idx - start_idx) (drop start_idx lines))))"

subsection \<open>Main orchestration\<close>

text \<open>The dictionary \<open>build_term_events\<close> returns.\<close>

record payload =
  p_ay_url :: str
  p_dd_url :: str
  p_first_day :: date
  p_last_day :: date
  p_study_day :: "date option"
  p_exams_rng :: "DateRange option"
  p_breaks_in_term :: "(str \<times> DateRange) list"
  p_holidays_in_term :: "(str \<times> DateRange) list"
  p_last_drop_no_grade :: "date option"
  p_last_withdraw_w :: "date option"
  p_week_events :: "week_event list"

text \<open>What is read from the term block before the second page is fetched.\<close>

record term_facts =
  f_first_day :: date
  f_last_day :: date
  f_study_day :: "date option"
  f_exams_rng :: "DateRange option"
  f_single_holidays :: "(str \<times> date) list"
  f_breaks :: "(str \<times> DateRange) list"

definition break_like_labels :: "str list" where
  "break_like_labels = [ascii ''Spring Break'', ascii ''Fall Break'', ascii ''Thanksgiving Holidays'']"

text \<open>The loop \<open>for lab in ["Labor Day", "M. L. King, Jr. Holiday"]\<close>.\<close>

fun find_single_holidays :: "env \<Rightarrow> str \<Rightarrow> str list \<Rightarrow> error + (str \<times> date) list" where
  "find_single_holidays E term_text [] = Inr []"
| "find_single_holidays E term_text (lab # labels) =
     (case find_bullet_date E term_text lab of
        Inl e \<Rightarrow> Inl e
      | Inr d \<Rightarrow>
         (case find_single_holidays E term_text labels of
            Inl e \<Rightarrow> Inl e
          | Inr found \<Rightarrow> Inr (case d of None \<Rightarrow> found | Some d' \<Rightarrow> (lab, d') # found)))"

definition read_term_facts :: "env \<Rightarrow> str \<Rightarrow> int \<Rightarrow> str \<Rightarrow> error + term_facts" where
  "read_term_facts E academic_html year semester =
     (case extract_term_block_text E academic_html year semester of
        Inl e \<Rightarrow> Inl e
      | Inr block \<Rightarrow>
         (let term_text = extract_subsection block (ascii ''Full Part of Term'') in
          case find_bullet_date E term_text (ascii ''First Day of Classes'') of
            Inl e \<Rightarrow> Inl e
          | Inr first_d \<Rightarrow>
          (case find_bullet_date E term_text (ascii ''Last Day of Classes'') of
            Inl e \<Rightarrow> Inl e
          | Inr last_d \<Rightarrow>
          (case find_bullet_date E term_text (ascii ''Study Day'') of
            Inl e \<Rightarrow> Inl e
          | Inr study_d \<Rightarrow>
          (case find_bullet_range E term_text (ascii ''Exams'') of
            Inl e \<Rightarrow> Inl e
          | Inr exams \<Rightarrow>
          (case (first_d, last_d) of
            (Some fd, Some ld) \<Rightarrow>
              (case find_any_labeled_ranges E term_text (break_like_labels @ [ascii ''Exams'']) of
                 Inl e \<Rightarrow> Inl e
               | Inr labeled_ranges \<Rightarrow>
              (case find_single_holidays E term_text
                      [ascii ''Labor Day'', ascii ''M. L. King, Jr. Holiday''] of
                 Inl e \<Rightarrow> Inl e
               | Inr single_holidays \<Rightarrow>
              (case find_any_labeled_ranges E term_text break_like_labels of
                 Inl e \<Rightarrow> Inl e
               | Inr breaks \<Rightarrow>
                  Inr \<lparr>f_first_day = fd, f_last_day = ld, f_study_day = study_d,
                       f_exams_rng = exams, f_single_holidays = single_holidays,
                       f_breaks = breaks\<rparr>)))
          | _ \<Rightarrow> Inl RuntimeError))))))"

text \<open>The loop over the candidate addresses of the deadlines page: the first page
  fetched without an exception and its address, and the addresses tried.\<close>

fun fetch_first :: "env \<Rightarrow> str list \<Rightarrow> (str \<times> str) option \<times> str list" where
  "fetch_first E [] = (None, [])"
| "fetch_first E (u # us) =
     (case fetch_html E u of
        Inr html \<Rightarrow> (Some (html, u), [u])
      | Inl e \<Rightarrow> (case fetch_first E us of (r, tried) \<Rightarrow> (r, u # tried)))"

definition holidays_in_term :: "DateRange \<Rightarrow> (str \<times> date) list \<Rightarrow> (str \<times> DateRange) list" where
  "holidays_in_term term_range single_holidays =
     map (\<lambda>(lab, d). (lab, \<lparr>start = d, end' = d\<rparr>))
       (filter (\<lambda>(lab, d). contains term_range d) single_holidays)"

definition breaks_in_term :: "DateRange \<Rightarrow> (str \<times> DateRange) list \<Rightarrow> (str \<times> DateRange) list" where
  "breaks_in_term term_range breaks = filter (\<lambda>(lab, rng). intersects rng term_range) breaks"

definition term_blackout_ranges ::
  "date \<Rightarrow> date \<Rightarrow> (str \<times> DateRange) list \<Rightarrow> (str \<times> DateRange) list \<Rightarrow> DateRange list" where
  "term_blackout_ranges first_d last_d breaks_in holidays_in =
     map (\<lambda>(lab, rng). clamp rng first_d last_d) breaks_in @ map snd holidays_in"

text \<open>The part of \<open>build_term_events\<close> after both pages are there.\<close>

definition assemble :: "env \<Rightarrow> str \<Rightarrow> str \<Rightarrow> term_facts \<Rightarrow> str \<Rightarrow> error + payload" where
  "assemble E ay_url dd_url_used facts dd_html =
     (case parse_deadlines_drop_withdraw E dd_html of
        Inl e \<Rightarrow> Inl e
      | Inr (last_drop, last_withdraw) \<Rightarrow>
         (let term_range = \<lparr>start = f_first_day facts, end' = f_last_day facts\<rparr>;
              hol = holidays_in_term term_range (f_single_holidays facts);
              brk = breaks_in_term term_range (f_breaks facts);
              blackout = term_blackout_ranges (f_first_day facts) (f_last_day facts) brk hol
          in case instructional_week_events (f_first_day facts) (f_last_day facts) blackout of
               Inl e \<Rightarrow> Inl e
             | Inr weeks \<Rightarrow>
                 Inr \<lparr>p_ay_url = ay_url, p_dd_url = dd_url_used,
                      p_first_day = f_first_day facts, p_last_day = f_last_day facts,
                      p_study_day = f_study_day facts, p_exams_rng = f_exams_rng facts,
                      p_breaks_in_term = brk, p_holidays_in_term = hol,
                      p_last_drop_no_grade = last_drop, p_last_withdraw_w = last_withdraw,
                      p_week_events = weeks\<rparr>))"

text \<open>
  \<open>build_term_events\<close> returns its result (or the exception) and the addresses it
  requested, in order: the page fetches are its only effect.
\<close>

definition build_term_events :: "env \<Rightarrow> int \<Rightarrow> str \<Rightarrow> (error + payload) \<times> str list" where
  "build_term_events E year semester =
     (let semester = lower E semester in
      if semester \<noteq> ascii ''fall'' \<and> semester \<noteq> ascii ''spring'' then (Inl ValueError, [])
      else
        (case academic_year_slug_for_term E year semester of
           Inl e \<Rightarrow> (Inl e, [])
         | Inr ay_slug \<Rightarrow>
            (let ay_url = ACADEMIC_BASE @ ascii ''/'' @ ay_slug in
             case fetch_html E ay_url of
               Inl e \<Rightarrow> (Inl e, [ay_url])
             | Inr academic_html \<Rightarrow>
                (case read_term_facts E academic_html year semester of
                   Inl e \<Rightarrow> (Inl e, [ay_url])
                 | Inr facts \<Rightarrow>
                    (case fetch_first E (candidate_dates_deadlines_urls E year semester) of
                       (None, tried) \<Rightarrow> (Inl RuntimeError, ay_url # tried)
                     | (Some (dd_html, dd_url_used), tried) \<Rightarrow>
                         (if dd_html = [] then (Inl RuntimeError, ay_url # tried)
                          else (assemble E ay_url dd_url_used facts dd_html, ay_url # tried)))))))"

subsection \<open>An environment for the examples\<close>

text \<open>
  The examples below run the model on concrete pages. They need some value for the
  collaborators: \<open>ref_env pages\<close> serves the pages of a table (an address that is not in
  the table fails), takes the page as its own text, knows no character beyond ASCII, and
  reads a date with \<open>ref_dateutil\<close>. That stand-in for the date parser reads a complete
  English date \<open>Month D, YYYY\<close> (the month in full or abbreviated, as the library's
  table of month names has it) and fails on every other text. The examples use ASCII
  text and complete dates only, where nothing else is asked of the collaborators.
\<close>

definition month_names :: "(str \<times> int) list" where
  "month_names =
     [(ascii ''jan'', 1), (ascii ''january'', 1), (ascii ''feb'', 2), (ascii ''february'', 2),
      (ascii ''mar'', 3), (ascii ''march'', 3), (ascii ''apr'', 4), (ascii ''april'', 4),
      (ascii ''may'', 5), (ascii ''jun'', 6), (ascii ''june'', 6), (ascii ''jul'', 7),
      (ascii ''july'', 7), (ascii ''aug'', 8), (ascii ''august'', 8), (ascii ''sep'', 9),
      (ascii ''sept'', 9), (ascii ''september'', 9), (ascii ''oct'', 10), (ascii ''october'', 10),
      (ascii ''nov'', 11), (ascii ''november'', 11), (ascii ''dec'', 12), (ascii ''december'', 12)]"

definition month_number :: "str \<Rightarrow> int option" where
  "month_number w = map_of month_names (map ascii_lower w)"

definition ascii_digit :: "nat \<Rightarrow> bool" where
  "ascii_digit c = (48 \<le> c \<and> c \<le> 57)"

definition ascii_int :: "str \<Rightarrow> int" where
  "ascii_int s = int (foldl (\<lambda>a c. 10 * a + (c - 48)) 0 s)"

definition ref_dateutil :: "bool \<Rightarrow> str \<Rightarrow> error + date" where
  "ref_dateutil fuzzy text =
     (case re_fullmatch
             (seqs [Grp (Rep is_az 1 None), Rep is_space 1 None, Grp (Rep ascii_digit 1 (Some 2)),
                    lit (ascii '',''), Rep is_space 0 None, Grp (Rep ascii_digit 4 (Some 4))])
             text of
        None \<Rightarrow> Inl ParserError
      | Some gs \<Rightarrow>
         (case month_number (gs ! 0) of
            None \<Rightarrow> Inl ParserError
          | Some m \<Rightarrow>
             (case mk_date (ascii_int (gs ! 2)) m (ascii_int (gs ! 1)) of
                Inl e \<Rightarrow> Inl ParserError
              | Inr d \<Rightarrow> Inr d)))"

definition ref_env :: "(str \<times> str) list \<Rightarrow> env" where
  "ref_env pages =
     \<lparr>uc_decimal = (\<lambda>c. None), uc_alnum = (\<lambda>c. False), uc_tolower = (\<lambda>c. c),
      uc_str_lower = (\<lambda>s. s), dateutil_parse = ref_dateutil, soup_get_text = (\<lambda>html. html),
      http_get = (\<lambda>url. case map_of pages url of None \<Rightarrow> Inl FetchError | Some page \<Rightarrow> Inr page)\<rparr>"

subsection \<open>The segmentation, stated on the calendar\<close>

text \<open>
  What the loops compute, written without them: the Mondays the outer loop visits, and
  for the week of a Monday \<open>m\<close> the days the inner loop collects, namely the days of
  \<open>m .. m + 4\<close> inside the term that are weekdays and in no blackout range: a day \<open>d\<close>
  is in the range \<open>r\<close> when \<open>start r \<le> d \<le> end r\<close>, and every range of the list counts.
  These definitions are the words of the specification and use nothing of the code but
  the calendar; the lemmas below show that the code computes them.
\<close>

definition week_days :: "date \<Rightarrow> date \<Rightarrow> DateRange list \<Rightarrow> date \<Rightarrow> date list" where
  "week_days first_class last_class blackout_ranges m =
     filter (\<lambda>d. weekday d < 5 \<and> (\<forall>r\<in>set blackout_ranges. \<not> (start r \<le> d \<and> d \<le> end' r)))
       [max m first_class .. min (m + 4) last_class]"

function mondays_from :: "date \<Rightarrow> date \<Rightarrow> date list" where
  "mondays_from cur wk_end_boundary =
     (if cur \<le> wk_end_boundary then cur # mondays_from (cur + 7) wk_end_boundary else [])"
  by pat_completeness auto
termination
  by (relation "measure (\<lambda>(cur, wk_end_boundary). nat (wk_end_boundary + 1 - cur))") auto

declare mondays_from.simps [simp del]

definition week_mondays :: "date \<Rightarrow> date \<Rightarrow> date list" where
  "week_mondays first_class last_class =
     mondays_from (first_class - weekday first_class) (last_class - weekday last_class)"

fun label_weeks :: "int \<Rightarrow> date list list \<Rightarrow> week_event list" where
  "label_weeks n [] = []"
| "label_weeks n (ds # rest) =
     (week_title n (length ds < 5), hd ds, last ds) # label_weeks (n + 1) rest"

definition nonempty_weeks :: "date \<Rightarrow> date \<Rightarrow> DateRange list \<Rightarrow> date list" where
  "nonempty_weeks first_class last_class bl =
     filter (\<lambda>m. week_days first_class last_class bl m \<noteq> []) (week_mondays first_class last_class)"

subsection \<open>The deadline scanner, stated on the lines\<close>

text \<open>
  The states of the scanner as the specification names them, the state in force when
  line \<open>i\<close> is read (the kind of the last header line before it), and the lines that can
  be captured for a section: the lines read in that section that are no header and begin
  with the token \<open>FULL\<close>. \<open>first_candidate\<close> says that a captured line is the first of
  them, and that nothing is captured when there is none. \<open>first_full\<close> computes that
  line; \<open>flags_section\<close> reads the state off the two flags of the loop.
\<close>

datatype scan_state = Neither | InDrop | InWithdraw

definition is_drop_header :: "env \<Rightarrow> str \<Rightarrow> bool" where
  "is_drop_header E l = (re_search (lit_i E (ascii ''Drop Period'')) l \<noteq> None)"

definition is_withdraw_header :: "env \<Rightarrow> str \<Rightarrow> bool" where
  "is_withdraw_header E l = (re_search (lit_i E (ascii ''Withdrawal Period'')) l \<noteq> None)"



definition section_step :: "env \<Rightarrow> scan_state \<Rightarrow> str \<Rightarrow> scan_state" where
  "section_step E st l =
     (if is_drop_header E l then InDrop else if is_withdraw_header E l then InWithdraw else st)"







text \<open>The result of the end-date extractor for what the date parser answers.\<close>

definition some_date :: "error + date \<Rightarrow> error + date option" where
  "some_date x = (case x of Inl e \<Rightarrow> Inl e | Inr d \<Rightarrow> Inr (Some d))"


subsection \<open>Pages for the examples of the range order\<close>

text \<open>A fall term with a holiday and a break inside it, the site that serves it, and
  what \<open>build_term_events\<close> returns for it.\<close>

definition example_fall_page :: str where
  "example_fall_page =
     ascii ''First Day of Classes: August 25, 2025 / Monday'' @ [10]
     @ ascii ''Labor Day: September 1, 2025 / Monday'' @ [10]
     @ ascii ''Fall Break: October 11-14, 2025 / Saturday-Tuesday'' @ [10]
     @ ascii ''Last Day of Classes: November 14, 2025 / Friday''"

definition example_fall_site :: "(str \<times> str) list" where
  "example_fall_site =
     [(ACADEMIC_BASE @ ascii ''/ay2526.php'', example_fall_page),
      (DATES_BASE @ ascii ''/fall25-dates.php'', ascii ''Dates and Deadlines'')]"

definition example_fall_payload :: payload where
  "example_fall_payload =
     \<lparr>p_ay_url = ACADEMIC_BASE @ ascii ''/ay2526.php'',
      p_dd_url = DATES_BASE @ ascii ''/fall25-dates.php'',
      p_first_day = ymd2ord 2025 8 25, p_last_day = ymd2ord 2025 11 14,
      p_study_day = None, p_exams_rng = None,
      p_breaks_in_term = [(ascii ''Fall Break'',
                           \<lparr>start = ymd2ord 2025 10 11, end' = ymd2ord 2025 10 14\<rparr>)],
      p_holidays_in_term = [(ascii ''Labor Day'',
                             \<lparr>start = ymd2ord 2025 9 1, end' = ymd2ord 2025 9 1\<rparr>)],
      p_last_drop_no_grade = None, p_last_withdraw_w = None,
      p_week_events =
        [(ascii ''Week 1'', ymd2ord 2025 8 25, ymd2ord 2025 8 29),
         (ascii ''Week 2 (short)'', ymd2ord 2025 9 2, ymd2ord 2025 9 5),
         (ascii ''Week 3'', ymd2ord 2025 9 8, ymd2ord 2025 9 12),
         (ascii ''Week 4'', ymd2ord 2025 9 15, ymd2ord 2025 9 19),
         (ascii ''Week 5'', ymd2ord 2025 9 22, ymd2ord 2025 9 26),
         (ascii ''Week 6'', ymd2ord 2025 9 29, ymd2ord 2025 10 3),
         (ascii ''Week 7'', ymd2ord 2025 10 6, ymd2ord 2025 10 10),
         (ascii ''Week 8 (short)'', ymd2ord 2025 10 15, ymd2ord 2025 10 17),
         (ascii ''Week 9'', ymd2ord 2025 10 20, ymd2ord 2025 10 24),
         (ascii ''Week 10'', ymd2ord 2025 10 27, ymd2ord 2025 10 31),
         (ascii ''Week 11'', ymd2ord 2025 11 3, ymd2ord 2025 11 7),
         (ascii ''Week 12'', ymd2ord 2025 11 10, ymd2ord 2025 11 14)]\<rparr>"

text \<open>A spring term whose break is written with its days in the wrong order.\<close>

definition example_inverted_page :: str where
  "example_inverted_page =
     ascii ''Spring 2026'' @ [10]
     @ ascii ''First Day of Classes: January 20, 2026 / Tuesday'' @ [10]
     @ ascii ''Spring Break: March 15-9, 2026'' @ [10]
     @ ascii ''Last Day of Classes: April 29, 2026 / Wednesday''"

definition example_inverted_site :: "(str \<times> str) list" where
  "example_inverted_site =
     [(ACADEMIC_BASE @ ascii ''/ay2526.php'', example_inverted_page),
      (DATES_BASE @ ascii ''/spring26-dates.php'', ascii ''Dates and Deadlines'')]"

subsection \<open>Two runs\<close>

text \<open>
  The term model of a run: what \<open>build_term_events\<close> returns without the two addresses
  it records, or the exception it raises.
\<close>

type_synonym term_model =
  "date \<times> date \<times> date option \<times> DateRange option \<times> (str \<times> DateRange) list
   \<times> (str \<times> DateRange) list \<times> date option \<times> date option \<times> week_event list"

definition term_model :: "payload \<Rightarrow> term_model" where
  "term_model p =
     (p_first_day p, p_last_day p, p_study_day p, p_exams_rng p, p_breaks_in_term p,
      p_holidays_in_term p, p_last_drop_no_grade p, p_last_withdraw_w p, p_week_events p)"

definition run_model :: "env \<Rightarrow> int \<Rightarrow> str \<Rightarrow> error + term_model" where
  "run_model E year semester =
     (case fst (build_term_events E year semester) of
        Inl e \<Rightarrow> Inl e
      | Inr p \<Rightarrow> Inr (term_model p))"

text \<open>
  The page texts a run is served: the answer to the request for the academic-year page,
  and the text of the first candidate address of the deadlines page that answers with a
  page. They are stated on the page server alone.
\<close>

fun first_served :: "env \<Rightarrow> str list \<Rightarrow> str option" where
  "first_served E [] = None"
| "first_served E (u # us) =
     (case http_get E u of Inr page \<Rightarrow> Some page | Inl e \<Rightarrow> first_served E us)"

definition pages_read :: "env \<Rightarrow> int \<Rightarrow> str \<Rightarrow> (error + str) \<times> str option" where
  "pages_read E year semester =
     (let sem = lower E semester in
      case academic_year_slug_for_term E year sem of
        Inl e \<Rightarrow> (Inl e, None)
      | Inr ay_slug \<Rightarrow>
          (http_get E (ACADEMIC_BASE @ ascii ''/'' @ ay_slug),
           first_served E (candidate_dates_deadlines_urls E year sem)))"

text \<open>The Unicode tables and the HTML-to-text conversion are the same in two runs.\<close>

definition same_libraries :: "env \<Rightarrow> env \<Rightarrow> bool" where
  "same_libraries E1 E2 =
     (uc_decimal E1 = uc_decimal E2 \<and> uc_alnum E1 = uc_alnum E2 \<and> uc_tolower E1 = uc_tolower E2
      \<and> uc_str_lower E1 = uc_str_lower E2 \<and> soup_get_text E1 = soup_get_text E2)"

text \<open>
  \<open>parse_month_day_year\<close> calls \<^verbatim>\<open>dateparser.parse(text, fuzzy=True)\<close> and passes no
  \<^verbatim>\<open>default\<close>. The library then takes every field that it does not find in the text from
  \<^verbatim>\<open>datetime.now()\<close>, and with \<^verbatim>\<open>fuzzy\<close> it skips the words it does not know. In the text
  \<^verbatim>\<open>Apirl 5, 2026\<close> (which the pattern of \<open>find_bullet_date\<close> accepts) it knows no
  month name: \<^verbatim>\<open>2026\<close> can only be the year, \<^verbatim>\<open>5\<close> is taken for the month, and the day of
  the month is the one of the day of the run (dateutil 2.9.0: \<^verbatim>\<open>2026-05-04\<close> on a 4th,
  \<^verbatim>\<open>2026-05-20\<close> on a 20th). \<open>ref_dateutil_on today_day\<close> is \<open>ref_dateutil\<close> with this
  one further text, read on a day whose day of the month is \<open>today_day\<close>.
\<close>

definition ref_dateutil_on :: "int \<Rightarrow> bool \<Rightarrow> str \<Rightarrow> error + date" where
  "ref_dateutil_on today_day fuzzy text =
     (if fuzzy \<and> text = ascii ''Apirl 5, 2026'' then
        (case mk_date 2026 5 today_day of Inl e \<Rightarrow> Inl ParserError | Inr d \<Rightarrow> Inr d)
      else ref_dateutil fuzzy text)"

definition ref_env_on :: "int \<Rightarrow> (str \<times> str) list \<Rightarrow> env" where
  "ref_env_on today_day pages = (ref_env pages)\<lparr>dateutil_parse := ref_dateutil_on today_day\<rparr>"

text \<open>
  The date texts of a run. The importer hands a text to the date parser in three places:
  \<open>parse_month_day_year\<close> (with \<^verbatim>\<open>fuzzy=True\<close>), \<open>parse_range\<close> and the end-date
  extractor (both on a text \<open>Month D, YYYY\<close> they format, without \<^verbatim>\<open>fuzzy\<close>). Which
  texts these are is decided by the patterns on the page texts, never by an answer of the
  parser. \<open>date_texts\<close> lists them for a run, each with its \<^verbatim>\<open>fuzzy\<close> flag: for each
  label of a single date the text its pattern captured in the term block, for each label
  of a range the texts \<open>parse_range\<close> builds from the captured text, and for each of the
  two captured deadline lines the text the cascade of the end-date extractor selects.
\<close>

type_synonym date_query = "bool \<times> str"

definition range_queries :: "env \<Rightarrow> str list \<Rightarrow> date_query list" where
  "range_queries E gs =
     [(False, format_mdy (gs ! 0) (py_int E (gs ! 1)) (py_int E (gs ! 3))),
      (False, format_mdy (gs ! 0) (py_int E (gs ! 2)) (py_int E (gs ! 3)))]"

definition parse_range_queries :: "env \<Rightarrow> str \<Rightarrow> date_query list" where
  "parse_range_queries E text =
     (let t = normalize_whitespace (replace_endash text) in
      case re_match (range_exact E) t of
        Some gs \<Rightarrow> range_queries E gs
      | None \<Rightarrow>
         (case re_match (range_with_suffix E) t of
            Some gs \<Rightarrow> range_queries E gs
          | None \<Rightarrow> [(True, t)]))"

definition bullet_date_queries :: "env \<Rightarrow> str \<Rightarrow> str \<Rightarrow> date_query list" where
  "bullet_date_queries E term_text label =
     (case re_search (bullet_date_pattern E label) term_text of
        None \<Rightarrow> []
      | Some gs \<Rightarrow> [(True, gs ! 0)])"

definition bullet_range_queries :: "env \<Rightarrow> str \<Rightarrow> str \<Rightarrow> date_query list" where
  "bullet_range_queries E term_text label =
     (case re_search (bullet_range_pattern E label) term_text of
        None \<Rightarrow> []
      | Some gs \<Rightarrow> parse_range_queries E (gs ! 0))"

definition term_queries :: "env \<Rightarrow> str \<Rightarrow> int \<Rightarrow> str \<Rightarrow> date_query list" where
  "term_queries E academic_html year semester =
     (case extract_term_block_text E academic_html year semester of
        Inl e \<Rightarrow> []
      | Inr block \<Rightarrow>
         (let term_text = extract_subsection block (ascii ''Full Part of Term'') in
          concat (map (bullet_date_queries E term_text)
                    [ascii ''First Day of Classes'', ascii ''Last Day of Classes'',
                     ascii ''Study Day'', ascii ''Labor Day'', ascii ''M. L. King, Jr. Holiday''])
          @ concat (map (bullet_range_queries E term_text) (ascii ''Exams'' # break_like_labels))))"

definition end_date_queries :: "env \<Rightarrow> str option \<Rightarrow> date_query list" where
  "end_date_queries E line =
     (case line of
        None \<Rightarrow> []
      | Some l \<Rightarrow>
         (if l = [] then []
          else
            (let rest = full_line_rest E l in
             if re_fullmatch (single_date_pattern E) rest \<noteq> None then [(True, rest)]
             else
               (case re_fullmatch (two_month_pattern E) rest of
                  Some gs \<Rightarrow> [(False, format_mdy (gs ! 2) (py_int E (gs ! 3)) (py_int E (gs ! 4)))]
                | None \<Rightarrow>
                   (case re_fullmatch (one_month_pattern E) rest of
                      Some gs \<Rightarrow>
                        [(False, format_mdy (gs ! 0) (py_int E (gs ! 2)) (py_int E (gs ! 3)))]
                    | None \<Rightarrow>
                       (let candidates = re_findall (single_date_pattern E) rest in
                        if candidates \<noteq> [] then [(True, last candidates)] else []))))))"

definition deadline_queries :: "env \<Rightarrow> str \<Rightarrow> date_query list" where
  "deadline_queries E dates_html =
     (case scan_lines E (deadline_lines E dates_html) False False None None of
        (full_drop_line, full_withdraw_line) \<Rightarrow>
          end_date_queries E full_drop_line @ end_date_queries E full_withdraw_line)"

definition date_texts :: "env \<Rightarrow> int \<Rightarrow> str \<Rightarrow> date_query list" where
  "date_texts E year semester =
     (case pages_read E year semester of
        (Inl e, dd) \<Rightarrow> []
      | (Inr academic_html, dd) \<Rightarrow>
          term_queries E academic_html year (lower E semester)
          @ (case dd of None \<Rightarrow> [] | Some dd_html \<Rightarrow> deadline_queries E dd_html))"

text \<open>An academic-year page with complete dates, one with a misspelt month, and a site
  that serves one of them together with a deadlines page at a given address.\<close>

definition example_term_page :: str where
  "example_term_page =
     ascii ''Spring 2026'' @ [10]
     @ ascii ''First Day of Classes: January 20, 2026 / Tuesday'' @ [10]
     @ ascii ''Last Day of Classes: January 23, 2026 / Friday'' @ [10]
     @ ascii ''Study Day: April 30, 2026''"

definition example_typo_page :: str where
  "example_typo_page =
     ascii ''Spring 2026'' @ [10]
     @ ascii ''First Day of Classes: January 20, 2026 / Tuesday'' @ [10]
     @ ascii ''Last Day of Classes: January 23, 2026 / Friday'' @ [10]
     @ ascii ''Study Day: Apirl 5, 2026''"

definition example_sites :: "str \<Rightarrow> str \<Rightarrow> (str \<times> str) list" where
  "example_sites dd_address page =
     [(ACADEMIC_BASE @ ascii ''/ay2526.php'', page),
      (DATES_BASE @ dd_address, ascii ''Dates and Deadlines'')]"

text \<open>Facts of the form: a function of the model does not look at the page server, or
  at the date parser.\<close>

named_theorems http_indep
named_theorems parser_indep

section \<open>Properties\<close>

subsection \<open>The week segmenter\<close>

lemma daterange_inclusive_upto:
  "MINORDINAL \<le> cur \<Longrightarrow> end_d < MAXORDINAL \<Longrightarrow> daterange_inclusive cur end_d = Inr [cur..end_d]"
proof (induction cur end_d rule: daterange_inclusive.induct)
  case (1 cur end_d)
  show ?case
  proof (cases "cur \<le> end_d")
    case True
    then have add: "date_add cur 1 = Inr (cur + 1)"
      using "1.prems" by (simp add: date_add_def)
    have "daterange_inclusive (cur + 1) end_d = Inr [cur + 1..end_d]"
      using "1.IH"[OF True add] "1.prems" by simp
    then show ?thesis
      using True add by (simp add: daterange_inclusive.simps[of cur] upto_rec1)
  next
    case False
    then show ?thesis by (simp add: daterange_inclusive.simps[of cur])
  qed
qed

lemma is_blackout_iff:
  "is_blackout bl d \<longleftrightarrow> (\<exists>r\<in>set bl. start r \<le> d \<and> d \<le> end' r)"
  by (simp add: is_blackout_def contains_def list_ex_iff)

lemma instructional_days_eq:
  assumes "MINORDINAL \<le> m" "last_class < MAXORDINAL"
  shows "instructional_days bl (clamp \<lparr>start = m, end' = m + 4\<rparr> first_class last_class)
           = Inr (week_days first_class last_class bl m)"
proof -
  have "daterange_inclusive (max m first_class) (min (m + 4) last_class)
          = Inr [max m first_class .. min (m + 4) last_class]"
    using assms by (intro daterange_inclusive_upto) auto
  then show ?thesis
    by (simp add: instructional_days_def clamp_def week_days_def not_le is_blackout_iff)
qed

lemma week_loop_char:
  assumes "MINORDINAL \<le> cur" "wk_end_boundary + 7 \<le> MAXORDINAL" "end' T < MAXORDINAL"
  shows "week_loop T bl wk_end_boundary cur n evs =
           Inr (evs @ label_weeks n (filter (\<lambda>ds. ds \<noteq> [])
                  (map (week_days (start T) (end' T) bl) (mondays_from cur wk_end_boundary))))"
  using assms
proof (induction T bl wk_end_boundary cur n evs rule: week_loop.induct)
  case (1 T bl wk_end_boundary cur n evs)
  show ?case
  proof (cases "cur \<le> wk_end_boundary")
    case False
    then show ?thesis
      by (simp add: week_loop.simps[of _ _ _ cur] mondays_from.simps[of cur])
  next
    case True
    have a4: "date_add cur 4 = Inr (cur + 4)" and a7: "date_add cur 7 = Inr (cur + 7)"
      using True "1.prems" by (simp_all add: date_add_def)
    have days: "instructional_days bl (clamp \<lparr>start = cur, end' = cur + 4\<rparr> (start T) (end' T))
                  = Inr (week_days (start T) (end' T) bl cur)"
      using "1.prems" by (intro instructional_days_eq) auto
    let ?ds = "week_days (start T) (end' T) bl cur"
    have m: "MINORDINAL \<le> cur + 7" using "1.prems" by simp
    show ?thesis
    proof (cases "?ds = []")
      case True
      have "length ?ds = 0" using True by simp
      from "1.IH"(1)[OF \<open>cur \<le> wk_end_boundary\<close> a4 days this a7 m "1.prems"(2,3)]
      show ?thesis
        using \<open>cur \<le> wk_end_boundary\<close> a4 a7 days True
        by (simp add: week_loop.simps[of _ _ _ cur] mondays_from.simps[of cur])
    next
      case False
      have "length ?ds \<noteq> 0" using False by simp
      from "1.IH"(2)[OF \<open>cur \<le> wk_end_boundary\<close> a4 days this a7 m "1.prems"(2,3)]
      show ?thesis
        using \<open>cur \<le> wk_end_boundary\<close> a4 a7 days False
        by (simp add: week_loop.simps[of _ _ _ cur] mondays_from.simps[of cur])
    qed
  qed
qed


lemma mondays_from_set:
  "set (mondays_from cur e) = {m. cur \<le> m \<and> m \<le> e \<and> (m - cur) mod 7 = 0}"
proof (induction cur e rule: mondays_from.induct)
  case (1 cur e)
  show ?case
  proof (cases "cur \<le> e")
    case True
    have "set (mondays_from cur e) = insert cur (set (mondays_from (cur + 7) e))"
      using True by (simp add: mondays_from.simps[of cur])
    also have "\<dots> = insert cur {m. cur + 7 \<le> m \<and> m \<le> e \<and> (m - (cur + 7)) mod 7 = 0}"
      using "1.IH"[OF True] by simp
    also have "\<dots> = {m. cur \<le> m \<and> m \<le> e \<and> (m - cur) mod 7 = 0}"
      using True by (auto; presburger)
    finally show ?thesis .
  next
    case False
    then show ?thesis by (auto simp: mondays_from.simps[of cur])
  qed
qed

lemma mondays_from_sorted:
  "sorted_wrt (\<lambda>a b. a + 7 \<le> b) (mondays_from cur e)"
proof (induction cur e rule: mondays_from.induct)
  case (1 cur e)
  show ?case
  proof (cases "cur \<le> e")
    case True
    then show ?thesis
      using "1.IH"[OF True]
      by (simp add: mondays_from.simps[of cur] mondays_from_set)
  next
    case False
    then show ?thesis by (simp add: mondays_from.simps[of cur])
  qed
qed

lemma week_days_subset:
  "d \<in> set (week_days first_class last_class bl m) \<Longrightarrow>
     m \<le> d \<and> d \<le> m + 4 \<and> first_class \<le> d \<and> d \<le> last_class \<and> weekday d < 5
     \<and> (\<forall>r\<in>set bl. \<not> (start r \<le> d \<and> d \<le> end' r))"
  by (auto simp: week_days_def)

lemma length_label_weeks: "length (label_weeks n xs) = length xs"
  by (induction xs arbitrary: n) auto

lemma nth_label_weeks:
  "i < length xs \<Longrightarrow>
     label_weeks n xs ! i = (week_title (n + int i) (length (xs ! i) < 5), hd (xs ! i), last (xs ! i))"
proof (induction xs arbitrary: n i)
  case Nil
  then show ?case by simp
next
  case (Cons ds rest)
  show ?case
  proof (cases i)
    case 0
    then show ?thesis by simp
  next
    case (Suc j)
    then have "j < length rest" using Cons.prems by simp
    from Cons.IH[OF this, of "n + 1"] show ?thesis
      using Suc by (simp add: add.assoc)
  qed
qed

lemma map_snd_label_weeks:
  "map snd (label_weeks n xs) = map (\<lambda>ds. (hd ds, last ds)) xs"
  by (induction xs arbitrary: n) auto

lemma str_of_nat_last: "str_of_nat n \<noteq> [] \<and> 48 \<le> last (str_of_nat n)"
proof (induction n rule: str_of_nat.induct)
  case (1 n)
  then show ?case by (simp add: str_of_nat.simps[of n])
qed

lemma week_title_plain_last:
  "week_title n False \<noteq> [] \<and> 48 \<le> last (week_title n False)"
  using str_of_nat_last by (simp add: week_title_def str_of_int_def)

lemma week_title_short_iff:
  "suffix (ascii '' (short)'') (week_title n short) \<longleftrightarrow> short"
proof (cases short)
  case True
  then show ?thesis by (simp add: week_title_def suffix_def)
next
  case False
  have "\<not> suffix (ascii '' (short)'') (week_title n False)"
  proof
    assume "suffix (ascii '' (short)'') (week_title n False)"
    then obtain zs where "week_title n False = zs @ ascii '' (short)''"
      by (auto simp: suffix_def)
    then have "last (week_title n False) = 41"
      by (simp add: ascii_def)
    then show False using week_title_plain_last[of n] by simp
  qed
  then show ?thesis using False by simp
qed

text \<open>The number in a title is written in decimal, without a leading zero.\<close>

lemma foldl_digits_snoc:
  "foldl (\<lambda>a c. 10 * a + (c - 48)) (0::nat) (xs @ [d]) = 10 * foldl (\<lambda>a c. 10 * a + (c - 48)) 0 xs + (d - 48)"
  by simp

lemma str_of_nat_decimal:
  "str_of_nat n \<noteq> [] \<and> (0 < n \<longrightarrow> hd (str_of_nat n) \<noteq> 48)
   \<and> (\<forall>c\<in>set (str_of_nat n). 48 \<le> c \<and> c \<le> 57)
   \<and> foldl (\<lambda>a c. 10 * a + (c - 48)) 0 (str_of_nat n) = n"
proof (induction n rule: str_of_nat.induct)
  case (1 n)
  show ?case
  proof (cases "n < 10")
    case True
    then show ?thesis by (simp add: str_of_nat.simps[of n])
  next
    case False
    then have pos: "0 < n div 10" by simp
    from "1.IH"[OF False] pos have ih: "str_of_nat (n div 10) \<noteq> []"
      "hd (str_of_nat (n div 10)) \<noteq> 48"
      "\<forall>c\<in>set (str_of_nat (n div 10)). 48 \<le> c \<and> c \<le> 57"
      "foldl (\<lambda>a c. 10 * a + (c - 48)) 0 (str_of_nat (n div 10)) = n div 10"
      by simp_all
    have s: "str_of_nat n = str_of_nat (n div 10) @ [48 + n mod 10]"
      using False by (simp add: str_of_nat.simps[of n])
    show ?thesis
      unfolding s using ih by (simp add: hd_append)
  qed
qed

lemma week_title_decimal:
  assumes "0 \<le> n"
  shows "\<exists>ds. week_title n short = ascii ''Week '' @ ds @ (if short then ascii '' (short)'' else [])
     \<and> ds \<noteq> [] \<and> (0 < n \<longrightarrow> hd ds \<noteq> 48) \<and> (\<forall>c\<in>set ds. 48 \<le> c \<and> c \<le> 57)
     \<and> int (foldl (\<lambda>a c. 10 * a + (c - 48)) 0 ds) = n"
  using assms str_of_nat_decimal[of "nat n"]
  by (intro exI[of _ "str_of_nat (nat n)"]) (simp add: week_title_def str_of_int_def)

lemma monday_of_week_valid:
  "valid_date d \<Longrightarrow> monday_of_week d = Inr (d - weekday d)"
  unfolding monday_of_week_def date_add_def valid_date_def weekday_def MINORDINAL_def MAXORDINAL_def
  by (simp; presburger)

lemma monday_bounds:
  "valid_date d \<Longrightarrow> MINORDINAL \<le> d - weekday d \<and> d - weekday d \<le> d"
  unfolding valid_date_def weekday_def MINORDINAL_def MAXORDINAL_def by presburger

lemma monday_last_bound:
  "d \<le> 3652054 \<Longrightarrow> d - weekday d + 7 \<le> MAXORDINAL"
  unfolding weekday_def MAXORDINAL_def by presburger

lemma monday_last_overflow:
  "3652054 < d \<Longrightarrow> valid_date d \<Longrightarrow> d - weekday d = 3652055"
  unfolding weekday_def MAXORDINAL_def valid_date_def by presburger

lemma instructional_week_events_char:
  assumes "valid_date first_class" "valid_date last_class" "last_class \<le> 3652054"
  shows "instructional_week_events first_class last_class bl =
           Inr (label_weeks 1 (map (week_days first_class last_class bl)
                  (nonempty_weeks first_class last_class bl)))"
proof -
  have lt: "last_class < MAXORDINAL" using assms(3) by (simp add: MAXORDINAL_def)
  have "week_loop \<lparr>start = first_class, end' = last_class\<rparr> bl (last_class - weekday last_class)
          (first_class - weekday first_class) 1 [] =
        Inr ([] @ label_weeks 1 (filter (\<lambda>ds. ds \<noteq> [])
              (map (week_days first_class last_class bl)
                 (mondays_from (first_class - weekday first_class) (last_class - weekday last_class)))))"
    using week_loop_char[of "first_class - weekday first_class" "last_class - weekday last_class"
             "\<lparr>start = first_class, end' = last_class\<rparr>" bl 1 "[]"]
          monday_bounds[OF assms(1)] monday_last_bound[OF assms(3)] lt
    by simp
  then show ?thesis
    by (simp add: instructional_week_events_def monday_of_week_valid assms nonempty_weeks_def
                  week_mondays_def filter_map comp_def)
qed


lemma daterange_inclusive_error:
  "daterange_inclusive cur end_d = Inl e \<Longrightarrow> e = OverflowError"
proof (induction cur end_d rule: daterange_inclusive.induct)
  case (1 cur end_d)
  from "1.prems" show ?case
    by (subst (asm) daterange_inclusive.simps)
       (auto simp: date_add_def split: if_splits sum.splits dest: "1.IH")
qed

lemma instructional_days_error:
  "instructional_days bl r = Inl e \<Longrightarrow> e = OverflowError"
  by (auto simp: instructional_days_def split: sum.splits dest: daterange_inclusive_error)

lemma week_loop_overflow:
  assumes "MAXORDINAL < wk_end_boundary + 7" "cur \<le> wk_end_boundary"
    "(wk_end_boundary - cur) mod 7 = 0"
  shows "week_loop T bl wk_end_boundary cur n evs = Inl OverflowError"
  using assms
proof (induction T bl wk_end_boundary cur n evs rule: week_loop.induct)
  case (1 T bl wk_end_boundary cur n evs)
  have le: "cur \<le> wk_end_boundary" by fact
  show ?case
  proof (cases "date_add cur 4")
    case (Inl e)
    then have "e = OverflowError" by (auto simp: date_add_def split: if_splits)
    then show ?thesis using le Inl by (simp add: week_loop.simps[of _ _ _ cur])
  next
    case a4: (Inr fri)
    show ?thesis
    proof (cases "instructional_days bl
                    (clamp \<lparr>start = cur, end' = fri\<rparr> (start T) (end' T))")
      case (Inl e)
      then have "e = OverflowError" by (rule instructional_days_error)
      then show ?thesis using le a4 Inl by (simp add: week_loop.simps[of _ _ _ cur])
    next
      case days: (Inr ds)
      show ?thesis
      proof (cases "date_add cur 7")
        case (Inl e)
        then have "e = OverflowError" by (auto simp: date_add_def split: if_splits)
        then show ?thesis using le a4 days Inl by (simp add: week_loop.simps[of _ _ _ cur])
      next
        case a7: (Inr nxt)
        then have nxt: "nxt = cur + 7" and "cur + 7 \<le> MAXORDINAL"
          by (auto simp: date_add_def split: if_splits)
        then have "cur \<noteq> wk_end_boundary" using "1.prems"(1) by auto
        then have le': "nxt \<le> wk_end_boundary" and al: "(wk_end_boundary - nxt) mod 7 = 0"
          using le "1.prems"(3) nxt by presburger+
        show ?thesis
        proof (cases "length ds = 0")
          case True
          from "1.IH"(1)[OF le a4 days True a7 "1.prems"(1) le' al]
          show ?thesis using le a4 days a7 True by (simp add: week_loop.simps[of _ _ _ cur])
        next
          case False
          from "1.IH"(2)[OF le a4 days False a7 "1.prems"(1) le' al]
          show ?thesis using le a4 days a7 False by (simp add: week_loop.simps[of _ _ _ cur])
        qed
      qed
    qed
  qed
qed

lemma instructional_week_events_overflow:
  assumes "valid_date first_class" "valid_date last_class" "3652054 < last_class"
  shows "instructional_week_events first_class last_class bl = Inl OverflowError"
proof -
  have e: "last_class - weekday last_class = 3652055"
    using assms by (intro monday_last_overflow)
  have "first_class - weekday first_class \<le> 3652055 \<and>
        (3652055 - (first_class - weekday first_class)) mod 7 = 0"
    using assms(1) unfolding valid_date_def weekday_def MINORDINAL_def MAXORDINAL_def
    by presburger
  then have "week_loop \<lparr>start = first_class, end' = last_class\<rparr> bl 3652055
          (first_class - weekday first_class) 1 [] = Inl OverflowError"
    by (intro week_loop_overflow) (simp_all add: MAXORDINAL_def)
  then show ?thesis
    by (simp add: instructional_week_events_def monday_of_week_valid assms e)
qed

lemma nonempty_weeks_sorted:
  "sorted_wrt (\<lambda>a b. a + 7 \<le> b) (nonempty_weeks first_class last_class bl)"
  unfolding nonempty_weeks_def week_mondays_def
  by (intro sorted_wrt_filter mondays_from_sorted)

lemma week_days_hd_last:
  assumes "week_days f l bl m \<noteq> []"
  shows "hd (week_days f l bl m) \<in> set (week_days f l bl m)"
    and "last (week_days f l bl m) \<in> set (week_days f l bl m)"
  using assms by simp_all

lemma events_chronological:
  "sorted_wrt (\<lambda>e1 e2. snd (snd e1) < fst (snd e2))
     (label_weeks n (map (week_days f l bl) (nonempty_weeks f l bl)))"
proof -
  have "sorted_wrt (\<lambda>a b. last (week_days f l bl a) < hd (week_days f l bl b))
          (nonempty_weeks f l bl)"
  proof (rule sorted_wrt_mono_rel[OF _ nonempty_weeks_sorted])
    fix a b
    assume a: "a \<in> set (nonempty_weeks f l bl)" and b: "b \<in> set (nonempty_weeks f l bl)"
      and ab: "a + 7 \<le> b"
    have "last (week_days f l bl a) \<le> a + 4"
      using a week_days_subset[OF week_days_hd_last(2)] by (simp add: nonempty_weeks_def)
    moreover have "b \<le> hd (week_days f l bl b)"
      using b week_days_subset[OF week_days_hd_last(1)] by (simp add: nonempty_weeks_def)
    ultimately show "last (week_days f l bl a) < hd (week_days f l bl b)"
      using ab by simp
  qed
  then have "sorted_wrt (\<lambda>p q. snd p < fst q)
               (map snd (label_weeks n (map (week_days f l bl) (nonempty_weeks f l bl))))"
    by (simp add: map_snd_label_weeks sorted_wrt_map comp_def)
  then show ?thesis by (simp add: sorted_wrt_map)
qed

lemma label_weeks_set:
  "e \<in> set (label_weeks n xs) \<Longrightarrow>
     \<exists>ds\<in>set xs. \<exists>k. e = (week_title k (length ds < 5), hd ds, last ds)"
  by (induction xs arbitrary: n) auto

lemma week_days_short:
  assumes "m < f \<or> l < m + 4 \<or> (\<exists>d\<in>{m..m + 4}. \<exists>r\<in>set bl. start r \<le> d \<and> d \<le> end' r)"
  shows "length (week_days f l bl m) < 5"
proof (cases "m < f \<or> l < m + 4")
  case True
  have "length (week_days f l bl m) \<le> length [max m f .. min (m + 4) l]"
    unfolding week_days_def by (rule length_filter_le)
  also have "\<dots> < 5" using True by auto
  finally show ?thesis .
next
  case False
  then obtain d where d: "m \<le> d" "d \<le> m + 4" "\<exists>r\<in>set bl. start r \<le> d \<and> d \<le> end' r"
    using assms by fastforce
  then have "d \<in> set [max m f .. min (m + 4) l]" using False by auto
  then have "length (week_days f l bl m) < length [max m f .. min (m + 4) l]"
    unfolding week_days_def using d(3) by (intro length_filter_less) auto
  also have "\<dots> \<le> 5" by auto
  finally show ?thesis .
qed

text \<open>
  Claim C1. For every call of the segmenter on two dates (the proof does not need
  \<open>first_class \<le> last_class\<close>): the call raises \<open>OverflowError\<close> exactly when the term
  ends after 9999-12-26 (ordinal 3652054), because the loop then steps past the last
  date; in every other case it returns a list \<open>evs\<close> in which
  \<^item> there is one event for each visited week with at least one collected day, and none
    for the others: a visited Monday \<open>m\<close> whose week collects no day (every day of
    \<open>m .. m + 4\<close> is outside the term or inside one of the blackout ranges, whichever
    range of the list it is) has no event that starts in \<open>m .. m + 6\<close>;
  \<^item> the event at position \<open>i\<close> (from 0) is the event of the \<open>i\<close>-th week that collects a
    day, and its title is \<open>Week\<close>, a space, and the number \<open>i + 1\<close> written in decimal
    digits without a leading zero, followed by \<open>(short)\<close> for a short week and by nothing
    otherwise: the numbers are 1, 2, ..., n without gap or repetition;
  \<^item> the events are in chronological order: each ends before the next one starts.
\<close>

theorem week_numbering:
  assumes "valid_date first_class" "valid_date last_class"
  shows "(instructional_week_events first_class last_class bl = Inl OverflowError
            \<and> 3652054 < last_class)
       \<or> (\<exists>evs. instructional_week_events first_class last_class bl = Inr evs
            \<and> last_class \<le> 3652054
            \<and> length evs = length (nonempty_weeks first_class last_class bl)
            \<and> (\<forall>m\<in>set (week_mondays first_class last_class).
                  week_days first_class last_class bl m = [] \<longrightarrow>
                  (\<forall>e\<in>set evs. \<not> (m \<le> fst (snd e) \<and> fst (snd e) \<le> m + 6)))
            \<and> (\<forall>i<length evs.
                  fst (snd (evs ! i))
                    = hd (week_days first_class last_class bl
                            (nonempty_weeks first_class last_class bl ! i))
                \<and> (\<exists>ds. fst (evs ! i)
                         = ascii ''Week '' @ ds
                           @ (if length (week_days first_class last_class bl
                                    (nonempty_weeks first_class last_class bl ! i)) < 5
                              then ascii '' (short)'' else [])
                       \<and> ds \<noteq> [] \<and> hd ds \<noteq> 48 \<and> (\<forall>c\<in>set ds. 48 \<le> c \<and> c \<le> 57)
                       \<and> foldl (\<lambda>a c. 10 * a + (c - 48)) 0 ds = i + 1))
            \<and> sorted_wrt (\<lambda>e1 e2. snd (snd e1) < fst (snd e2)) evs)"
proof (cases "3652054 < last_class")
  case True
  then show ?thesis
    using instructional_week_events_overflow[OF assms True] by simp
next
  case False
  let ?ws = "nonempty_weeks first_class last_class bl"
  let ?wd = "week_days first_class last_class bl"
  let ?evs = "label_weeks 1 (map ?wd ?ws)"
  have le: "last_class \<le> 3652054" using False by simp
  have res: "instructional_week_events first_class last_class bl = Inr ?evs"
    using assms le by (rule instructional_week_events_char)
  have len: "length ?evs = length ?ws"
    by (simp add: length_label_weeks)
  have skip: "\<forall>m\<in>set (week_mondays first_class last_class).
                ?wd m = [] \<longrightarrow> (\<forall>e\<in>set ?evs. \<not> (m \<le> fst (snd e) \<and> fst (snd e) \<le> m + 6))"
  proof (intro ballI impI notI)
    fix m e
    assume m: "m \<in> set (week_mondays first_class last_class)" and empty: "?wd m = []"
      and e: "e \<in> set ?evs" and inwk: "m \<le> fst (snd e) \<and> fst (snd e) \<le> m + 6"
    from label_weeks_set[OF e] obtain m' k where
      m': "m' \<in> set ?ws" and e_eq: "e = (week_title k (length (?wd m') < 5), hd (?wd m'), last (?wd m'))"
      by auto
    have ne: "?wd m' \<noteq> []" and m'mon: "m' \<in> set (week_mondays first_class last_class)"
      using m' by (simp_all add: nonempty_weeks_def)
    have "m' \<le> hd (?wd m') \<and> hd (?wd m') \<le> m' + 4"
      using week_days_subset[OF week_days_hd_last(1)[OF ne]] by simp
    then have "m' \<le> fst (snd e) \<and> fst (snd e) \<le> m' + 4" by (simp add: e_eq)
    moreover have "(m - m') mod 7 = 0"
      using m m'mon unfolding week_mondays_def mondays_from_set by (simp; presburger)
    ultimately have "m = m'" using inwk by presburger
    then show False using empty ne by simp
  qed
  have lab: "\<forall>i<length ?evs.
       fst (snd (?evs ! i)) = hd (?wd (?ws ! i))
     \<and> (\<exists>ds. fst (?evs ! i)
              = ascii ''Week '' @ ds @ (if length (?wd (?ws ! i)) < 5 then ascii '' (short)'' else [])
            \<and> ds \<noteq> [] \<and> hd ds \<noteq> 48 \<and> (\<forall>c\<in>set ds. 48 \<le> c \<and> c \<le> 57)
            \<and> foldl (\<lambda>a c. 10 * a + (c - 48)) 0 ds = i + 1)"
  proof (intro allI impI)
    fix i assume i: "i < length ?evs"
    then have i': "i < length (map ?wd ?ws)" by (simp add: length_label_weeks)
    have nth: "?evs ! i = (week_title (1 + int i) (length (?wd (?ws ! i)) < 5),
                           hd (?wd (?ws ! i)), last (?wd (?ws ! i)))"
      using nth_label_weeks[OF i', of 1] i' by simp
    from week_title_decimal[of "1 + int i" "length (?wd (?ws ! i)) < 5"]
    obtain ds where ds: "week_title (1 + int i) (length (?wd (?ws ! i)) < 5)
          = ascii ''Week '' @ ds @ (if length (?wd (?ws ! i)) < 5 then ascii '' (short)'' else [])"
        "ds \<noteq> []" "hd ds \<noteq> 48" "\<forall>c\<in>set ds. 48 \<le> c \<and> c \<le> 57"
        "int (foldl (\<lambda>a c. 10 * a + (c - 48)) 0 ds) = 1 + int i"
      by auto
    from ds(5) have "foldl (\<lambda>a c. 10 * a + (c - 48)) 0 ds = i + 1" by linarith
    then show "fst (snd (?evs ! i)) = hd (?wd (?ws ! i))
     \<and> (\<exists>ds. fst (?evs ! i)
              = ascii ''Week '' @ ds @ (if length (?wd (?ws ! i)) < 5 then ascii '' (short)'' else [])
            \<and> ds \<noteq> [] \<and> hd ds \<noteq> 48 \<and> (\<forall>c\<in>set ds. 48 \<le> c \<and> c \<le> 57)
            \<and> foldl (\<lambda>a c. 10 * a + (c - 48)) 0 ds = i + 1)"
      using ds(1-4) unfolding nth by (intro conjI exI[of _ ds]) simp_all
  qed
  have chron: "sorted_wrt (\<lambda>e1 e2. snd (snd e1) < fst (snd e2)) ?evs"
    by (rule events_chronological)
  show ?thesis
    using res le len skip lab chron by blast
qed

text \<open>
  The term 2025-08-25 (a Monday) to 2025-11-14 with two blackout ranges, a single day
  (2025-09-01) and, second in the list, 2025-10-11 to 2025-10-19: twelve Mondays are
  visited, the week of 2025-10-13 collects nothing, and the eleven events are numbered 1
  to 11.
\<close>

theorem week_numbering_witness:
  "valid_date (ymd2ord 2025 8 25) \<and> valid_date (ymd2ord 2025 11 14)
   \<and> instructional_week_events (ymd2ord 2025 8 25) (ymd2ord 2025 11 14)
        [\<lparr>start = ymd2ord 2025 9 1, end' = ymd2ord 2025 9 1\<rparr>,
         \<lparr>start = ymd2ord 2025 10 11, end' = ymd2ord 2025 10 19\<rparr>]
       = Inr [(ascii ''Week 1'', ymd2ord 2025 8 25, ymd2ord 2025 8 29),
              (ascii ''Week 2 (short)'', ymd2ord 2025 9 2, ymd2ord 2025 9 5),
              (ascii ''Week 3'', ymd2ord 2025 9 8, ymd2ord 2025 9 12),
              (ascii ''Week 4'', ymd2ord 2025 9 15, ymd2ord 2025 9 19),
              (ascii ''Week 5'', ymd2ord 2025 9 22, ymd2ord 2025 9 26),
              (ascii ''Week 6'', ymd2ord 2025 9 29, ymd2ord 2025 10 3),
              (ascii ''Week 7'', ymd2ord 2025 10 6, ymd2ord 2025 10 10),
              (ascii ''Week 8'', ymd2ord 2025 10 20, ymd2ord 2025 10 24),
              (ascii ''Week 9'', ymd2ord 2025 10 27, ymd2ord 2025 10 31),
              (ascii ''Week 10'', ymd2ord 2025 11 3, ymd2ord 2025 11 7),
              (ascii ''Week 11'', ymd2ord 2025 11 10, ymd2ord 2025 11 14)]
   \<and> week_mondays (ymd2ord 2025 8 25) (ymd2ord 2025 11 14)
       = [ymd2ord 2025 8 25, ymd2ord 2025 9 1, ymd2ord 2025 9 8, ymd2ord 2025 9 15,
          ymd2ord 2025 9 22, ymd2ord 2025 9 29, ymd2ord 2025 10 6, ymd2ord 2025 10 13,
          ymd2ord 2025 10 20, ymd2ord 2025 10 27, ymd2ord 2025 11 3, ymd2ord 2025 11 10]
   \<and> week_days (ymd2ord 2025 8 25) (ymd2ord 2025 11 14)
        [\<lparr>start = ymd2ord 2025 9 1, end' = ymd2ord 2025 9 1\<rparr>,
         \<lparr>start = ymd2ord 2025 10 11, end' = ymd2ord 2025 10 19\<rparr>] (ymd2ord 2025 10 13) = []
   \<and> nonempty_weeks (ymd2ord 2025 8 25) (ymd2ord 2025 11 14)
        [\<lparr>start = ymd2ord 2025 9 1, end' = ymd2ord 2025 9 1\<rparr>,
         \<lparr>start = ymd2ord 2025 10 11, end' = ymd2ord 2025 10 19\<rparr>]
       = [ymd2ord 2025 8 25, ymd2ord 2025 9 1, ymd2ord 2025 9 8, ymd2ord 2025 9 15,
          ymd2ord 2025 9 22, ymd2ord 2025 9 29, ymd2ord 2025 10 6, ymd2ord 2025 10 20,
          ymd2ord 2025 10 27, ymd2ord 2025 11 3, ymd2ord 2025 11 10]
   \<and> foldl (\<lambda>a c. 10 * a + (c - 48)) 0 (ascii ''11'') = (11::nat)"
proof -
  let ?bl = "[\<lparr>start = ymd2ord 2025 9 1, end' = ymd2ord 2025 9 1\<rparr>,
              \<lparr>start = ymd2ord 2025 10 11, end' = ymd2ord 2025 10 19\<rparr>]"
  have v: "valid_date (ymd2ord 2025 8 25)" "valid_date (ymd2ord 2025 11 14)"
    by code_simp+
  have ev: "instructional_week_events (ymd2ord 2025 8 25) (ymd2ord 2025 11 14) ?bl
       = Inr [(ascii ''Week 1'', ymd2ord 2025 8 25, ymd2ord 2025 8 29),
              (ascii ''Week 2 (short)'', ymd2ord 2025 9 2, ymd2ord 2025 9 5),
              (ascii ''Week 3'', ymd2ord 2025 9 8, ymd2ord 2025 9 12),
              (ascii ''Week 4'', ymd2ord 2025 9 15, ymd2ord 2025 9 19),
              (ascii ''Week 5'', ymd2ord 2025 9 22, ymd2ord 2025 9 26),
              (ascii ''Week 6'', ymd2ord 2025 9 29, ymd2ord 2025 10 3),
              (ascii ''Week 7'', ymd2ord 2025 10 6, ymd2ord 2025 10 10),
              (ascii ''Week 8'', ymd2ord 2025 10 20, ymd2ord 2025 10 24),
              (ascii ''Week 9'', ymd2ord 2025 10 27, ymd2ord 2025 10 31),
              (ascii ''Week 10'', ymd2ord 2025 11 3, ymd2ord 2025 11 7),
              (ascii ''Week 11'', ymd2ord 2025 11 10, ymd2ord 2025 11 14)]"
    by code_simp
  have mon: "week_mondays (ymd2ord 2025 8 25) (ymd2ord 2025 11 14)
       = [ymd2ord 2025 8 25, ymd2ord 2025 9 1, ymd2ord 2025 9 8, ymd2ord 2025 9 15,
          ymd2ord 2025 9 22, ymd2ord 2025 9 29, ymd2ord 2025 10 6, ymd2ord 2025 10 13,
          ymd2ord 2025 10 20, ymd2ord 2025 10 27, ymd2ord 2025 11 3, ymd2ord 2025 11 10]"
    by code_simp
  have wd: "week_days (ymd2ord 2025 8 25) (ymd2ord 2025 11 14) ?bl (ymd2ord 2025 10 13) = []"
    by code_simp
  have ne: "nonempty_weeks (ymd2ord 2025 8 25) (ymd2ord 2025 11 14) ?bl
       = [ymd2ord 2025 8 25, ymd2ord 2025 9 1, ymd2ord 2025 9 8, ymd2ord 2025 9 15,
          ymd2ord 2025 9 22, ymd2ord 2025 9 29, ymd2ord 2025 10 6, ymd2ord 2025 10 20,
          ymd2ord 2025 10 27, ymd2ord 2025 11 3, ymd2ord 2025 11 10]"
    by code_simp
  have dg: "foldl (\<lambda>a c. 10 * a + (c - 48)) 0 (ascii ''11'') = (11::nat)"
    by (simp add: ascii_def)
  from week_numbering[OF v, of ?bl]
  show ?thesis using v ev mon wd ne dg by simp
qed

text \<open>
  Claim C6. For every emitted event \<open>e = (title, start, end)\<close> there is a visited
  Monday \<open>m\<close> whose week collects at least one day, such that \<open>start\<close> and \<open>end\<close> are
  the first and the last collected day of that week; the title ends in \<open>" (short)"\<close>
  exactly when fewer than five days were collected; a week clipped by the term (it
  starts before the first or ends after the last day of classes) or with a day of its
  Monday to Friday inside a blackout range, whichever range of the list it is, is
  therefore titled short; and both ends of the event are instructional days: weekdays of
  that week, inside the term, inside none of the blackout ranges.
  (Events are emitted only when the call returns, which the first disjunct delimits.)
\<close>

theorem week_event_extent:
  assumes "valid_date first_class" "valid_date last_class"
  shows "(instructional_week_events first_class last_class bl = Inl OverflowError
            \<and> 3652054 < last_class)
       \<or> (\<exists>evs. instructional_week_events first_class last_class bl = Inr evs
            \<and> (\<forall>e\<in>set evs. \<exists>m\<in>set (week_mondays first_class last_class).
                  week_days first_class last_class bl m \<noteq> []
                \<and> fst (snd e) = hd (week_days first_class last_class bl m)
                \<and> snd (snd e) = last (week_days first_class last_class bl m)
                \<and> (suffix (ascii '' (short)'') (fst e)
                      \<longleftrightarrow> length (week_days first_class last_class bl m) < 5)
                \<and> (m < first_class \<or> last_class < m + 4 \<or> (\<exists>d\<in>{m..m + 4}. \<exists>r\<in>set bl. start r \<le> d \<and> d \<le> end' r)
                      \<longrightarrow> suffix (ascii '' (short)'') (fst e))
                \<and> (\<forall>d\<in>{fst (snd e), snd (snd e)}.
                      first_class \<le> d \<and> d \<le> last_class \<and> m \<le> d \<and> d \<le> m + 4
                    \<and> weekday d < 5 \<and> (\<forall>r\<in>set bl. \<not> (start r \<le> d \<and> d \<le> end' r)))))"
proof (cases "3652054 < last_class")
  case True
  then show ?thesis
    using instructional_week_events_overflow[OF assms True] by simp
next
  case False
  let ?ws = "nonempty_weeks first_class last_class bl"
  let ?wd = "week_days first_class last_class bl"
  let ?evs = "label_weeks 1 (map ?wd ?ws)"
  have res: "instructional_week_events first_class last_class bl = Inr ?evs"
    using assms False by (intro instructional_week_events_char) simp_all
  have "\<exists>m\<in>set (week_mondays first_class last_class).
          ?wd m \<noteq> [] \<and> fst (snd e) = hd (?wd m) \<and> snd (snd e) = last (?wd m)
        \<and> (suffix (ascii '' (short)'') (fst e) \<longleftrightarrow> length (?wd m) < 5)
        \<and> (m < first_class \<or> last_class < m + 4 \<or> (\<exists>d\<in>{m..m + 4}. \<exists>r\<in>set bl. start r \<le> d \<and> d \<le> end' r)
              \<longrightarrow> suffix (ascii '' (short)'') (fst e))
        \<and> (\<forall>d\<in>{fst (snd e), snd (snd e)}.
              first_class \<le> d \<and> d \<le> last_class \<and> m \<le> d \<and> d \<le> m + 4
            \<and> weekday d < 5 \<and> (\<forall>r\<in>set bl. \<not> (start r \<le> d \<and> d \<le> end' r)))"
    if e: "e \<in> set ?evs" for e
  proof -
    from label_weeks_set[OF e] obtain m k where
      m: "m \<in> set ?ws" and e_eq: "e = (week_title k (length (?wd m) < 5), hd (?wd m), last (?wd m))"
      by auto
    have ne: "?wd m \<noteq> []" and mon: "m \<in> set (week_mondays first_class last_class)"
      using m by (simp_all add: nonempty_weeks_def)
    have sfx: "suffix (ascii '' (short)'') (fst e) \<longleftrightarrow> length (?wd m) < 5"
      by (simp add: e_eq week_title_short_iff)
    have clip: "m < first_class \<or> last_class < m + 4 \<or> (\<exists>d\<in>{m..m + 4}. \<exists>r\<in>set bl. start r \<le> d \<and> d \<le> end' r)
                  \<longrightarrow> suffix (ascii '' (short)'') (fst e)"
      using week_days_short[of m first_class last_class bl] sfx by blast
    have days: "\<forall>d\<in>{fst (snd e), snd (snd e)}.
              first_class \<le> d \<and> d \<le> last_class \<and> m \<le> d \<and> d \<le> m + 4
            \<and> weekday d < 5 \<and> (\<forall>r\<in>set bl. \<not> (start r \<le> d \<and> d \<le> end' r))"
      using week_days_subset[OF week_days_hd_last(1)[OF ne]]
            week_days_subset[OF week_days_hd_last(2)[OF ne]]
      by (simp add: e_eq)
    show ?thesis
      using mon ne sfx clip days by (intro bexI[of _ m]) (simp_all add: e_eq)
  qed
  then show ?thesis using res by blast
qed

text \<open>
  The term 2025-08-26 (a Tuesday) to 2025-09-19 with two blackout ranges, 2025-09-01 and,
  second in the list, 2025-09-10 to 2025-09-11: the first week is clipped, the second
  loses its Monday, the third loses two days in the middle, the fourth is full.
\<close>

theorem week_event_extent_witness:
  "valid_date (ymd2ord 2025 8 26) \<and> valid_date (ymd2ord 2025 9 19)
   \<and> instructional_week_events (ymd2ord 2025 8 26) (ymd2ord 2025 9 19)
        [\<lparr>start = ymd2ord 2025 9 1, end' = ymd2ord 2025 9 1\<rparr>,
         \<lparr>start = ymd2ord 2025 9 10, end' = ymd2ord 2025 9 11\<rparr>]
       = Inr [(ascii ''Week 1 (short)'', ymd2ord 2025 8 26, ymd2ord 2025 8 29),
              (ascii ''Week 2 (short)'', ymd2ord 2025 9 2, ymd2ord 2025 9 5),
              (ascii ''Week 3 (short)'', ymd2ord 2025 9 8, ymd2ord 2025 9 12),
              (ascii ''Week 4'', ymd2ord 2025 9 15, ymd2ord 2025 9 19)]
   \<and> week_days (ymd2ord 2025 8 26) (ymd2ord 2025 9 19)
        [\<lparr>start = ymd2ord 2025 9 1, end' = ymd2ord 2025 9 1\<rparr>,
         \<lparr>start = ymd2ord 2025 9 10, end' = ymd2ord 2025 9 11\<rparr>] (ymd2ord 2025 9 8)
       = [ymd2ord 2025 9 8, ymd2ord 2025 9 9, ymd2ord 2025 9 12]
   \<and> ymd2ord 2025 9 10 \<in> {ymd2ord 2025 9 8 .. ymd2ord 2025 9 8 + 4}"
proof -
  let ?bl = "[\<lparr>start = ymd2ord 2025 9 1, end' = ymd2ord 2025 9 1\<rparr>,
              \<lparr>start = ymd2ord 2025 9 10, end' = ymd2ord 2025 9 11\<rparr>]"
  have v: "valid_date (ymd2ord 2025 8 26)" "valid_date (ymd2ord 2025 9 19)"
    by code_simp+
  have ev: "instructional_week_events (ymd2ord 2025 8 26) (ymd2ord 2025 9 19) ?bl
       = Inr [(ascii ''Week 1 (short)'', ymd2ord 2025 8 26, ymd2ord 2025 8 29),
              (ascii ''Week 2 (short)'', ymd2ord 2025 9 2, ymd2ord 2025 9 5),
              (ascii ''Week 3 (short)'', ymd2ord 2025 9 8, ymd2ord 2025 9 12),
              (ascii ''Week 4'', ymd2ord 2025 9 15, ymd2ord 2025 9 19)]"
    by code_simp
  have wd: "week_days (ymd2ord 2025 8 26) (ymd2ord 2025 9 19) ?bl (ymd2ord 2025 9 8)
       = [ymd2ord 2025 9 8, ymd2ord 2025 9 9, ymd2ord 2025 9 12]"
    by code_simp
  have d: "ymd2ord 2025 9 10 \<in> {ymd2ord 2025 9 8 .. ymd2ord 2025 9 8 + 4}"
    by (simp add: ymd2ord_def)
  from week_event_extent[OF v, of ?bl]
  show ?thesis using v ev wd d by simp
qed

subsection \<open>Evaluation of the examples\<close>

text \<open>The definitions the simplifier unfolds to run the model on a concrete text.\<close>

lemmas rx_defs = re_match_def re_fullmatch_def re_search_def re_sub_def re_findall_def seqs_def
  lit_def lit_i_def ci_char_def is_az_def is_space_def is_digit_def is_word_def not_newline_def
  to_lower_def ascii_lower_def ascii_def
lemmas ref_defs = ref_env_def ref_dateutil_def month_number_def month_names_def ascii_digit_def
  ascii_int_def mk_date_def valid_ymd_def days_in_month_def is_leap_def

subsection \<open>The semester argument\<close>

lemma lower_fall: "lower E (ascii ''fall'') = ascii ''fall''"
  by (simp add: lower_def to_lower_def ascii_lower_def ascii_def)

lemma lower_spring: "lower E (ascii ''spring'') = ascii ''spring''"
  by (simp add: lower_def to_lower_def ascii_lower_def ascii_def)

lemma fetch_log_nonempty:
  assumes "lower E semester = ascii ''fall'' \<or> lower E semester = ascii ''spring''"
  shows "snd (build_term_events E year semester) \<noteq> []"
  using assms
  by (auto simp: build_term_events_def academic_year_slug_for_term_def Let_def lower_fall lower_spring
           split: sum.splits prod.splits option.splits)

text \<open>
  Claim C10. For every year and semester text: when the lower-cased semester is neither
  \<open>fall\<close> nor \<open>spring\<close>, \<open>build_term_events\<close> raises \<open>ValueError\<close> and has requested
  no page (its list of requested addresses is empty), and \<open>academic_year_slug_for_term\<close>
  raises \<open>ValueError\<close> too. When the lower-cased semester is one of the two, the slug is
  computed and \<open>build_term_events\<close> goes on to request a page. \<open>Fall\<close>, \<open>Spring\<close> and
  \<open>SPRING\<close> are lower-cased to the accepted names.
\<close>

theorem semester_validated:
  "(lower E semester \<noteq> ascii ''fall'' \<and> lower E semester \<noteq> ascii ''spring'' \<longrightarrow>
      build_term_events E year semester = (Inl ValueError, [])
      \<and> academic_year_slug_for_term E year semester = Inl ValueError)
   \<and> (lower E semester = ascii ''fall'' \<or> lower E semester = ascii ''spring'' \<longrightarrow>
      (\<exists>slug. academic_year_slug_for_term E year semester = Inr slug)
      \<and> snd (build_term_events E year semester) \<noteq> [])
   \<and> lower E (ascii ''Fall'') = ascii ''fall''
   \<and> lower E (ascii ''Spring'') = ascii ''spring''
   \<and> lower E (ascii ''SPRING'') = ascii ''spring''"
proof (intro conjI impI)
  assume "lower E semester \<noteq> ascii ''fall'' \<and> lower E semester \<noteq> ascii ''spring''"
  then show "build_term_events E year semester = (Inl ValueError, [])"
    and "academic_year_slug_for_term E year semester = Inl ValueError"
    by (simp_all add: build_term_events_def academic_year_slug_for_term_def Let_def)
next
  assume a: "lower E semester = ascii ''fall'' \<or> lower E semester = ascii ''spring''"
  then show "\<exists>slug. academic_year_slug_for_term E year semester = Inr slug"
    by (auto simp: academic_year_slug_for_term_def Let_def)
  from a show "snd (build_term_events E year semester) \<noteq> []"
    by (rule fetch_log_nonempty)
next
  show "lower E (ascii ''Fall'') = ascii ''fall''"
    by (simp add: lower_def to_lower_def ascii_lower_def ascii_def)
  show "lower E (ascii ''Spring'') = ascii ''spring''"
    by (simp add: lower_def to_lower_def ascii_lower_def ascii_def)
  show "lower E (ascii ''SPRING'') = ascii ''spring''"
    by (simp add: lower_def to_lower_def ascii_lower_def ascii_def)
qed

text \<open>\<open>summer\<close> is refused before any request; \<open>Spring\<close> 2026 is accepted and the page
  \<open>ay2526.php\<close> is requested (and, in this environment, not found).\<close>

theorem semester_validated_witness:
  "lower (ref_env []) (ascii ''summer'') \<noteq> ascii ''fall''
   \<and> lower (ref_env []) (ascii ''summer'') \<noteq> ascii ''spring''
   \<and> build_term_events (ref_env []) 2026 (ascii ''summer'') = (Inl ValueError, [])
   \<and> academic_year_slug_for_term (ref_env []) 2026 (ascii ''summer'') = Inl ValueError
   \<and> lower (ref_env []) (ascii ''Spring'') = ascii ''spring''
   \<and> academic_year_slug_for_term (ref_env []) 2026 (ascii ''Spring'') = Inr (ascii ''ay2526.php'')
   \<and> build_term_events (ref_env []) 2026 (ascii ''Spring'')
       = (Inl FetchError, [ACADEMIC_BASE @ ascii ''/ay2526.php''])"
proof -
  have l: "lower (ref_env []) (ascii ''summer'') \<noteq> ascii ''fall''
      \<and> lower (ref_env []) (ascii ''summer'') \<noteq> ascii ''spring''"
    by (simp add: lower_def to_lower_def ascii_lower_def ascii_def)
  have s: "academic_year_slug_for_term (ref_env []) 2026 (ascii ''Spring'') = Inr (ascii ''ay2526.php'')"
    by (simp add: academic_year_slug_for_term_def lower_def to_lower_def ascii_lower_def ascii_def
          pad2_def str_of_int_def str_of_nat.simps)
  have b: "build_term_events (ref_env []) 2026 (ascii ''Spring'')
       = (Inl FetchError, [ACADEMIC_BASE @ ascii ''/ay2526.php''])"
    by (simp add: build_term_events_def academic_year_slug_for_term_def lower_def to_lower_def
          ascii_lower_def ascii_def pad2_def str_of_int_def str_of_nat.simps fetch_html_def
          ref_env_def)
  from semester_validated[of "ref_env []" "ascii ''summer''" 2026] l s b
  show ?thesis by simp
qed

subsection \<open>The term block\<close>

lemma first_index_None: "first_index P xs = None \<longleftrightarrow> (\<forall>x\<in>set xs. \<not> P x)"
  by (induction xs) auto

lemma first_index_Some:
  "first_index P xs = Some i \<Longrightarrow> i < length xs \<and> P (xs ! i) \<and> (\<forall>j<i. \<not> P (xs ! j))"
proof (induction xs arbitrary: i)
  case Nil
  then show ?case by simp
next
  case (Cons x xs)
  show ?case
  proof (cases "P x")
    case True
    then show ?thesis using Cons.prems by simp
  next
    case False
    then obtain k where k: "first_index P xs = Some k" "i = Suc k"
      using Cons.prems by auto
    from Cons.IH[OF k(1)] False k(2) show ?thesis
      by (auto simp: nth_Cons split: nat.splits)
  qed
qed

lemma str_contains_sublist: "str_contains l key \<longleftrightarrow> sublist key l"
  by (induction l) (auto simp: sublist_Cons_right)

text \<open>
  Claim C8. For every page, year and semester text that lower-cases to \<open>spring\<close>:
  \<open>extract_term_block_text\<close> raises \<open>RuntimeError\<close> (it returns no block, empty or
  not) exactly when no line of the page, blank lines dropped and white space normalized,
  contains the heading \<open>Spring {year}\<close>.
\<close>

theorem spring_section_not_found:
  assumes "lower E semester = ascii ''spring''"
  shows "extract_term_block_text E academic_html year semester = Inl RuntimeError
         \<longleftrightarrow> (\<forall>l\<in>set (page_lines E academic_html).
                \<not> sublist (ascii ''Spring '' @ str_of_int year) l)"
proof -
  let ?key = "ascii ''Spring '' @ str_of_int year"
  let ?lines = "page_lines E academic_html"
  show ?thesis
  proof (cases "first_index (\<lambda>l. str_contains l ?key) ?lines")
    case None
    then have "\<forall>l\<in>set ?lines. \<not> sublist ?key l"
      by (simp add: first_index_None str_contains_sublist)
    then show ?thesis
      using assms None by (simp add: extract_term_block_text_def Let_def)
  next
    case (Some i)
    then have "\<exists>l\<in>set ?lines. sublist ?key l"
      using first_index_Some[OF Some] by (auto simp: str_contains_sublist)
    then show ?thesis
      using assms Some by (auto simp: extract_term_block_text_def Let_def)
  qed
qed

subsection \<open>Ranges from text\<close>

text \<open>
  Claim C7. For every text whose normalized form \<open>t\<close> (en dash replaced, white space
  collapsed and trimmed) matches neither pattern of the single-month range grammar and
  which the date parser reads as the date \<open>d\<close>: \<open>parse_range\<close> returns the range from
  \<open>d\<close> to \<open>d\<close>.
\<close>

theorem single_date_zero_width:
  assumes "t = normalize_whitespace (replace_endash text)"
    and "re_match (range_exact E) t = None"
    and "re_match (range_with_suffix E) t = None"
    and "parse_month_day_year E t = Inr d"
  shows "parse_range E text = Inr \<lparr>start = d, end' = d\<rparr>"
  using assms by (simp add: parse_range_def)


text \<open>A page with a fall heading only, asked for spring 2026.\<close>

theorem spring_section_not_found_witness:
  "lower (ref_env []) (ascii ''Spring'') = ascii ''spring''
   \<and> page_lines (ref_env [])
        (ascii ''Fall 2025'' @ [10] @ ascii ''  First Day of Classes:  August 25, 2025'')
       = [ascii ''Fall 2025'', ascii ''First Day of Classes: August 25, 2025'']
   \<and> extract_term_block_text (ref_env [])
        (ascii ''Fall 2025'' @ [10] @ ascii ''  First Day of Classes:  August 25, 2025'')
        2026 (ascii ''Spring'') = Inl RuntimeError"
proof -
  let ?page = "ascii ''Fall 2025'' @ [10] @ ascii ''  First Day of Classes:  August 25, 2025''"
  have l: "lower (ref_env []) (ascii ''Spring'') = ascii ''spring''"
    by (simp add: lower_def to_lower_def ascii_lower_def ascii_def)
  have p: "page_lines (ref_env []) ?page
       = [ascii ''Fall 2025'', ascii ''First Day of Classes: August 25, 2025'']"
    by (simp add: page_lines_def ref_env_def splitlines_def is_linebreak_def
          normalize_whitespace_def strip_def rx_defs)
  have k: "ascii ''Spring '' @ str_of_int 2026 = ascii ''Spring 2026''"
    by (simp add: str_of_int_def str_of_nat.simps ascii_def)
  have n: "\<forall>l\<in>set (page_lines (ref_env []) ?page).
             \<not> sublist (ascii ''Spring '' @ str_of_int 2026) l"
    unfolding p k str_contains_sublist[symmetric] by (simp add: ascii_def)
  from spring_section_not_found[OF l, of ?page 2026] n l p
  show ?thesis by simp
qed

text \<open>A single date with stray white space.\<close>

theorem single_date_zero_width_witness:
  "re_match (range_exact (ref_env [])) (ascii ''January 20, 2026'') = None
   \<and> re_match (range_with_suffix (ref_env [])) (ascii ''January 20, 2026'') = None
   \<and> parse_month_day_year (ref_env []) (ascii ''January 20, 2026'') = Inr (ymd2ord 2026 1 20)
   \<and> parse_range (ref_env []) (ascii ''  January   20, 2026 '')
       = Inr \<lparr>start = ymd2ord 2026 1 20, end' = ymd2ord 2026 1 20\<rparr>"
proof -
  have t: "ascii ''January 20, 2026''
         = normalize_whitespace (replace_endash (ascii ''  January   20, 2026 ''))"
    by (simp add: normalize_whitespace_def replace_endash_def strip_def rx_defs)
  have a: "re_match (range_exact (ref_env [])) (ascii ''January 20, 2026'') = None"
    by (simp add: range_exact_def range_prefix_def rx_defs)
  have b: "re_match (range_with_suffix (ref_env [])) (ascii ''January 20, 2026'') = None"
    by (simp add: range_with_suffix_def range_prefix_def rx_defs)
  have c: "parse_month_day_year (ref_env []) (ascii ''January 20, 2026'') = Inr (ymd2ord 2026 1 20)"
    by (simp add: parse_month_day_year_def ref_defs rx_defs)
  from single_date_zero_width[OF t a b c] a b c show ?thesis by simp
qed

lemma parse_range_matched:
  assumes "t = normalize_whitespace (replace_endash text)"
    and "re_match (range_exact E) t = Some gs
         \<or> (re_match (range_exact E) t = None \<and> re_match (range_with_suffix E) t = Some gs)"
  shows "parse_range E text = range_of_groups E gs"
  using assms by (auto simp: parse_range_def)

lemma ymd2ord_le_iff: "ymd2ord y m d1 \<le> ymd2ord y m d2 \<longleftrightarrow> d1 \<le> d2"
  by (simp add: ymd2ord_def)

text \<open>
  Claim C3, as amended. For every text whose normalized form matches \<open>Month D-D, YYYY\<close>,
  with or without a suffix after the year (the groups \<open>gs\<close> are the month word, the two
  day numbers and the year), when the month word names the month \<open>m\<close> and the date
  parser reads the two texts \<open>Month D1, YYYY\<close> and \<open>Month D2, YYYY\<close> that \<open>parse_range\<close>
  builds as the dates they spell: \<open>parse_range\<close> returns the range from
  \<open>date(YYYY, m, D1)\<close> to \<open>date(YYYY, m, D2)\<close>, two dates of one month and one year,
  and its start is at or before its end exactly when \<open>D1 \<le> D2\<close>. The claim as stated
  promises \<open>start \<le> end\<close> for every matching text; the code does not compare the two
  day numbers.
\<close>

theorem single_month_range:
  assumes "t = normalize_whitespace (replace_endash text)"
    and "re_match (range_exact E) t = Some gs
         \<or> (re_match (range_exact E) t = None \<and> re_match (range_with_suffix E) t = Some gs)"
    and "mon = gs ! 0" and "d1 = py_int E (gs ! 1)" and "d2 = py_int E (gs ! 2)"
    and "yyyy = py_int E (gs ! 3)"
    and "month_number mon = Some m"
    and "dateutil_parse E False (format_mdy mon d1 yyyy) = Inr (ymd2ord yyyy m d1)"
    and "dateutil_parse E False (format_mdy mon d2 yyyy) = Inr (ymd2ord yyyy m d2)"
  shows "parse_range E text = Inr \<lparr>start = ymd2ord yyyy m d1, end' = ymd2ord yyyy m d2\<rparr>
         \<and> (ymd2ord yyyy m d1 \<le> ymd2ord yyyy m d2 \<longleftrightarrow> d1 \<le> d2)"
proof -
  have "parse_range E text = range_of_groups E gs"
    using assms(1,2) by (rule parse_range_matched)
  then show ?thesis
    using assms(3-9) by (simp add: range_of_groups_def ymd2ord_le_iff)
qed

text \<open>The example of the specification, written with an en dash and a double space.\<close>

theorem single_month_range_witness:
  "re_match (range_exact (ref_env [])) (ascii ''October 11-14, 2025'')
      = Some [ascii ''October'', ascii ''11'', ascii ''14'', ascii ''2025'']
   \<and> month_number (ascii ''October'') = Some 10
   \<and> dateutil_parse (ref_env []) False (format_mdy (ascii ''October'') 11 2025)
       = Inr (ymd2ord 2025 10 11)
   \<and> dateutil_parse (ref_env []) False (format_mdy (ascii ''October'') 14 2025)
       = Inr (ymd2ord 2025 10 14)
   \<and> parse_range (ref_env []) (ascii ''October 11'' @ [8211] @ ascii ''14,  2025'')
       = Inr \<lparr>start = ymd2ord 2025 10 11, end' = ymd2ord 2025 10 14\<rparr>
   \<and> ymd2ord 2025 10 11 \<le> ymd2ord 2025 10 14"
proof -
  let ?E = "ref_env []"
  let ?gs = "[ascii ''October'', ascii ''11'', ascii ''14'', ascii ''2025'']"
  have t: "ascii ''October 11-14, 2025''
         = normalize_whitespace (replace_endash (ascii ''October 11'' @ [8211] @ ascii ''14,  2025''))"
    by (simp add: normalize_whitespace_def replace_endash_def strip_def rx_defs)
  have m: "re_match (range_exact ?E) (ascii ''October 11-14, 2025'') = Some ?gs"
    by (simp add: range_exact_def range_prefix_def rx_defs)
  have i1: "11 = py_int ?E (?gs ! 1)" and i2: "14 = py_int ?E (?gs ! 2)"
    and i3: "2025 = py_int ?E (?gs ! 3)"
    by (simp_all add: py_int_def digit_value_def ascii_def)
  have mn: "month_number (ascii ''October'') = Some 10"
    by (simp add: month_number_def month_names_def ascii_lower_def ascii_def)
  have p1: "dateutil_parse ?E False (format_mdy (ascii ''October'') 11 2025) = Inr (ymd2ord 2025 10 11)"
    by (simp add: format_mdy_def str_of_int_def str_of_nat.simps ref_defs rx_defs)
  have p2: "dateutil_parse ?E False (format_mdy (ascii ''October'') 14 2025) = Inr (ymd2ord 2025 10 14)"
    by (simp add: format_mdy_def str_of_int_def str_of_nat.simps ref_defs rx_defs)
  have g0: "ascii ''October'' = ?gs ! 0" by simp
  from single_month_range[OF t disjI1[OF m] g0 i1 i2 i3 mn p1 p2] m mn p1 p2
  show ?thesis by simp
qed

text \<open>The text \<open>October 14-11, 2025\<close> matches the grammar and gives a range that starts
  after it ends.\<close>

theorem single_month_range_counterexample:
  "re_match (range_exact (ref_env [])) (ascii ''October 14-11, 2025'')
      = Some [ascii ''October'', ascii ''14'', ascii ''11'', ascii ''2025'']
   \<and> parse_range (ref_env []) (ascii ''October 14-11, 2025'')
       = Inr \<lparr>start = ymd2ord 2025 10 14, end' = ymd2ord 2025 10 11\<rparr>
   \<and> \<not> ymd2ord 2025 10 14 \<le> ymd2ord 2025 10 11"
proof -
  have m: "re_match (range_exact (ref_env [])) (ascii ''October 14-11, 2025'')
      = Some [ascii ''October'', ascii ''14'', ascii ''11'', ascii ''2025'']"
    by (simp add: range_exact_def range_prefix_def rx_defs)
  have p: "parse_range (ref_env []) (ascii ''October 14-11, 2025'')
       = Inr \<lparr>start = ymd2ord 2025 10 14, end' = ymd2ord 2025 10 11\<rparr>"
    by (simp add: parse_range_def normalize_whitespace_def strip_def replace_endash_def
          range_exact_def range_prefix_def range_of_groups_def format_mdy_def py_int_def
          digit_value_def str_of_int_def str_of_nat.simps rx_defs ref_defs)
  have o: "\<not> ymd2ord 2025 10 14 \<le> ymd2ord 2025 10 11"
    by (simp add: ymd2ord_def)
  from m p o show ?thesis by simp
qed

subsection \<open>The order of a range\<close>

lemma clamp_valid_iff:
  assumes "start r \<le> end' r" "lo \<le> hi"
  shows "start (clamp r lo hi) \<le> end' (clamp r lo hi)
         \<longleftrightarrow> intersects r \<lparr>start = lo, end' = hi\<rparr>"
  using assms by (auto simp: clamp_def intersects_def)

lemma build_payload:
  assumes "fst (build_term_events E year semester) = Inr p"
  shows "\<exists>ay_url dd_url facts dd_html. assemble E ay_url dd_url facts dd_html = Inr p"
  using assms
  by (auto simp: build_term_events_def Let_def split: if_splits sum.splits prod.splits option.splits)

lemma assemble_payload:
  assumes "assemble E ay_url dd_url facts dd_html = Inr p"
  shows "p_breaks_in_term p
           = breaks_in_term \<lparr>start = p_first_day p, end' = p_last_day p\<rparr> (f_breaks facts)"
    and "p_holidays_in_term p
           = holidays_in_term \<lparr>start = p_first_day p, end' = p_last_day p\<rparr> (f_single_holidays facts)"
    and "instructional_week_events (p_first_day p) (p_last_day p)
           (map (\<lambda>(lab, rng). clamp rng (p_first_day p) (p_last_day p)) (p_breaks_in_term p)
            @ map snd (p_holidays_in_term p)) = Inr (p_week_events p)"
  using assms
  by (auto simp: assemble_def Let_def term_blackout_ranges_def split: sum.splits prod.splits)

lemma payload_ranges:
  assumes "fst (build_term_events E year semester) = Inr p"
  shows "instructional_week_events (p_first_day p) (p_last_day p)
           (map (\<lambda>(lab, rng). clamp rng (p_first_day p) (p_last_day p)) (p_breaks_in_term p)
            @ map snd (p_holidays_in_term p)) = Inr (p_week_events p)"
    and "\<forall>b\<in>set (p_holidays_in_term p).
           start (snd b) = end' (snd b) \<and> p_first_day p \<le> start (snd b) \<and> end' (snd b) \<le> p_last_day p"
    and "\<forall>b\<in>set (p_breaks_in_term p).
           intersects (snd b) \<lparr>start = p_first_day p, end' = p_last_day p\<rparr>"
proof -
  from build_payload[OF assms] obtain ay_url dd_url facts dd_html
    where a: "assemble E ay_url dd_url facts dd_html = Inr p" by blast
  show "instructional_week_events (p_first_day p) (p_last_day p)
           (map (\<lambda>(lab, rng). clamp rng (p_first_day p) (p_last_day p)) (p_breaks_in_term p)
            @ map snd (p_holidays_in_term p)) = Inr (p_week_events p)"
    by (rule assemble_payload(3)[OF a])
  show "\<forall>b\<in>set (p_holidays_in_term p).
           start (snd b) = end' (snd b) \<and> p_first_day p \<le> start (snd b) \<and> end' (snd b) \<le> p_last_day p"
    unfolding assemble_payload(2)[OF a] by (auto simp: holidays_in_term_def contains_def)
  show "\<forall>b\<in>set (p_breaks_in_term p).
           intersects (snd b) \<lparr>start = p_first_day p, end' = p_last_day p\<rparr>"
    unfolding assemble_payload(1)[OF a] by (auto simp: breaks_in_term_def)
qed

lemma payload_blackout_valid:
  assumes "fst (build_term_events E year semester) = Inr p"
    and "p_first_day p \<le> p_last_day p"
    and "\<forall>b\<in>set (p_breaks_in_term p). start (snd b) \<le> end' (snd b)"
    and "r \<in> set (map (\<lambda>(lab, rng). clamp rng (p_first_day p) (p_last_day p)) (p_breaks_in_term p)
            @ map snd (p_holidays_in_term p))"
  shows "start r \<le> end' r \<and> p_first_day p \<le> start r \<and> end' r \<le> p_last_day p"
proof -
  from assms(4) consider
      (brk) b where "b \<in> set (p_breaks_in_term p)" "r = clamp (snd b) (p_first_day p) (p_last_day p)"
    | (hol) b where "b \<in> set (p_holidays_in_term p)" "r = snd b"
    by (auto split: prod.splits)
  then show ?thesis
  proof cases
    case brk
    have "start (snd b) \<le> end' (snd b)" using assms(3) brk(1) by blast
    moreover have "intersects (snd b) \<lparr>start = p_first_day p, end' = p_last_day p\<rparr>"
      using payload_ranges(3)[OF assms(1)] brk(1) by blast
    ultimately show ?thesis
      using brk(2) assms(2) by (auto simp: clamp_def intersects_def)
  next
    case hol
    then show ?thesis using payload_ranges(2)[OF assms(1)] by auto
  qed
qed

text \<open>
  Claim C4, as amended. \<open>DateRange\<close> checks nothing, and \<open>clamp\<close> takes a maximum and a
  minimum; so
  \<^item> for a range \<open>r\<close> with \<open>start \<le> end\<close> and bounds \<open>lo \<le> hi\<close>, \<open>r.clamp(lo, hi)\<close> has
    \<open>start \<le> end\<close> exactly when \<open>r\<close> intersects \<open>lo .. hi\<close>;
  \<^item> a range \<open>parse_range\<close> builds from a text that matches neither range pattern has
    \<open>start = end\<close>;
  \<^item> for a text that matches \<open>Month D1-D2, YYYY\<close>, a range \<open>parse_range\<close> returns is the
    pair of the date parser's answers for \<open>Month D1, YYYY\<close> and \<open>Month D2, YYYY\<close>; and
    when the parser reads these two texts as the days \<open>D1\<close> and \<open>D2\<close> of one month of
    one year, \<open>parse_range\<close> returns the range of these two dates, which has
    \<open>start \<le> end\<close> exactly when \<open>D1 \<le> D2\<close>;
  \<^item> for every payload \<open>p\<close> that \<open>build_term_events\<close> returns, the week events of \<open>p\<close>
    are those of the blackout list made of the breaks of \<open>p\<close>, each clamped to the term,
    followed by the holidays of \<open>p\<close>; every holiday of \<open>p\<close> is a range of one day inside
    the term, every break of \<open>p\<close> intersects the term, and when
    \<open>first_day \<le> last_day\<close> and every break of \<open>p\<close> has \<open>start \<le> end\<close>, every range of
    the blackout list has \<open>start \<le> end\<close> and lies inside the term.
\<close>

theorem ranges_ordered:
  "(start r \<le> end' r \<and> lo \<le> hi \<longrightarrow>
      (start (clamp r lo hi) \<le> end' (clamp r lo hi)
         \<longleftrightarrow> intersects r \<lparr>start = lo, end' = hi\<rparr>))
   \<and> (re_match (range_exact E) (normalize_whitespace (replace_endash text)) = None
      \<and> re_match (range_with_suffix E) (normalize_whitespace (replace_endash text)) = None
      \<and> parse_range E text = Inr pr \<longrightarrow> start pr = end' pr)
   \<and> ((re_match (range_exact E) (normalize_whitespace (replace_endash text)) = Some gs
        \<or> (re_match (range_exact E) (normalize_whitespace (replace_endash text)) = None
           \<and> re_match (range_with_suffix E) (normalize_whitespace (replace_endash text)) = Some gs))
      \<longrightarrow>
        (parse_range E text = Inr pr \<longrightarrow>
           dateutil_parse E False
             (format_mdy (gs ! 0) (py_int E (gs ! 1)) (py_int E (gs ! 3))) = Inr (start pr)
         \<and> dateutil_parse E False
             (format_mdy (gs ! 0) (py_int E (gs ! 2)) (py_int E (gs ! 3))) = Inr (end' pr))
      \<and> (dateutil_parse E False
             (format_mdy (gs ! 0) (py_int E (gs ! 1)) (py_int E (gs ! 3)))
            = Inr (ymd2ord y m (py_int E (gs ! 1)))
         \<and> dateutil_parse E False
             (format_mdy (gs ! 0) (py_int E (gs ! 2)) (py_int E (gs ! 3)))
            = Inr (ymd2ord y m (py_int E (gs ! 2))) \<longrightarrow>
           (\<exists>rng. parse_range E text = Inr rng
               \<and> start rng = ymd2ord y m (py_int E (gs ! 1))
               \<and> end' rng = ymd2ord y m (py_int E (gs ! 2))
               \<and> (start rng \<le> end' rng \<longleftrightarrow> py_int E (gs ! 1) \<le> py_int E (gs ! 2)))))
   \<and> (fst (build_term_events E year semester) = Inr p \<longrightarrow>
        instructional_week_events (p_first_day p) (p_last_day p)
          (map (\<lambda>(lab, rng). clamp rng (p_first_day p) (p_last_day p)) (p_breaks_in_term p)
           @ map snd (p_holidays_in_term p)) = Inr (p_week_events p)
      \<and> (\<forall>b\<in>set (p_holidays_in_term p).
            start (snd b) = end' (snd b) \<and> p_first_day p \<le> start (snd b)
          \<and> end' (snd b) \<le> p_last_day p)
      \<and> (\<forall>b\<in>set (p_breaks_in_term p).
            intersects (snd b) \<lparr>start = p_first_day p, end' = p_last_day p\<rparr>)
      \<and> (p_first_day p \<le> p_last_day p
          \<and> (\<forall>b\<in>set (p_breaks_in_term p). start (snd b) \<le> end' (snd b)) \<longrightarrow>
           (\<forall>b\<in>set (map (\<lambda>(lab, rng). clamp rng (p_first_day p) (p_last_day p))
                         (p_breaks_in_term p)
                      @ map snd (p_holidays_in_term p)).
              start b \<le> end' b \<and> p_first_day p \<le> start b \<and> end' b \<le> p_last_day p)))"
proof (intro conjI impI)
  assume "start r \<le> end' r \<and> lo \<le> hi"
  then show "start (clamp r lo hi) \<le> end' (clamp r lo hi)
         \<longleftrightarrow> intersects r \<lparr>start = lo, end' = hi\<rparr>"
    by (simp add: clamp_valid_iff)
next
  assume "re_match (range_exact E) (normalize_whitespace (replace_endash text)) = None
      \<and> re_match (range_with_suffix E) (normalize_whitespace (replace_endash text)) = None
      \<and> parse_range E text = Inr pr"
  then show "start pr = end' pr"
    by (auto simp: parse_range_def split: sum.splits)
next
  assume a: "re_match (range_exact E) (normalize_whitespace (replace_endash text)) = Some gs
        \<or> (re_match (range_exact E) (normalize_whitespace (replace_endash text)) = None
           \<and> re_match (range_with_suffix E) (normalize_whitespace (replace_endash text)) = Some gs)"
  have g: "parse_range E text = range_of_groups E gs"
    using parse_range_matched[OF refl a] .
  {
    assume "parse_range E text = Inr pr"
    then have "range_of_groups E gs = Inr pr" using g by simp
    then show "dateutil_parse E False
           (format_mdy (gs ! 0) (py_int E (gs ! 1)) (py_int E (gs ! 3))) = Inr (start pr)"
      and "dateutil_parse E False
           (format_mdy (gs ! 0) (py_int E (gs ! 2)) (py_int E (gs ! 3))) = Inr (end' pr)"
      by (auto simp: range_of_groups_def split: sum.splits)
  }
  {
    assume "dateutil_parse E False
             (format_mdy (gs ! 0) (py_int E (gs ! 1)) (py_int E (gs ! 3)))
            = Inr (ymd2ord y m (py_int E (gs ! 1)))
         \<and> dateutil_parse E False
             (format_mdy (gs ! 0) (py_int E (gs ! 2)) (py_int E (gs ! 3)))
            = Inr (ymd2ord y m (py_int E (gs ! 2)))"
    then show "\<exists>rng. parse_range E text = Inr rng
               \<and> start rng = ymd2ord y m (py_int E (gs ! 1))
               \<and> end' rng = ymd2ord y m (py_int E (gs ! 2))
               \<and> (start rng \<le> end' rng \<longleftrightarrow> py_int E (gs ! 1) \<le> py_int E (gs ! 2))"
      unfolding g by (simp add: range_of_groups_def ymd2ord_le_iff)
  }
next
  assume b: "fst (build_term_events E year semester) = Inr p"
  show "instructional_week_events (p_first_day p) (p_last_day p)
          (map (\<lambda>(lab, rng). clamp rng (p_first_day p) (p_last_day p)) (p_breaks_in_term p)
           @ map snd (p_holidays_in_term p)) = Inr (p_week_events p)"
    by (rule payload_ranges(1)[OF b])
  show "\<forall>b\<in>set (p_holidays_in_term p).
            start (snd b) = end' (snd b) \<and> p_first_day p \<le> start (snd b)
          \<and> end' (snd b) \<le> p_last_day p"
    by (rule payload_ranges(2)[OF b])
  show "\<forall>b\<in>set (p_breaks_in_term p).
            intersects (snd b) \<lparr>start = p_first_day p, end' = p_last_day p\<rparr>"
    by (rule payload_ranges(3)[OF b])
  assume "p_first_day p \<le> p_last_day p
          \<and> (\<forall>b\<in>set (p_breaks_in_term p). start (snd b) \<le> end' (snd b))"
  then show "\<forall>b\<in>set (map (\<lambda>(lab, rng). clamp rng (p_first_day p) (p_last_day p))
                         (p_breaks_in_term p)
                      @ map snd (p_holidays_in_term p)).
              start b \<le> end' b \<and> p_first_day p \<le> start b \<and> end' b \<le> p_last_day p"
    using payload_blackout_valid[OF b] by blast
qed

text \<open>The two example runs.\<close>

lemma fall_facts:
  "read_term_facts (ref_env sites) example_fall_page 2025 (ascii ''fall'')
   = Inr \<lparr>f_first_day = ymd2ord 2025 8 25, f_last_day = ymd2ord 2025 11 14,
          f_study_day = None, f_exams_rng = None,
          f_single_holidays = [(ascii ''Labor Day'', ymd2ord 2025 9 1)],
          f_breaks = [(ascii ''Fall Break'',
                       \<lparr>start = ymd2ord 2025 10 11, end' = ymd2ord 2025 10 14\<rparr>)]\<rparr>"
  by (simp add: read_term_facts_def extract_term_block_text_def page_lines_def splitlines_def
        is_linebreak_def normalize_whitespace_def strip_def term_heading_def spring_heading_def
        extract_subsection_def subsection_headers_def find_bullet_date_def bullet_date_pattern_def
        parse_month_day_year_def find_bullet_range_def bullet_range_pattern_def
        parse_range_def replace_endash_def range_exact_def range_with_suffix_def range_prefix_def
        range_of_groups_def format_mdy_def py_int_def digit_value_def
        break_like_labels_def lower_def str_of_int_def str_of_nat.simps example_fall_page_def
        rx_defs ref_defs)

lemma fall_deadlines:
  "parse_deadlines_drop_withdraw (ref_env sites) (ascii ''Dates and Deadlines'') = Inr (None, None)"
  by (simp add: parse_deadlines_drop_withdraw_def deadline_lines_def page_lines_def splitlines_def
        is_linebreak_def normalize_whitespace_def strip_def strip_bullets_def full_token_def
        truthy_def extract_end_date_from_full_line_def rx_defs ref_defs)

lemma fall_weeks:
  "instructional_week_events (ymd2ord 2025 8 25) (ymd2ord 2025 11 14)
     [\<lparr>start = ymd2ord 2025 10 11, end' = ymd2ord 2025 10 14\<rparr>,
      \<lparr>start = ymd2ord 2025 9 1, end' = ymd2ord 2025 9 1\<rparr>]
   = Inr [(ascii ''Week 1'', ymd2ord 2025 8 25, ymd2ord 2025 8 29),
          (ascii ''Week 2 (short)'', ymd2ord 2025 9 2, ymd2ord 2025 9 5),
          (ascii ''Week 3'', ymd2ord 2025 9 8, ymd2ord 2025 9 12),
          (ascii ''Week 4'', ymd2ord 2025 9 15, ymd2ord 2025 9 19),
          (ascii ''Week 5'', ymd2ord 2025 9 22, ymd2ord 2025 9 26),
          (ascii ''Week 6'', ymd2ord 2025 9 29, ymd2ord 2025 10 3),
          (ascii ''Week 7'', ymd2ord 2025 10 6, ymd2ord 2025 10 10),
          (ascii ''Week 8 (short)'', ymd2ord 2025 10 15, ymd2ord 2025 10 17),
          (ascii ''Week 9'', ymd2ord 2025 10 20, ymd2ord 2025 10 24),
          (ascii ''Week 10'', ymd2ord 2025 10 27, ymd2ord 2025 10 31),
          (ascii ''Week 11'', ymd2ord 2025 11 3, ymd2ord 2025 11 7),
          (ascii ''Week 12'', ymd2ord 2025 11 10, ymd2ord 2025 11 14)]"
  by code_simp

lemma fall_in_term:
  "breaks_in_term \<lparr>start = ymd2ord 2025 8 25, end' = ymd2ord 2025 11 14\<rparr>
     [(ascii ''Fall Break'', \<lparr>start = ymd2ord 2025 10 11, end' = ymd2ord 2025 10 14\<rparr>)]
   = [(ascii ''Fall Break'', \<lparr>start = ymd2ord 2025 10 11, end' = ymd2ord 2025 10 14\<rparr>)]"
  "holidays_in_term \<lparr>start = ymd2ord 2025 8 25, end' = ymd2ord 2025 11 14\<rparr>
     [(ascii ''Labor Day'', ymd2ord 2025 9 1)]
   = [(ascii ''Labor Day'', \<lparr>start = ymd2ord 2025 9 1, end' = ymd2ord 2025 9 1\<rparr>)]"
  "clamp \<lparr>start = ymd2ord 2025 10 11, end' = ymd2ord 2025 10 14\<rparr>
     (ymd2ord 2025 8 25) (ymd2ord 2025 11 14)
   = \<lparr>start = ymd2ord 2025 10 11, end' = ymd2ord 2025 10 14\<rparr>"
  by (simp_all add: breaks_in_term_def holidays_in_term_def intersects_def contains_def clamp_def
        ymd2ord_def days_before_month_def is_leap_def)

lemma fall_run:
  "fst (build_term_events (ref_env example_fall_site) 2025 (ascii ''Fall''))
   = Inr \<lparr>p_ay_url = ACADEMIC_BASE @ ascii ''/ay2526.php'',
          p_dd_url = DATES_BASE @ ascii ''/fall25-dates.php'',
          p_first_day = ymd2ord 2025 8 25, p_last_day = ymd2ord 2025 11 14,
          p_study_day = None, p_exams_rng = None,
          p_breaks_in_term = [(ascii ''Fall Break'',
                               \<lparr>start = ymd2ord 2025 10 11, end' = ymd2ord 2025 10 14\<rparr>)],
          p_holidays_in_term = [(ascii ''Labor Day'',
                                 \<lparr>start = ymd2ord 2025 9 1, end' = ymd2ord 2025 9 1\<rparr>)],
          p_last_drop_no_grade = None, p_last_withdraw_w = None,
          p_week_events =
            [(ascii ''Week 1'', ymd2ord 2025 8 25, ymd2ord 2025 8 29),
             (ascii ''Week 2 (short)'', ymd2ord 2025 9 2, ymd2ord 2025 9 5),
             (ascii ''Week 3'', ymd2ord 2025 9 8, ymd2ord 2025 9 12),
             (ascii ''Week 4'', ymd2ord 2025 9 15, ymd2ord 2025 9 19),
             (ascii ''Week 5'', ymd2ord 2025 9 22, ymd2ord 2025 9 26),
             (ascii ''Week 6'', ymd2ord 2025 9 29, ymd2ord 2025 10 3),
             (ascii ''Week 7'', ymd2ord 2025 10 6, ymd2ord 2025 10 10),
             (ascii ''Week 8 (short)'', ymd2ord 2025 10 15, ymd2ord 2025 10 17),
             (ascii ''Week 9'', ymd2ord 2025 10 20, ymd2ord 2025 10 24),
             (ascii ''Week 10'', ymd2ord 2025 10 27, ymd2ord 2025 10 31),
             (ascii ''Week 11'', ymd2ord 2025 11 3, ymd2ord 2025 11 7),
             (ascii ''Week 12'', ymd2ord 2025 11 10, ymd2ord 2025 11 14)]\<rparr>"
proof -
  let ?E = "ref_env example_fall_site"
  have l: "lower ?E (ascii ''Fall'') = ascii ''fall''"
    by (simp add: lower_def to_lower_def ascii_lower_def ascii_def)
  have s: "academic_year_slug_for_term ?E 2025 (ascii ''fall'') = Inr (ascii ''ay2526.php'')"
    by (simp add: academic_year_slug_for_term_def lower_def to_lower_def ascii_lower_def ascii_def
          pad2_def str_of_int_def str_of_nat.simps)
  have pg: "fetch_html ?E (ACADEMIC_BASE @ ascii ''/ay2526.php'') = Inr example_fall_page"
    by (simp add: fetch_html_def ref_env_def example_fall_site_def ascii_def)
  have c: "candidate_dates_deadlines_urls ?E 2025 (ascii ''fall'')
         = [DATES_BASE @ ascii ''/fall25-dates.php'', DATES_BASE @ ascii ''/25f-dates.php'']"
    by (simp add: candidate_dates_deadlines_urls_def lower_def to_lower_def ascii_lower_def
          ascii_def pad2_def str_of_int_def str_of_nat.simps)
  have f: "fetch_first ?E [DATES_BASE @ ascii ''/fall25-dates.php'', DATES_BASE @ ascii ''/25f-dates.php'']
         = (Some (ascii ''Dates and Deadlines'', DATES_BASE @ ascii ''/fall25-dates.php''),
            [DATES_BASE @ ascii ''/fall25-dates.php''])"
    by (simp add: fetch_html_def ref_env_def example_fall_site_def ascii_def
          ACADEMIC_BASE_def DATES_BASE_def)
  have d: "ascii ''Dates and Deadlines'' \<noteq> []"
    by (simp add: ascii_def)
  have u: "ascii ''/'' @ ascii ''ay2526.php'' = ascii ''/ay2526.php''"
    by (simp add: ascii_def)
  show ?thesis
    using d
    by (simp add: build_term_events_def l s pg c f fall_facts assemble_def fall_deadlines
          fall_in_term term_blackout_ranges_def fall_weeks Let_def u
          del: fetch_first.simps)
qed

lemma inverted_facts:
  "read_term_facts (ref_env sites) example_inverted_page 2026 (ascii ''spring'')
   = Inr \<lparr>f_first_day = ymd2ord 2026 1 20, f_last_day = ymd2ord 2026 4 29,
          f_study_day = None, f_exams_rng = None, f_single_holidays = [],
          f_breaks = [(ascii ''Spring Break'',
                       \<lparr>start = ymd2ord 2026 3 15, end' = ymd2ord 2026 3 9\<rparr>)]\<rparr>"
  by (simp add: read_term_facts_def extract_term_block_text_def page_lines_def splitlines_def
        is_linebreak_def normalize_whitespace_def strip_def term_heading_def spring_heading_def
        extract_subsection_def subsection_headers_def find_bullet_date_def bullet_date_pattern_def
        parse_month_day_year_def find_bullet_range_def bullet_range_pattern_def
        parse_range_def replace_endash_def range_exact_def range_with_suffix_def range_prefix_def
        range_of_groups_def format_mdy_def py_int_def digit_value_def
        break_like_labels_def lower_def str_of_int_def str_of_nat.simps
        example_inverted_page_def rx_defs ref_defs)

lemma inverted_run:
  "(case fst (build_term_events (ref_env example_inverted_site) 2026 (ascii ''spring'')) of
      Inl e \<Rightarrow> None
    | Inr p \<Rightarrow>
        Some (p_first_day p, p_last_day p, p_breaks_in_term p,
              map (\<lambda>(lab, rng). clamp rng (p_first_day p) (p_last_day p)) (p_breaks_in_term p)
              @ map snd (p_holidays_in_term p)))
   = Some (ymd2ord 2026 1 20, ymd2ord 2026 4 29,
           [(ascii ''Spring Break'', \<lparr>start = ymd2ord 2026 3 15, end' = ymd2ord 2026 3 9\<rparr>)],
           [\<lparr>start = ymd2ord 2026 3 15, end' = ymd2ord 2026 3 9\<rparr>])"
proof -
  let ?E = "ref_env example_inverted_site"
  let ?inv = "\<lparr>start = ymd2ord 2026 3 15, end' = ymd2ord 2026 3 9\<rparr>"
  have s: "academic_year_slug_for_term ?E 2026 (ascii ''spring'') = Inr (ascii ''ay2526.php'')"
    by (simp add: academic_year_slug_for_term_def lower_def to_lower_def ascii_lower_def ascii_def
          pad2_def str_of_int_def str_of_nat.simps)
  have u: "ascii ''/'' @ ascii ''ay2526.php'' = ascii ''/ay2526.php''"
    by (simp add: ascii_def)
  have pg: "fetch_html ?E (ACADEMIC_BASE @ ascii ''/ay2526.php'')
      = Inr example_inverted_page"
    by (simp add: fetch_html_def ref_env_def example_inverted_site_def ascii_def)
  have c: "candidate_dates_deadlines_urls ?E 2026 (ascii ''spring'')
         = [DATES_BASE @ ascii ''/spring26-dates.php'', DATES_BASE @ ascii ''/26s-dates.php'']"
    by (simp add: candidate_dates_deadlines_urls_def lower_def to_lower_def ascii_lower_def
          ascii_def pad2_def str_of_int_def str_of_nat.simps)
  have f: "fetch_first ?E [DATES_BASE @ ascii ''/spring26-dates.php'', DATES_BASE @ ascii ''/26s-dates.php'']
         = (Some (ascii ''Dates and Deadlines'', DATES_BASE @ ascii ''/spring26-dates.php''),
            [DATES_BASE @ ascii ''/spring26-dates.php''])"
    by (simp add: fetch_html_def ref_env_def example_inverted_site_def ascii_def
          ACADEMIC_BASE_def DATES_BASE_def)
  have d: "ascii ''Dates and Deadlines'' \<noteq> []"
    by (simp add: ascii_def)
  have b: "breaks_in_term \<lparr>start = ymd2ord 2026 1 20, end' = ymd2ord 2026 4 29\<rparr>
             [(ascii ''Spring Break'', ?inv)] = [(ascii ''Spring Break'', ?inv)]"
    "clamp ?inv (ymd2ord 2026 1 20) (ymd2ord 2026 4 29) = ?inv"
    by (simp_all add: breaks_in_term_def intersects_def clamp_def ymd2ord_def
          days_before_month_def is_leap_def)
  have v: "valid_date (ymd2ord 2026 1 20)" "valid_date (ymd2ord 2026 4 29)"
    "ymd2ord 2026 4 29 \<le> 3652054"
    by code_simp+
  note w = instructional_week_events_char[OF v, of "[?inv]"]
  show ?thesis
    using d
    by (simp add: build_term_events_def lower_spring s pg c f inverted_facts assemble_def
          fall_deadlines b holidays_in_term_def term_blackout_ranges_def w Let_def u
          del: fetch_first.simps)
qed

text \<open>
  A break from 2026-03-09 to 2026-03-15 clamped to bounds that end on 2026-03-01 starts
  after it ends; and the break text \<open>March 15-9, 2026\<close> is parsed to a range that starts
  after it ends, which the orchestrator takes as a blackout range unchanged: so does
  \<open>build_term_events\<close> on a page with the line \<open>Spring Break: March 15-9, 2026\<close>.
\<close>

theorem ranges_ordered_counterexample:
  "ymd2ord 2026 3 9 \<le> ymd2ord 2026 3 15 \<and> ymd2ord 2026 1 20 \<le> ymd2ord 2026 3 1
   \<and> clamp \<lparr>start = ymd2ord 2026 3 9, end' = ymd2ord 2026 3 15\<rparr>
        (ymd2ord 2026 1 20) (ymd2ord 2026 3 1)
       = \<lparr>start = ymd2ord 2026 3 9, end' = ymd2ord 2026 3 1\<rparr>
   \<and> \<not> ymd2ord 2026 3 9 \<le> ymd2ord 2026 3 1
   \<and> parse_range (ref_env []) (ascii ''March 15-9, 2026'')
       = Inr \<lparr>start = ymd2ord 2026 3 15, end' = ymd2ord 2026 3 9\<rparr>
   \<and> term_blackout_ranges (ymd2ord 2026 1 20) (ymd2ord 2026 4 29)
        (breaks_in_term \<lparr>start = ymd2ord 2026 1 20, end' = ymd2ord 2026 4 29\<rparr>
           [(ascii ''Spring Break'', \<lparr>start = ymd2ord 2026 3 15, end' = ymd2ord 2026 3 9\<rparr>)]) []
       = [\<lparr>start = ymd2ord 2026 3 15, end' = ymd2ord 2026 3 9\<rparr>]
   \<and> \<not> ymd2ord 2026 3 15 \<le> ymd2ord 2026 3 9
   \<and> (case fst (build_term_events (ref_env example_inverted_site) 2026 (ascii ''spring'')) of
        Inl e \<Rightarrow> None
      | Inr p \<Rightarrow>
          Some (p_first_day p, p_last_day p, p_breaks_in_term p,
                map (\<lambda>(lab, rng). clamp rng (p_first_day p) (p_last_day p)) (p_breaks_in_term p)
                @ map snd (p_holidays_in_term p)))
       = Some (ymd2ord 2026 1 20, ymd2ord 2026 4 29,
               [(ascii ''Spring Break'', \<lparr>start = ymd2ord 2026 3 15, end' = ymd2ord 2026 3 9\<rparr>)],
               [\<lparr>start = ymd2ord 2026 3 15, end' = ymd2ord 2026 3 9\<rparr>])"
proof -
  have c: "clamp \<lparr>start = ymd2ord 2026 3 9, end' = ymd2ord 2026 3 15\<rparr>
        (ymd2ord 2026 1 20) (ymd2ord 2026 3 1)
       = \<lparr>start = ymd2ord 2026 3 9, end' = ymd2ord 2026 3 1\<rparr>"
    by (simp add: clamp_def ymd2ord_def days_before_year_def days_before_month_def is_leap_def)
  have p: "parse_range (ref_env []) (ascii ''March 15-9, 2026'')
       = Inr \<lparr>start = ymd2ord 2026 3 15, end' = ymd2ord 2026 3 9\<rparr>"
    by (simp add: parse_range_def normalize_whitespace_def strip_def replace_endash_def
          range_exact_def range_prefix_def range_of_groups_def format_mdy_def py_int_def
          digit_value_def str_of_int_def str_of_nat.simps rx_defs ref_defs)
  have b: "term_blackout_ranges (ymd2ord 2026 1 20) (ymd2ord 2026 4 29)
        (breaks_in_term \<lparr>start = ymd2ord 2026 1 20, end' = ymd2ord 2026 4 29\<rparr>
           [(ascii ''Spring Break'', \<lparr>start = ymd2ord 2026 3 15, end' = ymd2ord 2026 3 9\<rparr>)]) []
       = [\<lparr>start = ymd2ord 2026 3 15, end' = ymd2ord 2026 3 9\<rparr>]"
    by (simp add: term_blackout_ranges_def breaks_in_term_def intersects_def clamp_def ymd2ord_def
          days_before_year_def days_before_month_def is_leap_def)
  have o: "ymd2ord 2026 3 9 \<le> ymd2ord 2026 3 15" "ymd2ord 2026 1 20 \<le> ymd2ord 2026 3 1"
    "\<not> ymd2ord 2026 3 9 \<le> ymd2ord 2026 3 1" "\<not> ymd2ord 2026 3 15 \<le> ymd2ord 2026 3 9"
    by (simp_all add: ymd2ord_def days_before_year_def days_before_month_def is_leap_def)
  from c p b o inverted_run show ?thesis by simp
qed

text \<open>Fall 2025: the break inside the term is clamped to itself, the holiday is a range of
  one day, a single date gives a range of one day, and the blackout ranges of the run
  are in order.\<close>

theorem ranges_ordered_witness:
  "ymd2ord 2025 10 11 \<le> ymd2ord 2025 10 14 \<and> ymd2ord 2025 8 25 \<le> ymd2ord 2025 11 14
   \<and> intersects \<lparr>start = ymd2ord 2025 10 11, end' = ymd2ord 2025 10 14\<rparr>
        \<lparr>start = ymd2ord 2025 8 25, end' = ymd2ord 2025 11 14\<rparr>
   \<and> start (clamp \<lparr>start = ymd2ord 2025 10 11, end' = ymd2ord 2025 10 14\<rparr>
               (ymd2ord 2025 8 25) (ymd2ord 2025 11 14))
       \<le> end' (clamp \<lparr>start = ymd2ord 2025 10 11, end' = ymd2ord 2025 10 14\<rparr>
               (ymd2ord 2025 8 25) (ymd2ord 2025 11 14))
   \<and> parse_range (ref_env example_fall_site) (ascii ''September 1, 2025'')
       = Inr \<lparr>start = ymd2ord 2025 9 1, end' = ymd2ord 2025 9 1\<rparr>
   \<and> re_match (range_exact (ref_env example_fall_site)) (ascii ''October 11-14, 2025'')
       = Some [ascii ''October'', ascii ''11'', ascii ''14'', ascii ''2025'']
   \<and> dateutil_parse (ref_env example_fall_site) False (format_mdy (ascii ''October'') 11 2025)
       = Inr (ymd2ord 2025 10 11)
   \<and> dateutil_parse (ref_env example_fall_site) False (format_mdy (ascii ''October'') 14 2025)
       = Inr (ymd2ord 2025 10 14)
   \<and> parse_range (ref_env example_fall_site) (ascii ''October 11-14, 2025'')
       = Inr \<lparr>start = ymd2ord 2025 10 11, end' = ymd2ord 2025 10 14\<rparr>
   \<and> fst (build_term_events (ref_env example_fall_site) 2025 (ascii ''Fall''))
       = Inr example_fall_payload
   \<and> map (\<lambda>(lab, rng). clamp rng (p_first_day example_fall_payload)
                           (p_last_day example_fall_payload))
        (p_breaks_in_term example_fall_payload)
      @ map snd (p_holidays_in_term example_fall_payload)
       = [\<lparr>start = ymd2ord 2025 10 11, end' = ymd2ord 2025 10 14\<rparr>,
          \<lparr>start = ymd2ord 2025 9 1, end' = ymd2ord 2025 9 1\<rparr>]
   \<and> list_all (\<lambda>b. start b \<le> end' b \<and> ymd2ord 2025 8 25 \<le> start b
                    \<and> end' b \<le> ymd2ord 2025 11 14)
        [\<lparr>start = ymd2ord 2025 10 11, end' = ymd2ord 2025 10 14\<rparr>,
         \<lparr>start = ymd2ord 2025 9 1, end' = ymd2ord 2025 9 1\<rparr>]"
proof -
  let ?E = "ref_env example_fall_site"
  let ?r = "\<lparr>start = ymd2ord 2025 10 11, end' = ymd2ord 2025 10 14\<rparr>"
  let ?h = "\<lparr>start = ymd2ord 2025 9 1, end' = ymd2ord 2025 9 1\<rparr>"
  let ?lo = "ymd2ord 2025 8 25" and ?hi = "ymd2ord 2025 11 14"
  let ?gs = "[ascii ''October'', ascii ''11'', ascii ''14'', ascii ''2025'']"
  let ?p = "example_fall_payload"
  have o: "start ?r \<le> end' ?r \<and> ?lo \<le> ?hi"
    by (simp add: ymd2ord_def days_before_year_def days_before_month_def is_leap_def)
  have i: "intersects ?r \<lparr>start = ?lo, end' = ?hi\<rparr>"
    by (simp add: intersects_def ymd2ord_def days_before_year_def days_before_month_def is_leap_def)
  have n1: "normalize_whitespace (replace_endash (ascii ''September 1, 2025'')) = ascii ''September 1, 2025''"
    by (simp add: normalize_whitespace_def replace_endash_def strip_def rx_defs)
  have n2: "normalize_whitespace (replace_endash (ascii ''October 11-14, 2025'')) = ascii ''October 11-14, 2025''"
    by (simp add: normalize_whitespace_def replace_endash_def strip_def rx_defs)
  have a: "re_match (range_exact ?E) (ascii ''September 1, 2025'') = None"
    by (simp add: range_exact_def range_prefix_def rx_defs)
  have b: "re_match (range_with_suffix ?E) (ascii ''September 1, 2025'') = None"
    by (simp add: range_with_suffix_def range_prefix_def rx_defs)
  have p1: "parse_range ?E (ascii ''September 1, 2025'') = Inr ?h"
    by (simp add: parse_range_def normalize_whitespace_def strip_def replace_endash_def
          range_exact_def range_with_suffix_def range_prefix_def parse_month_day_year_def
          rx_defs ref_defs)
  have m: "re_match (range_exact ?E) (ascii ''October 11-14, 2025'') = Some ?gs"
    by (simp add: range_exact_def range_prefix_def rx_defs)
  have f: "py_int ?E (?gs ! 1) = 11" "py_int ?E (?gs ! 2) = 14" "py_int ?E (?gs ! 3) = 2025"
    by (simp_all add: py_int_def digit_value_def ascii_def)
  have d1: "dateutil_parse ?E False (format_mdy (ascii ''October'') 11 2025) = Inr (ymd2ord 2025 10 11)"
    by (simp add: format_mdy_def str_of_int_def str_of_nat.simps ref_defs rx_defs)
  have d2: "dateutil_parse ?E False (format_mdy (ascii ''October'') 14 2025) = Inr (ymd2ord 2025 10 14)"
    by (simp add: format_mdy_def str_of_int_def str_of_nat.simps ref_defs rx_defs)
  have run: "fst (build_term_events ?E 2025 (ascii ''Fall'')) = Inr ?p"
    unfolding example_fall_payload_def by (rule fall_run)
  have bl: "map (\<lambda>(lab, rng). clamp rng (p_first_day ?p) (p_last_day ?p)) (p_breaks_in_term ?p)
              @ map snd (p_holidays_in_term ?p) = [?r, ?h]"
    by (simp add: example_fall_payload_def fall_in_term)
  have bo: "p_first_day ?p \<le> p_last_day ?p
          \<and> (\<forall>b\<in>set (p_breaks_in_term ?p). start (snd b) \<le> end' (snd b))"
    using o by (simp add: example_fall_payload_def)
  note T1 = ranges_ordered[of ?r ?lo ?hi ?E "ascii ''September 1, 2025''" ?h "[]" 2025 10
      2025 "ascii ''Fall''" ?p]
  note T2 = ranges_ordered[of ?r ?lo ?hi ?E "ascii ''October 11-14, 2025''" ?r ?gs 2025 10
      2025 "ascii ''Fall''" ?p]
  have c: "start (clamp ?r ?lo ?hi) \<le> end' (clamp ?r ?lo ?hi)"
    using T1 o i by blast
  have s: "start ?h = end' ?h"
    using T1 a b p1 unfolding n1 by blast
  have "\<exists>rng. parse_range ?E (ascii ''October 11-14, 2025'') = Inr rng
          \<and> start rng = ymd2ord 2025 10 11 \<and> end' rng = ymd2ord 2025 10 14
          \<and> (start rng \<le> end' rng \<longleftrightarrow> (11::int) \<le> 14)"
    using T2 m d1 d2 unfolding n2 f by simp
  then have p2: "parse_range ?E (ascii ''October 11-14, 2025'') = Inr ?r"
    by auto
  have e: "\<forall>b\<in>set [?r, ?h]. start b \<le> end' b \<and> ?lo \<le> start b \<and> end' b \<le> ?hi"
    using T2 run bo unfolding bl by (simp add: example_fall_payload_def)
  from o i c p1 m d1 d2 p2 run bl e show ?thesis by simp
qed

subsection \<open>The end date of a captured line\<close>

lemma example_two_months:
  "full_line_rest E (ascii ''FULL  -  January 20 - February 2, 2026'')
     = ascii ''January 20 - February 2, 2026''"
  by (simp add: full_line_rest_def full_token_def normalize_whitespace_def replace_endash_def
        strip_def rx_defs)

lemma example_two_months_A:
  "re_fullmatch (single_date_pattern E) (ascii ''January 20 - February 2, 2026'') = None"
  by (simp add: single_date_pattern_def rx_defs)

lemma example_two_months_B:
  "re_fullmatch (two_month_pattern E) (ascii ''January 20 - February 2, 2026'')
     = Some [ascii ''January'', ascii ''20'', ascii ''February'', ascii ''2'', ascii ''2026'']"
  by (simp add: two_month_pattern_def rx_defs)

lemma example_one_month:
  "full_line_rest E (ascii ''FULL - March 16-29, 2026'') = ascii ''March 16-29, 2026''"
  by (simp add: full_line_rest_def full_token_def normalize_whitespace_def replace_endash_def
        strip_def rx_defs)

lemma example_one_month_A:
  "re_fullmatch (single_date_pattern E) (ascii ''March 16-29, 2026'') = None"
  by (simp add: single_date_pattern_def rx_defs)

lemma example_one_month_B:
  "re_fullmatch (two_month_pattern E) (ascii ''March 16-29, 2026'') = None"
  by (simp add: two_month_pattern_def rx_defs)

lemma example_one_month_C:
  "re_fullmatch (one_month_pattern E) (ascii ''March 16-29, 2026'')
     = Some [ascii ''March'', ascii ''16'', ascii ''29'', ascii ''2026'']"
  by (simp add: one_month_pattern_def rx_defs)

lemma format_february: "format_mdy (ascii ''February'') (py_int E (ascii ''2'')) (py_int E (ascii ''2026''))
  = ascii ''February 2, 2026''"
  by (simp add: format_mdy_def py_int_def digit_value_def str_of_int_def str_of_nat.simps ascii_def)

lemma format_march: "format_mdy (ascii ''March'') (py_int E (ascii ''29'')) (py_int E (ascii ''2026''))
  = ascii ''March 29, 2026''"
  by (simp add: format_mdy_def py_int_def digit_value_def str_of_int_def str_of_nat.simps ascii_def)

text \<open>
  Claim C2. For every captured line (\<open>rest\<close> is the line with the leading \<open>FULL\<close> and the
  separators stripped) the extractor tries, in this order:
  (a) \<open>rest\<close> is a bare \<open>Month D, YYYY\<close>: the result is the date the parser reads in it;
  (b) \<open>rest\<close> is \<open>Month D - Month D, YYYY\<close>: the result is the date the parser reads in
      the text built from the second month, the second day and the year;
  (c) \<open>rest\<close> is \<open>Month D-D, YYYY\<close>: the date read in the text built from the month, the
      second day and the year;
  (d) otherwise, the date read in the last \<open>Month D, YYYY\<close> that occurs in \<open>rest\<close>;
  and when there is none, or no line was captured, the result is \<open>None\<close>, no exception.
  The two lines of the specification give the dates the parser reads in
  \<open>February 2, 2026\<close> and in \<open>March 29, 2026\<close>.
\<close>

theorem end_date_cascade:
  assumes "line \<noteq> []" and "rest = full_line_rest E line"
  shows
   "(re_fullmatch (single_date_pattern E) rest \<noteq> None \<longrightarrow>
       extract_end_date_from_full_line E (Some line) = some_date (parse_month_day_year E rest))
    \<and> (re_fullmatch (single_date_pattern E) rest = None
        \<and> re_fullmatch (two_month_pattern E) rest = Some gs \<longrightarrow>
       extract_end_date_from_full_line E (Some line)
         = some_date (dateutil_parse E False
             (format_mdy (gs ! 2) (py_int E (gs ! 3)) (py_int E (gs ! 4)))))
    \<and> (re_fullmatch (single_date_pattern E) rest = None
        \<and> re_fullmatch (two_month_pattern E) rest = None
        \<and> re_fullmatch (one_month_pattern E) rest = Some gs \<longrightarrow>
       extract_end_date_from_full_line E (Some line)
         = some_date (dateutil_parse E False
             (format_mdy (gs ! 0) (py_int E (gs ! 2)) (py_int E (gs ! 3)))))
    \<and> (re_fullmatch (single_date_pattern E) rest = None
        \<and> re_fullmatch (two_month_pattern E) rest = None
        \<and> re_fullmatch (one_month_pattern E) rest = None
        \<and> re_findall (single_date_pattern E) rest \<noteq> [] \<longrightarrow>
       extract_end_date_from_full_line E (Some line)
         = some_date (parse_month_day_year E (last (re_findall (single_date_pattern E) rest))))
    \<and> (re_fullmatch (single_date_pattern E) rest = None
        \<and> re_fullmatch (two_month_pattern E) rest = None
        \<and> re_fullmatch (one_month_pattern E) rest = None
        \<and> re_findall (single_date_pattern E) rest = [] \<longrightarrow>
       extract_end_date_from_full_line E (Some line) = Inr None)
    \<and> extract_end_date_from_full_line E None = Inr None
    \<and> extract_end_date_from_full_line E (Some (ascii ''FULL  -  January 20 - February 2, 2026''))
         = some_date (dateutil_parse E False (ascii ''February 2, 2026''))
    \<and> extract_end_date_from_full_line E (Some (ascii ''FULL - March 16-29, 2026''))
         = some_date (dateutil_parse E False (ascii ''March 29, 2026''))"
proof (intro conjI impI)
  show "extract_end_date_from_full_line E None = Inr None"
    by (simp add: extract_end_date_from_full_line_def)
  have ne1: "ascii ''FULL  -  January 20 - February 2, 2026'' \<noteq> []"
    and ne2: "ascii ''FULL - March 16-29, 2026'' \<noteq> []"
    by (simp_all add: ascii_def)
  show "extract_end_date_from_full_line E (Some (ascii ''FULL  -  January 20 - February 2, 2026''))
         = some_date (dateutil_parse E False (ascii ''February 2, 2026''))"
    using ne1
    by (simp add: extract_end_date_from_full_line_def example_two_months example_two_months_A
          example_two_months_B format_february some_date_def)
  show "extract_end_date_from_full_line E (Some (ascii ''FULL - March 16-29, 2026''))
         = some_date (dateutil_parse E False (ascii ''March 29, 2026''))"
    using ne2
    by (simp add: extract_end_date_from_full_line_def example_one_month example_one_month_A
          example_one_month_B example_one_month_C format_march some_date_def)
qed (use assms in \<open>simp_all add: extract_end_date_from_full_line_def some_date_def\<close>)

text \<open>The lines of the specification, and one line for each of the cases (a), (d) and
  for no date at all.\<close>

theorem end_date_cascade_witness:
  "ascii ''FULL  -  January 20 - February 2, 2026'' \<noteq> []
   \<and> full_line_rest (ref_env []) (ascii ''FULL  -  January 20 - February 2, 2026'')
       = ascii ''January 20 - February 2, 2026''
   \<and> re_fullmatch (single_date_pattern (ref_env [])) (ascii ''January 20 - February 2, 2026'') = None
   \<and> re_fullmatch (two_month_pattern (ref_env [])) (ascii ''January 20 - February 2, 2026'')
       = Some [ascii ''January'', ascii ''20'', ascii ''February'', ascii ''2'', ascii ''2026'']
   \<and> extract_end_date_from_full_line (ref_env [])
        (Some (ascii ''FULL  -  January 20 - February 2, 2026'')) = Inr (Some (ymd2ord 2026 2 2))
   \<and> extract_end_date_from_full_line (ref_env [])
        (Some (ascii ''FULL - March 16-29, 2026'')) = Inr (Some (ymd2ord 2026 3 29))
   \<and> extract_end_date_from_full_line (ref_env [])
        (Some (ascii ''FULL - April 11, 2026'')) = Inr (Some (ymd2ord 2026 4 11))
   \<and> extract_end_date_from_full_line (ref_env [])
        (Some (ascii ''FULL: from February 3, 2026 until April 11, 2026 (Saturday)''))
       = Inr (Some (ymd2ord 2026 4 11))
   \<and> extract_end_date_from_full_line (ref_env []) (Some (ascii ''FULL - to be announced''))
       = Inr None"
proof -
  let ?E = "ref_env []"
  have ne: "ascii ''FULL  -  January 20 - February 2, 2026'' \<noteq> []"
    by (simp add: ascii_def)
  note T = end_date_cascade[OF ne example_two_months[of ?E, symmetric],
      of "[ascii ''January'', ascii ''20'', ascii ''February'', ascii ''2'', ascii ''2026'']"]
  have feb: "dateutil_parse ?E False (ascii ''February 2, 2026'') = Inr (ymd2ord 2026 2 2)"
    by (simp add: ref_defs rx_defs)
  have mar: "dateutil_parse ?E False (ascii ''March 29, 2026'') = Inr (ymd2ord 2026 3 29)"
    by (simp add: ref_defs rx_defs)
  have e1: "extract_end_date_from_full_line ?E
        (Some (ascii ''FULL  -  January 20 - February 2, 2026'')) = Inr (Some (ymd2ord 2026 2 2))"
    using T feb by (simp add: some_date_def)
  have e2: "extract_end_date_from_full_line ?E
        (Some (ascii ''FULL - March 16-29, 2026'')) = Inr (Some (ymd2ord 2026 3 29))"
    using T mar by (simp add: some_date_def)
  have e3: "extract_end_date_from_full_line ?E
        (Some (ascii ''FULL - April 11, 2026'')) = Inr (Some (ymd2ord 2026 4 11))"
    by (simp add: extract_end_date_from_full_line_def full_line_rest_def full_token_def
          normalize_whitespace_def replace_endash_def strip_def single_date_pattern_def
          parse_month_day_year_def rx_defs ref_defs)
  have e4: "extract_end_date_from_full_line ?E
        (Some (ascii ''FULL: from February 3, 2026 until April 11, 2026 (Saturday)''))
       = Inr (Some (ymd2ord 2026 4 11))"
    by (simp add: extract_end_date_from_full_line_def full_line_rest_def full_token_def
          normalize_whitespace_def replace_endash_def strip_def single_date_pattern_def
          two_month_pattern_def one_month_pattern_def
          parse_month_day_year_def rx_defs ref_defs)
  have e5: "extract_end_date_from_full_line ?E (Some (ascii ''FULL - to be announced'')) = Inr None"
    by (simp add: extract_end_date_from_full_line_def full_line_rest_def full_token_def
          normalize_whitespace_def replace_endash_def strip_def single_date_pattern_def
          two_month_pattern_def one_month_pattern_def
          parse_month_day_year_def rx_defs ref_defs)
  from ne example_two_months[of ?E] example_two_months_A[of ?E] example_two_months_B[of ?E]
    e1 e2 e3 e4 e5
  show ?thesis by simp
qed

subsection \<open>The deadline scanner\<close>


lemma section_at_Cons:
  "foldl (section_step E) st (take (Suc i) (l # ls)) = foldl (section_step E) (section_step E st l) (take i ls)"
  by simp
















subsection \<open>Two runs over the same pages\<close>

text \<open>Only \<open>fetch_html\<close> asks the page server; whatever works on a text does not.\<close>

lemma is_digit_http [http_indep]: "is_digit (E\<lparr>http_get := h\<rparr>) = is_digit E"
  by (rule ext) (simp add: is_digit_def)

lemma digit_value_http [http_indep]: "digit_value (E\<lparr>http_get := h\<rparr>) = digit_value E"
  by (rule ext) (simp add: digit_value_def)

lemma is_word_http [http_indep]: "is_word (E\<lparr>http_get := h\<rparr>) = is_word E"
  by (rule ext) (simp add: is_word_def)

lemma to_lower_http [http_indep]: "to_lower (E\<lparr>http_get := h\<rparr>) = to_lower E"
  by (rule ext) (simp add: to_lower_def)

lemma ci_char_http [http_indep]: "ci_char (E\<lparr>http_get := h\<rparr>) = ci_char E"
  by (intro ext) (simp add: ci_char_def http_indep Let_def cong: sum.case_cong option.case_cong if_cong)

lemma lower_http [http_indep]: "lower (E\<lparr>http_get := h\<rparr>) = lower E"
  by (rule ext) (simp add: lower_def http_indep Let_def cong: sum.case_cong option.case_cong if_cong)

lemma lit_i_http [http_indep]: "lit_i (E\<lparr>http_get := h\<rparr>) = lit_i E"
  by (rule ext) (simp add: lit_i_def http_indep Let_def cong: sum.case_cong option.case_cong if_cong)

lemma py_int_http [http_indep]: "py_int (E\<lparr>http_get := h\<rparr>) = py_int E"
  by (rule ext) (simp add: py_int_def http_indep Let_def cong: sum.case_cong option.case_cong if_cong)

lemma parse_month_day_year_http [http_indep]:
  "parse_month_day_year (E\<lparr>http_get := h\<rparr>) = parse_month_day_year E"
  by (rule ext) (simp add: parse_month_day_year_def)

lemma range_prefix_http [http_indep]: "range_prefix (E\<lparr>http_get := h\<rparr>) = range_prefix E"
  by (simp add: range_prefix_def http_indep Let_def cong: sum.case_cong option.case_cong if_cong)

lemma range_exact_http [http_indep]: "range_exact (E\<lparr>http_get := h\<rparr>) = range_exact E"
  by (simp add: range_exact_def http_indep Let_def cong: sum.case_cong option.case_cong if_cong)

lemma range_with_suffix_http [http_indep]:
  "range_with_suffix (E\<lparr>http_get := h\<rparr>) = range_with_suffix E"
  by (simp add: range_with_suffix_def http_indep Let_def cong: sum.case_cong option.case_cong if_cong)

lemma range_of_groups_http [http_indep]:
  "range_of_groups (E\<lparr>http_get := h\<rparr>) = range_of_groups E"
  by (rule ext) (simp add: range_of_groups_def http_indep Let_def cong: sum.case_cong option.case_cong if_cong)

lemma parse_range_http [http_indep]: "parse_range (E\<lparr>http_get := h\<rparr>) = parse_range E"
  by (rule ext) (simp add: parse_range_def http_indep Let_def cong: sum.case_cong option.case_cong if_cong)

lemma slug_http [http_indep]:
  "academic_year_slug_for_term (E\<lparr>http_get := h\<rparr>) = academic_year_slug_for_term E"
  by (intro ext) (simp add: academic_year_slug_for_term_def http_indep Let_def cong: sum.case_cong option.case_cong if_cong)

lemma candidates_http [http_indep]:
  "candidate_dates_deadlines_urls (E\<lparr>http_get := h\<rparr>) = candidate_dates_deadlines_urls E"
  by (intro ext) (simp add: candidate_dates_deadlines_urls_def http_indep Let_def cong: sum.case_cong option.case_cong if_cong)

lemma term_heading_http [http_indep]: "term_heading (E\<lparr>http_get := h\<rparr>) = term_heading E"
  by (simp add: term_heading_def http_indep Let_def cong: sum.case_cong option.case_cong if_cong)

lemma spring_heading_http [http_indep]: "spring_heading (E\<lparr>http_get := h\<rparr>) = spring_heading E"
  by (simp add: spring_heading_def http_indep Let_def cong: sum.case_cong option.case_cong if_cong)

lemma page_lines_http [http_indep]: "page_lines (E\<lparr>http_get := h\<rparr>) = page_lines E"
  by (rule ext) (simp add: page_lines_def)

lemma extract_term_block_text_http [http_indep]:
  "extract_term_block_text (E\<lparr>http_get := h\<rparr>) = extract_term_block_text E"
  by (intro ext) (simp add: extract_term_block_text_def http_indep Let_def cong: sum.case_cong option.case_cong if_cong)

lemma bullet_date_pattern_http [http_indep]:
  "bullet_date_pattern (E\<lparr>http_get := h\<rparr>) = bullet_date_pattern E"
  by (rule ext) (simp add: bullet_date_pattern_def http_indep Let_def cong: sum.case_cong option.case_cong if_cong)

lemma find_bullet_date_http [http_indep]:
  "find_bullet_date (E\<lparr>http_get := h\<rparr>) = find_bullet_date E"
  by (intro ext) (simp add: find_bullet_date_def http_indep Let_def cong: sum.case_cong option.case_cong if_cong)

lemma bullet_range_pattern_http [http_indep]:
  "bullet_range_pattern (E\<lparr>http_get := h\<rparr>) = bullet_range_pattern E"
  by (rule ext) (simp add: bullet_range_pattern_def http_indep Let_def cong: sum.case_cong option.case_cong if_cong)

lemma find_bullet_range_http [http_indep]:
  "find_bullet_range (E\<lparr>http_get := h\<rparr>) = find_bullet_range E"
  by (intro ext) (simp add: find_bullet_range_def http_indep Let_def cong: sum.case_cong option.case_cong if_cong)

lemma find_any_labeled_ranges_http [http_indep]:
  "find_any_labeled_ranges (E\<lparr>http_get := h\<rparr>) t labels = find_any_labeled_ranges E t labels"
  by (induction labels) (simp_all add: http_indep cong: sum.case_cong option.case_cong if_cong)

lemma find_single_holidays_http [http_indep]:
  "find_single_holidays (E\<lparr>http_get := h\<rparr>) t labels = find_single_holidays E t labels"
  by (induction labels) (simp_all add: http_indep cong: sum.case_cong option.case_cong if_cong)

lemma full_token_http [http_indep]: "full_token (E\<lparr>http_get := h\<rparr>) = full_token E"
  by (simp add: full_token_def http_indep Let_def cong: sum.case_cong option.case_cong if_cong)

lemma scan_lines_http [http_indep]:
  "scan_lines (E\<lparr>http_get := h\<rparr>) ls a b c d = scan_lines E ls a b c d"
  by (induction ls arbitrary: a b c d) (simp_all add: http_indep cong: sum.case_cong option.case_cong if_cong)

lemma single_date_pattern_http [http_indep]:
  "single_date_pattern (E\<lparr>http_get := h\<rparr>) = single_date_pattern E"
  by (simp add: single_date_pattern_def http_indep Let_def cong: sum.case_cong option.case_cong if_cong)

lemma two_month_pattern_http [http_indep]:
  "two_month_pattern (E\<lparr>http_get := h\<rparr>) = two_month_pattern E"
  by (simp add: two_month_pattern_def http_indep Let_def cong: sum.case_cong option.case_cong if_cong)

lemma one_month_pattern_http [http_indep]:
  "one_month_pattern (E\<lparr>http_get := h\<rparr>) = one_month_pattern E"
  by (simp add: one_month_pattern_def http_indep Let_def cong: sum.case_cong option.case_cong if_cong)

lemma full_line_rest_http [http_indep]:
  "full_line_rest (E\<lparr>http_get := h\<rparr>) = full_line_rest E"
  by (rule ext) (simp add: full_line_rest_def http_indep Let_def cong: sum.case_cong option.case_cong if_cong)

lemma extract_end_date_http [http_indep]:
  "extract_end_date_from_full_line (E\<lparr>http_get := h\<rparr>) = extract_end_date_from_full_line E"
  by (rule ext) (simp add: extract_end_date_from_full_line_def http_indep Let_def cong: sum.case_cong option.case_cong if_cong)

lemma deadline_lines_http [http_indep]:
  "deadline_lines (E\<lparr>http_get := h\<rparr>) = deadline_lines E"
  by (rule ext) (simp add: deadline_lines_def http_indep Let_def cong: sum.case_cong option.case_cong if_cong)

lemma parse_deadlines_http [http_indep]:
  "parse_deadlines_drop_withdraw (E\<lparr>http_get := h\<rparr>) = parse_deadlines_drop_withdraw E"
  by (rule ext) (simp add: parse_deadlines_drop_withdraw_def http_indep Let_def cong: sum.case_cong option.case_cong if_cong)

lemma read_term_facts_http [http_indep]:
  "read_term_facts (E\<lparr>http_get := h\<rparr>) = read_term_facts E"
  by (intro ext) (simp add: read_term_facts_def http_indep Let_def cong: sum.case_cong option.case_cong if_cong)

lemma assemble_http [http_indep]:
  "assemble (E\<lparr>http_get := h\<rparr>) = assemble E"
  by (intro ext)
     (simp add: assemble_def http_indep Let_def cong: sum.case_cong option.case_cong if_cong)

lemma assemble_model:
  "(case assemble E a u facts d of Inl e \<Rightarrow> Inl e | Inr p \<Rightarrow> Inr (term_model p))
   = (case assemble E a' u' facts d of Inl e \<Rightarrow> Inl e | Inr p \<Rightarrow> Inr (term_model p))"
  by (simp add: assemble_def term_model_def Let_def split: sum.splits prod.splits)

text \<open>The functions that work on a text without a date do not ask the date parser.\<close>

lemma is_digit_parser [parser_indep]: "is_digit (E\<lparr>dateutil_parse := p\<rparr>) = is_digit E"
  by (rule ext) (simp add: is_digit_def)

lemma digit_value_parser [parser_indep]: "digit_value (E\<lparr>dateutil_parse := p\<rparr>) = digit_value E"
  by (rule ext) (simp add: digit_value_def)

lemma is_word_parser [parser_indep]: "is_word (E\<lparr>dateutil_parse := p\<rparr>) = is_word E"
  by (rule ext) (simp add: is_word_def)

lemma to_lower_parser [parser_indep]: "to_lower (E\<lparr>dateutil_parse := p\<rparr>) = to_lower E"
  by (rule ext) (simp add: to_lower_def)

lemma ci_char_parser [parser_indep]: "ci_char (E\<lparr>dateutil_parse := p\<rparr>) = ci_char E"
  by (intro ext) (simp add: ci_char_def parser_indep Let_def cong: sum.case_cong option.case_cong if_cong)

lemma lower_parser [parser_indep]: "lower (E\<lparr>dateutil_parse := p\<rparr>) = lower E"
  by (rule ext) (simp add: lower_def parser_indep Let_def cong: sum.case_cong option.case_cong if_cong)

lemma lit_i_parser [parser_indep]: "lit_i (E\<lparr>dateutil_parse := p\<rparr>) = lit_i E"
  by (rule ext) (simp add: lit_i_def parser_indep Let_def cong: sum.case_cong option.case_cong if_cong)

lemma py_int_parser [parser_indep]: "py_int (E\<lparr>dateutil_parse := p\<rparr>) = py_int E"
  by (rule ext) (simp add: py_int_def parser_indep Let_def cong: sum.case_cong option.case_cong if_cong)

lemma range_prefix_parser [parser_indep]: "range_prefix (E\<lparr>dateutil_parse := p\<rparr>) = range_prefix E"
  by (simp add: range_prefix_def parser_indep Let_def cong: sum.case_cong option.case_cong if_cong)

lemma range_exact_parser [parser_indep]: "range_exact (E\<lparr>dateutil_parse := p\<rparr>) = range_exact E"
  by (simp add: range_exact_def parser_indep Let_def cong: sum.case_cong option.case_cong if_cong)

lemma range_with_suffix_parser [parser_indep]:
  "range_with_suffix (E\<lparr>dateutil_parse := p\<rparr>) = range_with_suffix E"
  by (simp add: range_with_suffix_def parser_indep Let_def cong: sum.case_cong option.case_cong if_cong)

lemma slug_parser [parser_indep]:
  "academic_year_slug_for_term (E\<lparr>dateutil_parse := p\<rparr>) = academic_year_slug_for_term E"
  by (intro ext) (simp add: academic_year_slug_for_term_def parser_indep Let_def cong: sum.case_cong option.case_cong if_cong)

lemma candidates_parser [parser_indep]:
  "candidate_dates_deadlines_urls (E\<lparr>dateutil_parse := p\<rparr>) = candidate_dates_deadlines_urls E"
  by (intro ext) (simp add: candidate_dates_deadlines_urls_def parser_indep Let_def cong: sum.case_cong option.case_cong if_cong)

lemma term_heading_parser [parser_indep]: "term_heading (E\<lparr>dateutil_parse := p\<rparr>) = term_heading E"
  by (simp add: term_heading_def parser_indep Let_def cong: sum.case_cong option.case_cong if_cong)

lemma spring_heading_parser [parser_indep]: "spring_heading (E\<lparr>dateutil_parse := p\<rparr>) = spring_heading E"
  by (simp add: spring_heading_def parser_indep Let_def cong: sum.case_cong option.case_cong if_cong)

lemma page_lines_parser [parser_indep]: "page_lines (E\<lparr>dateutil_parse := p\<rparr>) = page_lines E"
  by (rule ext) (simp add: page_lines_def)

lemma extract_term_block_text_parser [parser_indep]:
  "extract_term_block_text (E\<lparr>dateutil_parse := p\<rparr>) = extract_term_block_text E"
  by (intro ext) (simp add: extract_term_block_text_def parser_indep Let_def cong: sum.case_cong option.case_cong if_cong)

lemma bullet_date_pattern_parser [parser_indep]:
  "bullet_date_pattern (E\<lparr>dateutil_parse := p\<rparr>) = bullet_date_pattern E"
  by (rule ext) (simp add: bullet_date_pattern_def parser_indep Let_def cong: sum.case_cong option.case_cong if_cong)

lemma bullet_range_pattern_parser [parser_indep]:
  "bullet_range_pattern (E\<lparr>dateutil_parse := p\<rparr>) = bullet_range_pattern E"
  by (rule ext) (simp add: bullet_range_pattern_def parser_indep Let_def cong: sum.case_cong option.case_cong if_cong)

lemma full_token_parser [parser_indep]: "full_token (E\<lparr>dateutil_parse := p\<rparr>) = full_token E"
  by (simp add: full_token_def parser_indep Let_def cong: sum.case_cong option.case_cong if_cong)

lemma scan_lines_parser [parser_indep]:
  "scan_lines (E\<lparr>dateutil_parse := p\<rparr>) ls a b c d = scan_lines E ls a b c d"
  by (induction ls arbitrary: a b c d) (simp_all add: parser_indep cong: sum.case_cong option.case_cong if_cong)

lemma single_date_pattern_parser [parser_indep]:
  "single_date_pattern (E\<lparr>dateutil_parse := p\<rparr>) = single_date_pattern E"
  by (simp add: single_date_pattern_def parser_indep Let_def cong: sum.case_cong option.case_cong if_cong)

lemma two_month_pattern_parser [parser_indep]:
  "two_month_pattern (E\<lparr>dateutil_parse := p\<rparr>) = two_month_pattern E"
  by (simp add: two_month_pattern_def parser_indep Let_def cong: sum.case_cong option.case_cong if_cong)

lemma one_month_pattern_parser [parser_indep]:
  "one_month_pattern (E\<lparr>dateutil_parse := p\<rparr>) = one_month_pattern E"
  by (simp add: one_month_pattern_def parser_indep Let_def cong: sum.case_cong option.case_cong if_cong)

lemma full_line_rest_parser [parser_indep]:
  "full_line_rest (E\<lparr>dateutil_parse := p\<rparr>) = full_line_rest E"
  by (rule ext) (simp add: full_line_rest_def parser_indep Let_def cong: sum.case_cong option.case_cong if_cong)

lemma deadline_lines_parser [parser_indep]:
  "deadline_lines (E\<lparr>dateutil_parse := p\<rparr>) = deadline_lines E"
  by (rule ext) (simp add: deadline_lines_def parser_indep Let_def cong: sum.case_cong option.case_cong if_cong)

lemma parse_month_day_year_parser:
  "parse_month_day_year (E\<lparr>dateutil_parse := p\<rparr>) text = p True text"
  by (simp add: parse_month_day_year_def)

lemma range_of_groups_frame:
  assumes "\<forall>q\<in>set (range_queries E gs). p (fst q) (snd q) = dateutil_parse E (fst q) (snd q)"
  shows "range_of_groups (E\<lparr>dateutil_parse := p\<rparr>) gs = range_of_groups E gs"
  using assms
  by (simp add: range_of_groups_def range_queries_def parser_indep
        cong: sum.case_cong option.case_cong if_cong)

lemma parse_range_frame:
  assumes "\<forall>q\<in>set (parse_range_queries E text). p (fst q) (snd q) = dateutil_parse E (fst q) (snd q)"
  shows "parse_range (E\<lparr>dateutil_parse := p\<rparr>) text = parse_range E text"
  using assms
  by (auto simp: parse_range_def parse_range_queries_def parser_indep range_of_groups_frame
        parse_month_day_year_def Let_def split: option.splits)

lemma find_bullet_date_frame:
  assumes "\<forall>q\<in>set (bullet_date_queries E term_text label).
             p (fst q) (snd q) = dateutil_parse E (fst q) (snd q)"
  shows "find_bullet_date (E\<lparr>dateutil_parse := p\<rparr>) term_text label = find_bullet_date E term_text label"
  using assms
  by (auto simp: find_bullet_date_def bullet_date_queries_def parser_indep
        parse_month_day_year_def split: option.splits)

lemma find_bullet_range_frame:
  assumes "\<forall>q\<in>set (bullet_range_queries E term_text label).
             p (fst q) (snd q) = dateutil_parse E (fst q) (snd q)"
  shows "find_bullet_range (E\<lparr>dateutil_parse := p\<rparr>) term_text label = find_bullet_range E term_text label"
  using assms
  by (auto simp: find_bullet_range_def bullet_range_queries_def parser_indep parse_range_frame
        split: option.splits)

lemma find_any_labeled_ranges_frame:
  assumes "\<forall>q\<in>set (concat (map (bullet_range_queries E term_text) labels)).
             p (fst q) (snd q) = dateutil_parse E (fst q) (snd q)"
  shows "find_any_labeled_ranges (E\<lparr>dateutil_parse := p\<rparr>) term_text labels
         = find_any_labeled_ranges E term_text labels"
  using assms
  by (induction labels) (simp_all add: find_bullet_range_frame split: sum.splits)

lemma find_single_holidays_frame:
  assumes "\<forall>q\<in>set (concat (map (bullet_date_queries E term_text) labels)).
             p (fst q) (snd q) = dateutil_parse E (fst q) (snd q)"
  shows "find_single_holidays (E\<lparr>dateutil_parse := p\<rparr>) term_text labels
         = find_single_holidays E term_text labels"
  using assms
  by (induction labels) (simp_all add: find_bullet_date_frame split: sum.splits)

lemma read_term_facts_frame:
  assumes "\<forall>q\<in>set (term_queries E academic_html year semester).
             p (fst q) (snd q) = dateutil_parse E (fst q) (snd q)"
  shows "read_term_facts (E\<lparr>dateutil_parse := p\<rparr>) academic_html year semester
         = read_term_facts E academic_html year semester"
proof (cases "extract_term_block_text E academic_html year semester")
  case (Inl e)
  then show ?thesis by (simp add: read_term_facts_def parser_indep)
next
  case (Inr block)
  let ?t = "extract_subsection block (ascii ''Full Part of Term'')"
  have d: "\<forall>q\<in>set (bullet_date_queries E ?t lab). p (fst q) (snd q) = dateutil_parse E (fst q) (snd q)"
    if "lab \<in> {ascii ''First Day of Classes'', ascii ''Last Day of Classes'',
                     ascii ''Study Day'', ascii ''Labor Day'', ascii ''M. L. King, Jr. Holiday''}" for lab
    using assms that by (auto simp: term_queries_def Inr Let_def)
  have r: "\<forall>q\<in>set (bullet_range_queries E ?t lab). p (fst q) (snd q) = dateutil_parse E (fst q) (snd q)"
    if "lab \<in> set (ascii ''Exams'' # break_like_labels)" for lab
    using assms that by (auto simp: term_queries_def Inr Let_def)
  have fd: "find_bullet_date (E\<lparr>dateutil_parse := p\<rparr>) ?t lab = find_bullet_date E ?t lab"
    if "lab \<in> {ascii ''First Day of Classes'', ascii ''Last Day of Classes'',
                     ascii ''Study Day'', ascii ''Labor Day'', ascii ''M. L. King, Jr. Holiday''}" for lab
    using d[OF that] by (rule find_bullet_date_frame)
  have fr: "find_bullet_range (E\<lparr>dateutil_parse := p\<rparr>) ?t (ascii ''Exams'') = find_bullet_range E ?t (ascii ''Exams'')"
    using r[of "ascii ''Exams''"] by (intro find_bullet_range_frame) simp
  have la: "find_any_labeled_ranges (E\<lparr>dateutil_parse := p\<rparr>) ?t labels = find_any_labeled_ranges E ?t labels"
    if "set labels \<subseteq> set (ascii ''Exams'' # break_like_labels)" for labels
    using r that by (intro find_any_labeled_ranges_frame) auto
  have sh: "find_single_holidays (E\<lparr>dateutil_parse := p\<rparr>) ?t
              [ascii ''Labor Day'', ascii ''M. L. King, Jr. Holiday'']
          = find_single_holidays E ?t [ascii ''Labor Day'', ascii ''M. L. King, Jr. Holiday'']"
    using d by (intro find_single_holidays_frame) auto
  have l1: "find_any_labeled_ranges (E\<lparr>dateutil_parse := p\<rparr>) ?t (break_like_labels @ [ascii ''Exams''])
          = find_any_labeled_ranges E ?t (break_like_labels @ [ascii ''Exams''])"
    by (rule la) auto
  have l2: "find_any_labeled_ranges (E\<lparr>dateutil_parse := p\<rparr>) ?t break_like_labels
          = find_any_labeled_ranges E ?t break_like_labels"
    by (rule la) auto
  have f1: "find_bullet_date (E\<lparr>dateutil_parse := p\<rparr>) ?t (ascii ''First Day of Classes'')
          = find_bullet_date E ?t (ascii ''First Day of Classes'')"
    and f2: "find_bullet_date (E\<lparr>dateutil_parse := p\<rparr>) ?t (ascii ''Last Day of Classes'')
          = find_bullet_date E ?t (ascii ''Last Day of Classes'')"
    and f3: "find_bullet_date (E\<lparr>dateutil_parse := p\<rparr>) ?t (ascii ''Study Day'')
          = find_bullet_date E ?t (ascii ''Study Day'')"
    by (rule fd, simp)+
  show ?thesis
    by (simp add: read_term_facts_def parser_indep Inr Let_def f1 f2 f3 fr l1 l2 sh
          del: find_single_holidays.simps find_any_labeled_ranges.simps
          cong: sum.case_cong option.case_cong prod.case_cong if_cong)
qed

lemma extract_end_date_frame:
  assumes "\<forall>q\<in>set (end_date_queries E line). p (fst q) (snd q) = dateutil_parse E (fst q) (snd q)"
  shows "extract_end_date_from_full_line (E\<lparr>dateutil_parse := p\<rparr>) line
         = extract_end_date_from_full_line E line"
  using assms
  by (auto simp: extract_end_date_from_full_line_def end_date_queries_def parser_indep
        parse_month_day_year_def Let_def split: option.splits)

lemma parse_deadlines_frame:
  assumes "\<forall>q\<in>set (deadline_queries E dates_html). p (fst q) (snd q) = dateutil_parse E (fst q) (snd q)"
  shows "parse_deadlines_drop_withdraw (E\<lparr>dateutil_parse := p\<rparr>) dates_html
         = parse_deadlines_drop_withdraw E dates_html"
proof -
  obtain d w where s: "scan_lines E (deadline_lines E dates_html) False False None None = (d, w)"
    by force
  have "\<forall>q\<in>set (end_date_queries E d). p (fst q) (snd q) = dateutil_parse E (fst q) (snd q)"
    and "\<forall>q\<in>set (end_date_queries E w). p (fst q) (snd q) = dateutil_parse E (fst q) (snd q)"
    using assms by (simp_all add: deadline_queries_def s)
  then have "extract_end_date_from_full_line (E\<lparr>dateutil_parse := p\<rparr>) d
               = extract_end_date_from_full_line E d"
    and "extract_end_date_from_full_line (E\<lparr>dateutil_parse := p\<rparr>) w
               = extract_end_date_from_full_line E w"
    by (simp_all add: extract_end_date_frame)
  then show ?thesis
    by (simp add: parse_deadlines_drop_withdraw_def parser_indep s cong: sum.case_cong)
qed

lemma assemble_frame:
  assumes "\<forall>q\<in>set (deadline_queries E dd_html). p (fst q) (snd q) = dateutil_parse E (fst q) (snd q)"
  shows "assemble (E\<lparr>dateutil_parse := p\<rparr>) a u facts dd_html = assemble E a u facts dd_html"
  using assms by (simp add: assemble_def parse_deadlines_frame)

lemma fetch_first_served:
  "map_option fst (fst (fetch_first E urls)) = first_served E urls"
  by (induction urls) (auto simp: fetch_html_def split: sum.splits prod.splits)

lemma fetch_html_parser [parser_indep]:
  "fetch_html (E\<lparr>dateutil_parse := p\<rparr>) = fetch_html E"
  by (rule ext) (simp add: fetch_html_def)

lemma fetch_first_parser [parser_indep]:
  "fetch_first (E\<lparr>dateutil_parse := p\<rparr>) urls = fetch_first E urls"
  by (induction urls) (simp_all add: parser_indep split: sum.splits)

lemma first_served_parser [parser_indep]:
  "first_served (E\<lparr>dateutil_parse := p\<rparr>) urls = first_served E urls"
  by (induction urls) (simp_all split: sum.splits)

lemma pages_read_parser [parser_indep]:
  "pages_read (E\<lparr>dateutil_parse := p\<rparr>) year semester = pages_read E year semester"
  by (simp add: pages_read_def parser_indep Let_def cong: sum.case_cong)

lemma valid_semester_slug:
  assumes "lower E semester = ascii ''fall'' \<or> lower E semester = ascii ''spring''"
  shows "\<exists>slug. academic_year_slug_for_term E year (lower E semester) = Inr slug"
  using assms by (auto simp: academic_year_slug_for_term_def Let_def lower_fall lower_spring)

text \<open>The steps of a run, one at a time.\<close>

lemma run_model_invalid:
  assumes "lower E semester \<noteq> ascii ''fall'' \<and> lower E semester \<noteq> ascii ''spring''"
  shows "run_model E year semester = Inl ValueError"
  using assms by (simp add: run_model_def build_term_events_def Let_def)

lemma run_model_no_page:
  assumes "lower E semester = ascii ''fall'' \<or> lower E semester = ascii ''spring''"
    and "academic_year_slug_for_term E year (lower E semester) = Inr slug"
    and "http_get E (ACADEMIC_BASE @ ascii ''/'' @ slug) = Inl e"
  shows "run_model E year semester = Inl e"
  using assms by (auto simp: run_model_def build_term_events_def Let_def fetch_html_def)

lemma run_model_no_facts:
  assumes "lower E semester = ascii ''fall'' \<or> lower E semester = ascii ''spring''"
    and "academic_year_slug_for_term E year (lower E semester) = Inr slug"
    and "http_get E (ACADEMIC_BASE @ ascii ''/'' @ slug) = Inr academic_html"
    and "read_term_facts E academic_html year (lower E semester) = Inl e"
  shows "run_model E year semester = Inl e"
  using assms by (auto simp: run_model_def build_term_events_def Let_def fetch_html_def)

lemma run_model_no_deadlines:
  assumes "lower E semester = ascii ''fall'' \<or> lower E semester = ascii ''spring''"
    and "academic_year_slug_for_term E year (lower E semester) = Inr slug"
    and "http_get E (ACADEMIC_BASE @ ascii ''/'' @ slug) = Inr academic_html"
    and "read_term_facts E academic_html year (lower E semester) = Inr facts"
    and "first_served E (candidate_dates_deadlines_urls E year (lower E semester)) = None"
  shows "run_model E year semester = Inl RuntimeError"
proof -
  obtain r t where f: "fetch_first E (candidate_dates_deadlines_urls E year (lower E semester)) = (r, t)"
    by force
  have "r = None"
    using fetch_first_served[of E "candidate_dates_deadlines_urls E year (lower E semester)"]
      assms(5) f by simp
  then show ?thesis
    using assms(1-4) f by (auto simp: run_model_def build_term_events_def Let_def fetch_html_def)
qed

lemma run_model_deadlines:
  assumes "lower E semester = ascii ''fall'' \<or> lower E semester = ascii ''spring''"
    and "academic_year_slug_for_term E year (lower E semester) = Inr slug"
    and "http_get E (ACADEMIC_BASE @ ascii ''/'' @ slug) = Inr academic_html"
    and "read_term_facts E academic_html year (lower E semester) = Inr facts"
    and "first_served E (candidate_dates_deadlines_urls E year (lower E semester)) = Some dd_html"
  shows "run_model E year semester =
           (if dd_html = [] then Inl RuntimeError
            else case assemble E [] [] facts dd_html of
                   Inl e \<Rightarrow> Inl e
                 | Inr p \<Rightarrow> Inr (term_model p))"
proof -
  obtain r t where f: "fetch_first E (candidate_dates_deadlines_urls E year (lower E semester)) = (r, t)"
    by force
  have "map_option fst r = Some dd_html"
    using fetch_first_served[of E "candidate_dates_deadlines_urls E year (lower E semester)"]
      assms(5) f by simp
  then obtain u where r: "r = Some (dd_html, u)" by (cases r) auto
  show ?thesis
    using assms(1-4) f r assemble_model[of E "ACADEMIC_BASE @ ascii ''/'' @ slug" u facts dd_html "[]" "[]"]
    by (auto simp: run_model_def build_term_events_def Let_def fetch_html_def)
qed

lemma pages_read_valid:
  assumes "lower E semester = ascii ''fall'' \<or> lower E semester = ascii ''spring''"
    and "academic_year_slug_for_term E year (lower E semester) = Inr slug"
  shows "pages_read E year semester
         = (http_get E (ACADEMIC_BASE @ ascii ''/'' @ slug),
            first_served E (candidate_dates_deadlines_urls E year (lower E semester)))"
  using assms by (simp add: pages_read_def Let_def)

lemma run_model_cong:
  assumes l: "lower E' semester = lower E semester"
    and s: "academic_year_slug_for_term E' year (lower E semester)
            = academic_year_slug_for_term E year (lower E semester)"
    and pg: "pages_read E' year semester = pages_read E year semester"
    and f: "\<And>html dd. pages_read E year semester = (Inr html, dd) \<Longrightarrow>
              read_term_facts E' html year (lower E semester)
              = read_term_facts E html year (lower E semester)"
    and a: "\<And>facts html d. pages_read E year semester = (Inr html, Some d) \<Longrightarrow>
              assemble E' [] [] facts d = assemble E [] [] facts d"
  shows "run_model E' year semester = run_model E year semester"
proof (cases "lower E semester = ascii ''fall'' \<or> lower E semester = ascii ''spring''")
  case False
  then show ?thesis
    using l run_model_invalid[of E semester year] run_model_invalid[of E' semester year] by simp
next
  case True
  then have v: "lower E semester = ascii ''fall'' \<or> lower E semester = ascii ''spring''"
    and v': "lower E' semester = ascii ''fall'' \<or> lower E' semester = ascii ''spring''"
    using l by simp_all
  from valid_semester_slug[of E semester year] True
  obtain slug where slug: "academic_year_slug_for_term E year (lower E semester) = Inr slug"
    by auto
  have slug': "academic_year_slug_for_term E' year (lower E' semester) = Inr slug"
    using s slug l by simp
  let ?url = "ACADEMIC_BASE @ ascii ''/'' @ slug"
  let ?c = "candidate_dates_deadlines_urls E year (lower E semester)"
  let ?c' = "candidate_dates_deadlines_urls E' year (lower E' semester)"
  have p: "pages_read E year semester = (http_get E ?url, first_served E ?c)"
    using v slug by (rule pages_read_valid)
  have p': "pages_read E' year semester = (http_get E' ?url, first_served E' ?c')"
    using v' slug' by (rule pages_read_valid)
  have h: "http_get E' ?url = http_get E ?url" and d: "first_served E' ?c' = first_served E ?c"
    using pg p p' by simp_all
  show ?thesis
  proof (cases "http_get E ?url")
    case (Inl e)
    then show ?thesis
      using run_model_no_page[OF v slug Inl] run_model_no_page[OF v' slug', of e] h by simp
  next
    case page: (Inr html)
    have page': "http_get E' ?url = Inr html" using h page by simp
    have ff: "read_term_facts E' html year (lower E' semester)
              = read_term_facts E html year (lower E semester)"
      using f[of html "first_served E ?c"] p page l by simp
    show ?thesis
    proof (cases "read_term_facts E html year (lower E semester)")
      case (Inl e)
      then show ?thesis
        using run_model_no_facts[OF v slug page Inl] run_model_no_facts[OF v' slug' page', of e] ff
        by simp
    next
      case facts: (Inr facts)
      have facts': "read_term_facts E' html year (lower E' semester) = Inr facts"
        using ff facts by simp
      show ?thesis
      proof (cases "first_served E ?c")
        case None
        then have "first_served E' ?c' = None" using d by simp
        from run_model_no_deadlines[OF v slug page facts None]
             run_model_no_deadlines[OF v' slug' page' facts' this]
        show ?thesis by simp
      next
        case (Some dd)
        then have s': "first_served E' ?c' = Some dd" using d by simp
        have "assemble E' [] [] facts dd = assemble E [] [] facts dd"
          using a[of html dd facts] p page Some by simp
        with run_model_deadlines[OF v slug page facts Some]
             run_model_deadlines[OF v' slug' page' facts' s']
        show ?thesis by simp
      qed
    qed
  qed
qed

lemma env_differs:
  assumes "same_libraries E1 E2"
  shows "E2 = E1\<lparr>dateutil_parse := dateutil_parse E2, http_get := http_get E2\<rparr>"
  using assms by (cases E1, cases E2) (simp add: same_libraries_def)

text \<open>
  Claim C9, as amended. Take two runs for the same year and semester. The importer has no
  clock and keeps nothing between runs; what can differ from run to run is what the page
  server answers and what the date parser answers. If the Unicode tables and the HTML
  conversion are the same, the two runs are served the same academic-year text and the
  same deadlines text, and the date parser gives the same answer in both runs on each of
  the date texts of the run (\<open>date_texts\<close>, which the page texts determine), then both
  runs raise the same exception or both compute the same term model: first and last day,
  study day, exam range, breaks, holidays, both deadlines and the week events. The page
  servers may differ otherwise, also in which candidate address served the deadlines
  page, and the parsers may differ on every other text. The proviso on the parser is
  needed, and with it the current time does come in: see the example after the next one.
\<close>

theorem same_pages_same_model:
  assumes "same_libraries E1 E2"
    and "pages_read E1 year semester = pages_read E2 year semester"
    and "\<forall>q\<in>set (date_texts E1 year semester).
           dateutil_parse E1 (fst q) (snd q) = dateutil_parse E2 (fst q) (snd q)"
  shows "run_model E1 year semester = run_model E2 year semester"
proof -
  define p where "p = dateutil_parse E2"
  define h where "h = http_get E2"
  define Em where "Em = E1\<lparr>dateutil_parse := p\<rparr>"
  have E2: "E2 = Em\<lparr>http_get := h\<rparr>"
    unfolding Em_def p_def h_def using env_differs[OF assms(1)] by simp
  have agree: "\<forall>q\<in>set (date_texts E1 year semester). p (fst q) (snd q) = dateutil_parse E1 (fst q) (snd q)"
    using assms(3) by (simp add: p_def)
  have "run_model E2 year semester = run_model E1 year semester"
  proof (rule run_model_cong)
    show "lower E2 semester = lower E1 semester"
      unfolding E2 Em_def by (simp add: http_indep parser_indep)
    show "academic_year_slug_for_term E2 year (lower E1 semester)
            = academic_year_slug_for_term E1 year (lower E1 semester)"
      unfolding E2 Em_def by (simp add: http_indep parser_indep)
    show "pages_read E2 year semester = pages_read E1 year semester"
      using assms(2) by simp
  next
    fix html dd
    assume "pages_read E1 year semester = (Inr html, dd)"
    then have "\<forall>q\<in>set (term_queries E1 html year (lower E1 semester)).
                 p (fst q) (snd q) = dateutil_parse E1 (fst q) (snd q)"
      using agree by (simp add: date_texts_def)
    then have "read_term_facts Em html year (lower E1 semester)
                 = read_term_facts E1 html year (lower E1 semester)"
      unfolding Em_def by (rule read_term_facts_frame)
    then show "read_term_facts E2 html year (lower E1 semester)
                 = read_term_facts E1 html year (lower E1 semester)"
      unfolding E2 by (simp add: http_indep)
  next
    fix facts html d
    assume "pages_read E1 year semester = (Inr html, Some d)"
    then have "\<forall>q\<in>set (deadline_queries E1 d). p (fst q) (snd q) = dateutil_parse E1 (fst q) (snd q)"
      using agree by (simp add: date_texts_def)
    then have "assemble Em [] [] facts d = assemble E1 [] [] facts d"
      unfolding Em_def by (rule assemble_frame)
    then show "assemble E2 [] [] facts d = assemble E1 [] [] facts d"
      unfolding E2 by (simp add: http_indep)
  qed
  then show ?thesis by simp
qed

text \<open>The example runs.\<close>

lemmas run_defs = lower_def academic_year_slug_for_term_def pad2_def str_of_int_def str_of_nat.simps
  fetch_html_def ref_env_on_def ref_dateutil_on_def example_sites_def
  candidate_dates_deadlines_urls_def ACADEMIC_BASE_def DATES_BASE_def

lemmas term_defs = extract_term_block_text_def page_lines_def splitlines_def
  is_linebreak_def normalize_whitespace_def strip_def term_heading_def
  extract_subsection_def subsection_headers_def bullet_date_pattern_def
  bullet_range_pattern_def break_like_labels_def

lemma example_facts:
  assumes "1 \<le> k" "k \<le> 31"
  shows "read_term_facts (ref_env_on k sites) example_term_page 2026 (ascii ''spring'')
   = Inr \<lparr>f_first_day = ymd2ord 2026 1 20, f_last_day = ymd2ord 2026 1 23,
          f_study_day = Some (ymd2ord 2026 4 30), f_exams_rng = None, f_single_holidays = [],
          f_breaks = []\<rparr>"
  using assms
  by (simp add: read_term_facts_def find_bullet_date_def parse_month_day_year_def
        find_bullet_range_def example_term_page_def term_defs run_defs rx_defs ref_defs)

lemma example_typo_facts:
  assumes "1 \<le> k" "k \<le> 31"
  shows "read_term_facts (ref_env_on k sites) example_typo_page 2026 (ascii ''spring'')
   = Inr \<lparr>f_first_day = ymd2ord 2026 1 20, f_last_day = ymd2ord 2026 1 23,
          f_study_day = Some (ymd2ord 2026 5 k), f_exams_rng = None, f_single_holidays = [],
          f_breaks = []\<rparr>"
  using assms
  by (simp add: read_term_facts_def find_bullet_date_def parse_month_day_year_def
        find_bullet_range_def example_typo_page_def term_defs run_defs rx_defs ref_defs)

lemma example_term_queries:
  "term_queries (ref_env_on k sites) example_term_page 2026 (ascii ''spring'')
   = [(True, ascii ''January 20, 2026''), (True, ascii ''January 23, 2026''),
      (True, ascii ''April 30, 2026'')]"
  by (simp add: term_queries_def bullet_date_queries_def bullet_range_queries_def
        example_term_page_def term_defs run_defs rx_defs ref_defs)

lemma example_typo_queries:
  "term_queries (ref_env_on k sites) example_typo_page 2026 (ascii ''spring'')
   = [(True, ascii ''January 20, 2026''), (True, ascii ''January 23, 2026''),
      (True, ascii ''Apirl 5, 2026'')]"
  by (simp add: term_queries_def bullet_date_queries_def bullet_range_queries_def
        example_typo_page_def term_defs run_defs rx_defs ref_defs)

lemma example_deadlines_none:
  "parse_deadlines_drop_withdraw (ref_env_on k sites) (ascii ''Dates and Deadlines'')
   = Inr (None, None)"
  by (simp add: parse_deadlines_drop_withdraw_def deadline_lines_def page_lines_def splitlines_def
        is_linebreak_def normalize_whitespace_def strip_def strip_bullets_def full_token_def
        truthy_def extract_end_date_from_full_line_def run_defs rx_defs ref_defs)

lemma example_deadline_queries:
  "deadline_queries (ref_env_on k sites) (ascii ''Dates and Deadlines'') = []"
  by (simp add: deadline_queries_def end_date_queries_def deadline_lines_def page_lines_def
        splitlines_def is_linebreak_def normalize_whitespace_def strip_def strip_bullets_def
        full_token_def truthy_def run_defs rx_defs ref_defs)

lemma example_weeks:
  "instructional_week_events (ymd2ord 2026 1 20) (ymd2ord 2026 1 23) []
   = Inr [(ascii ''Week 1 (short)'', ymd2ord 2026 1 20, ymd2ord 2026 1 23)]"
  by code_simp

lemma example_candidates:
  "candidate_dates_deadlines_urls (ref_env_on k sites) 2026 (ascii ''spring'')
   = [DATES_BASE @ ascii ''/spring26-dates.php'', DATES_BASE @ ascii ''/26s-dates.php'']"
  by (simp_all add: candidate_dates_deadlines_urls_def lower_def to_lower_def ascii_lower_def
        ascii_def pad2_def str_of_int_def str_of_nat.simps)

lemma example_slug:
  "academic_year_slug_for_term (ref_env_on k sites) 2026 (ascii ''spring'') = Inr (ascii ''ay2526.php'')"
  by (simp add: run_defs ref_env_def ascii_def to_lower_def ascii_lower_def)

lemma example_page:
  "http_get (ref_env_on k (example_sites a page)) (ACADEMIC_BASE @ ascii ''/'' @ ascii ''ay2526.php'')
   = Inr page"
  by (simp add: ref_env_on_def ref_env_def example_sites_def ascii_def)

lemma example_served:
  assumes "a = ascii ''/spring26-dates.php'' \<or> a = ascii ''/26s-dates.php''"
  shows "first_served (ref_env_on k (example_sites a page))
      [DATES_BASE @ ascii ''/spring26-dates.php'', DATES_BASE @ ascii ''/26s-dates.php'']
    = Some (ascii ''Dates and Deadlines'')"
  using assms
  by (auto simp: ref_env_on_def ref_env_def example_sites_def ascii_def
        ACADEMIC_BASE_def DATES_BASE_def)

lemma example_pages_read:
  assumes "a = ascii ''/spring26-dates.php'' \<or> a = ascii ''/26s-dates.php''"
  shows "pages_read (ref_env_on k (example_sites a page)) 2026 (ascii ''spring'')
   = (Inr page, Some (ascii ''Dates and Deadlines''))"
  by (simp add: pages_read_def lower_spring example_slug example_page example_candidates
        example_served[OF assms] del: first_served.simps)

lemma example_assemble:
  "assemble (ref_env_on k sites) a u
     \<lparr>f_first_day = ymd2ord 2026 1 20, f_last_day = ymd2ord 2026 1 23,
      f_study_day = sd, f_exams_rng = None, f_single_holidays = [], f_breaks = []\<rparr>
     (ascii ''Dates and Deadlines'')
   = Inr \<lparr>p_ay_url = a, p_dd_url = u, p_first_day = ymd2ord 2026 1 20,
          p_last_day = ymd2ord 2026 1 23, p_study_day = sd, p_exams_rng = None,
          p_breaks_in_term = [], p_holidays_in_term = [], p_last_drop_no_grade = None,
          p_last_withdraw_w = None,
          p_week_events = [(ascii ''Week 1 (short)'', ymd2ord 2026 1 20, ymd2ord 2026 1 23)]\<rparr>"
  by (simp add: assemble_def example_deadlines_none example_weeks holidays_in_term_def
        breaks_in_term_def term_blackout_ranges_def)

lemma example_run:
  assumes "a = ascii ''/spring26-dates.php'' \<or> a = ascii ''/26s-dates.php''"
    and "read_term_facts (ref_env_on k (example_sites a page)) page 2026 (ascii ''spring'')
         = Inr \<lparr>f_first_day = ymd2ord 2026 1 20, f_last_day = ymd2ord 2026 1 23,
                f_study_day = sd, f_exams_rng = None, f_single_holidays = [], f_breaks = []\<rparr>"
  shows "run_model (ref_env_on k (example_sites a page)) 2026 (ascii ''spring'')
   = Inr (ymd2ord 2026 1 20, ymd2ord 2026 1 23, sd, None, [], [], None, None,
          [(ascii ''Week 1 (short)'', ymd2ord 2026 1 20, ymd2ord 2026 1 23)])"
proof -
  let ?E = "ref_env_on k (example_sites a page)"
  have d: "ascii ''Dates and Deadlines'' \<noteq> []"
    by (simp add: ascii_def)
  have v: "lower ?E (ascii ''spring'') = ascii ''fall'' \<or> lower ?E (ascii ''spring'') = ascii ''spring''"
    by (simp add: lower_spring)
  have s: "academic_year_slug_for_term ?E 2026 (lower ?E (ascii ''spring'')) = Inr (ascii ''ay2526.php'')"
    by (simp add: lower_spring example_slug)
  have f: "read_term_facts ?E page 2026 (lower ?E (ascii ''spring''))
         = Inr \<lparr>f_first_day = ymd2ord 2026 1 20, f_last_day = ymd2ord 2026 1 23,
                f_study_day = sd, f_exams_rng = None, f_single_holidays = [], f_breaks = []\<rparr>"
    using assms(2) by (simp add: lower_spring)
  have c: "first_served ?E (candidate_dates_deadlines_urls ?E 2026 (lower ?E (ascii ''spring'')))
         = Some (ascii ''Dates and Deadlines'')"
    by (simp add: lower_spring example_candidates example_served[OF assms(1)]
          del: first_served.simps)
  from run_model_deadlines[OF v s example_page f c] d
  show ?thesis by (simp add: example_assemble term_model_def)
qed

lemma example_libraries:
  "same_libraries (ref_env_on k sites) (ref_env_on k' sites')"
  by (simp add: same_libraries_def ref_env_on_def ref_env_def)

lemma example_date_texts:
  assumes "a = ascii ''/spring26-dates.php'' \<or> a = ascii ''/26s-dates.php''"
  shows "date_texts (ref_env_on k (example_sites a example_term_page)) 2026 (ascii ''spring'')
   = [(True, ascii ''January 20, 2026''), (True, ascii ''January 23, 2026''),
      (True, ascii ''April 30, 2026'')]"
    and "date_texts (ref_env_on k (example_sites a example_typo_page)) 2026 (ascii ''spring'')
   = [(True, ascii ''January 20, 2026''), (True, ascii ''January 23, 2026''),
      (True, ascii ''Apirl 5, 2026'')]"
  by (simp_all add: date_texts_def example_pages_read[OF assms] lower_spring example_term_queries
        example_typo_queries example_deadline_queries)

lemma example_parsers:
  "dateutil_parse (ref_env_on 4 sites) True (ascii ''Apirl 5, 2026'') = Inr (ymd2ord 2026 5 4)"
  "dateutil_parse (ref_env_on 20 sites') True (ascii ''Apirl 5, 2026'') = Inr (ymd2ord 2026 5 20)"
  "ymd2ord 2026 5 4 \<noteq> ymd2ord 2026 5 20"
  by (simp_all add: ref_env_on_def ref_dateutil_on_def mk_date_def valid_ymd_def days_in_month_def
        ymd2ord_def)

lemma example_agree:
  "t \<noteq> ascii ''Apirl 5, 2026'' \<Longrightarrow>
     dateutil_parse (ref_env_on k sites) fuzzy t = dateutil_parse (ref_env_on k' sites') fuzzy t"
  by (simp add: ref_env_on_def ref_dateutil_on_def)

text \<open>
  The page with complete dates, served by two sites at different candidate addresses and
  read on a 4th and on a 20th: the two parsers differ (on \<^verbatim>\<open>Apirl 5, 2026\<close>), but not on
  the three date texts of the run, and the term model is the same.
\<close>

theorem same_pages_same_model_witness:
  "same_libraries (ref_env_on 4 (example_sites (ascii ''/spring26-dates.php'') example_term_page))
                  (ref_env_on 20 (example_sites (ascii ''/26s-dates.php'') example_term_page))
   \<and> pages_read (ref_env_on 4 (example_sites (ascii ''/spring26-dates.php'') example_term_page))
        2026 (ascii ''spring'')
       = pages_read (ref_env_on 20 (example_sites (ascii ''/26s-dates.php'') example_term_page))
        2026 (ascii ''spring'')
   \<and> date_texts (ref_env_on 4 (example_sites (ascii ''/spring26-dates.php'') example_term_page))
        2026 (ascii ''spring'')
       = [(True, ascii ''January 20, 2026''), (True, ascii ''January 23, 2026''),
          (True, ascii ''April 30, 2026'')]
   \<and> list_all (\<lambda>q. dateutil_parse
                      (ref_env_on 4 (example_sites (ascii ''/spring26-dates.php'') example_term_page))
                      (fst q) (snd q)
                  = dateutil_parse
                      (ref_env_on 20 (example_sites (ascii ''/26s-dates.php'') example_term_page))
                      (fst q) (snd q))
        [(True, ascii ''January 20, 2026''), (True, ascii ''January 23, 2026''),
         (True, ascii ''April 30, 2026'')]
   \<and> dateutil_parse (ref_env_on 4 (example_sites (ascii ''/spring26-dates.php'') example_term_page))
        True (ascii ''Apirl 5, 2026'')
       \<noteq> dateutil_parse (ref_env_on 20 (example_sites (ascii ''/26s-dates.php'') example_term_page))
        True (ascii ''Apirl 5, 2026'')
   \<and> http_get (ref_env_on 4 (example_sites (ascii ''/spring26-dates.php'') example_term_page))
        (DATES_BASE @ ascii ''/spring26-dates.php'')
       \<noteq> http_get (ref_env_on 20 (example_sites (ascii ''/26s-dates.php'') example_term_page))
        (DATES_BASE @ ascii ''/spring26-dates.php'')
   \<and> run_model (ref_env_on 4 (example_sites (ascii ''/spring26-dates.php'') example_term_page))
        2026 (ascii ''spring'')
       = Inr (ymd2ord 2026 1 20, ymd2ord 2026 1 23, Some (ymd2ord 2026 4 30), None, [], [], None,
              None, [(ascii ''Week 1 (short)'', ymd2ord 2026 1 20, ymd2ord 2026 1 23)])
   \<and> run_model (ref_env_on 20 (example_sites (ascii ''/26s-dates.php'') example_term_page))
        2026 (ascii ''spring'')
       = Inr (ymd2ord 2026 1 20, ymd2ord 2026 1 23, Some (ymd2ord 2026 4 30), None, [], [], None,
              None, [(ascii ''Week 1 (short)'', ymd2ord 2026 1 20, ymd2ord 2026 1 23)])"
proof -
  let ?E1 = "ref_env_on 4 (example_sites (ascii ''/spring26-dates.php'') example_term_page)"
  let ?E2 = "ref_env_on 20 (example_sites (ascii ''/26s-dates.php'') example_term_page)"
  let ?qs = "[(True, ascii ''January 20, 2026''), (True, ascii ''January 23, 2026''),
              (True, ascii ''April 30, 2026'')]"
  have l: "same_libraries ?E1 ?E2"
    by (rule example_libraries)
  have r: "pages_read ?E1 2026 (ascii ''spring'') = pages_read ?E2 2026 (ascii ''spring'')"
    by (simp add: example_pages_read)
  have q: "date_texts ?E1 2026 (ascii ''spring'') = ?qs"
    by (simp add: example_date_texts)
  have n: "ascii ''January 20, 2026'' \<noteq> ascii ''Apirl 5, 2026''"
    "ascii ''January 23, 2026'' \<noteq> ascii ''Apirl 5, 2026''"
    "ascii ''April 30, 2026'' \<noteq> ascii ''Apirl 5, 2026''"
    by (simp_all add: ascii_def)
  have a: "\<forall>q\<in>set ?qs. dateutil_parse ?E1 (fst q) (snd q) = dateutil_parse ?E2 (fst q) (snd q)"
    using n by (simp add: example_agree)
  have d: "dateutil_parse ?E1 True (ascii ''Apirl 5, 2026'')
           \<noteq> dateutil_parse ?E2 True (ascii ''Apirl 5, 2026'')"
    by (simp add: example_parsers)
  have h: "http_get ?E1 (DATES_BASE @ ascii ''/spring26-dates.php'')
           \<noteq> http_get ?E2 (DATES_BASE @ ascii ''/spring26-dates.php'')"
    by (simp add: ref_env_on_def ref_env_def example_sites_def ascii_def ACADEMIC_BASE_def
          DATES_BASE_def)
  have m: "run_model ?E1 2026 (ascii ''spring'')
       = Inr (ymd2ord 2026 1 20, ymd2ord 2026 1 23, Some (ymd2ord 2026 4 30), None, [], [], None,
              None, [(ascii ''Week 1 (short)'', ymd2ord 2026 1 20, ymd2ord 2026 1 23)])"
    by (rule example_run) (simp_all add: example_facts)
  have a': "\<forall>q\<in>set (date_texts ?E1 2026 (ascii ''spring'')).
              dateutil_parse ?E1 (fst q) (snd q) = dateutil_parse ?E2 (fst q) (snd q)"
    unfolding q by (rule a)
  from same_pages_same_model[OF l r a'] l r q a d h m
  show ?thesis by (simp add: list_all_iff)
qed

text \<open>
  The page with the misspelt month, served by the same site and read on a 4th and on a
  20th. The page texts are the same in both runs; the study day \<^verbatim>\<open>Apirl 5, 2026\<close> is one
  of the date texts of the run and is read as 2026-05-04 in one run and as 2026-05-20 in
  the other, so the term models differ.
\<close>

theorem same_pages_same_model_counterexample:
  "same_libraries (ref_env_on 4 (example_sites (ascii ''/spring26-dates.php'') example_typo_page))
                  (ref_env_on 20 (example_sites (ascii ''/spring26-dates.php'') example_typo_page))
   \<and> http_get (ref_env_on 4 (example_sites (ascii ''/spring26-dates.php'') example_typo_page))
       = http_get (ref_env_on 20 (example_sites (ascii ''/spring26-dates.php'') example_typo_page))
   \<and> pages_read (ref_env_on 4 (example_sites (ascii ''/spring26-dates.php'') example_typo_page))
        2026 (ascii ''spring'')
       = pages_read (ref_env_on 20 (example_sites (ascii ''/spring26-dates.php'') example_typo_page))
        2026 (ascii ''spring'')
   \<and> date_texts (ref_env_on 4 (example_sites (ascii ''/spring26-dates.php'') example_typo_page))
        2026 (ascii ''spring'')
       = [(True, ascii ''January 20, 2026''), (True, ascii ''January 23, 2026''),
          (True, ascii ''Apirl 5, 2026'')]
   \<and> dateutil_parse (ref_env_on 4 (example_sites (ascii ''/spring26-dates.php'') example_typo_page))
        True (ascii ''Apirl 5, 2026'') = Inr (ymd2ord 2026 5 4)
   \<and> dateutil_parse (ref_env_on 20 (example_sites (ascii ''/spring26-dates.php'') example_typo_page))
        True (ascii ''Apirl 5, 2026'') = Inr (ymd2ord 2026 5 20)
   \<and> run_model (ref_env_on 4 (example_sites (ascii ''/spring26-dates.php'') example_typo_page))
        2026 (ascii ''spring'')
       = Inr (ymd2ord 2026 1 20, ymd2ord 2026 1 23, Some (ymd2ord 2026 5 4), None, [], [], None,
              None, [(ascii ''Week 1 (short)'', ymd2ord 2026 1 20, ymd2ord 2026 1 23)])
   \<and> run_model (ref_env_on 20 (example_sites (ascii ''/spring26-dates.php'') example_typo_page))
        2026 (ascii ''spring'')
       = Inr (ymd2ord 2026 1 20, ymd2ord 2026 1 23, Some (ymd2ord 2026 5 20), None, [], [], None,
              None, [(ascii ''Week 1 (short)'', ymd2ord 2026 1 20, ymd2ord 2026 1 23)])
   \<and> run_model (ref_env_on 4 (example_sites (ascii ''/spring26-dates.php'') example_typo_page))
        2026 (ascii ''spring'')
       \<noteq> run_model (ref_env_on 20 (example_sites (ascii ''/spring26-dates.php'') example_typo_page))
        2026 (ascii ''spring'')"
proof -
  let ?E1 = "ref_env_on 4 (example_sites (ascii ''/spring26-dates.php'') example_typo_page)"
  let ?E2 = "ref_env_on 20 (example_sites (ascii ''/spring26-dates.php'') example_typo_page)"
  have h: "http_get ?E1 = http_get ?E2"
    by (simp add: ref_env_on_def)
  have r: "pages_read ?E1 2026 (ascii ''spring'') = pages_read ?E2 2026 (ascii ''spring'')"
    by (simp add: example_pages_read)
  have q: "date_texts ?E1 2026 (ascii ''spring'')
       = [(True, ascii ''January 20, 2026''), (True, ascii ''January 23, 2026''),
          (True, ascii ''Apirl 5, 2026'')]"
    by (simp add: example_date_texts)
  have r4: "run_model ?E1 2026 (ascii ''spring'')
       = Inr (ymd2ord 2026 1 20, ymd2ord 2026 1 23, Some (ymd2ord 2026 5 4), None, [], [], None,
              None, [(ascii ''Week 1 (short)'', ymd2ord 2026 1 20, ymd2ord 2026 1 23)])"
    by (rule example_run) (simp_all add: example_typo_facts)
  have r20: "run_model ?E2 2026 (ascii ''spring'')
       = Inr (ymd2ord 2026 1 20, ymd2ord 2026 1 23, Some (ymd2ord 2026 5 20), None, [], [], None,
              None, [(ascii ''Week 1 (short)'', ymd2ord 2026 1 20, ymd2ord 2026 1 23)])"
    by (rule example_run) (simp_all add: example_typo_facts)
  show ?thesis
    unfolding r4 r20 using h r q example_parsers
    by (simp add: example_libraries)
qed

end
